(* ===== verification/Prelude.thy ===== *)
theory Prelude
  imports Complex_Main "HOL-Library.Word" "HOL-Library.AList"
begin

text \<open>
  Shared ground of the development: the machine integer types, the result type of the Rust
  code, the shape of a call to an external service, and the two interfaces (locales) that
  several components rely on: a keyed store (a \<open>DashMap\<close>, a directory with one file per
  session) and a mirrored pair of stores (memory and disk).
\<close>

section \<open>Machine integers\<close>

type_synonym u8 = "8 word"
type_synonym u16 = "16 word"
type_synonym u32 = "32 word"
type_synonym u64 = "64 word"

text \<open>\<open>saturating_sub\<close> and \<open>saturating_add\<close> of the unsigned integer types.\<close>

definition saturating_sub :: "'a::len word \<Rightarrow> 'a word \<Rightarrow> 'a word" where
  "saturating_sub a b = (if a < b then 0 else a - b)"

definition saturating_add :: "'a::len word \<Rightarrow> 'a word \<Rightarrow> 'a word" where
  "saturating_add a b = (if a + b < a then - 1 else a + b)"

lemma unat_saturating_sub: "unat (saturating_sub a b) = unat a - unat b"
  by (auto simp: saturating_sub_def word_less_nat_alt unat_sub_if')

lemma saturating_sub_self [simp]: "saturating_sub a a = 0"
  by (simp add: saturating_sub_def)

lemma unat_saturating_add:
  "unat (saturating_add a (b :: 'a::len word)) = min (2 ^ LENGTH('a) - 1) (unat a + unat b)"
proof (cases "unat a + unat b < 2 ^ LENGTH('a)")
  case True
  then have "unat (a + b) = unat a + unat b"
    by (simp add: unat_word_ariths)
  with True show ?thesis
    by (simp add: saturating_add_def word_less_nat_alt)
next
  case False
  have "unat (a + b) = unat a + unat b - 2 ^ LENGTH('a)"
    using False by (simp add: unat_plus_if_size word_size)
  moreover have "unat b < 2 ^ LENGTH('a)" by simp
  ultimately have "unat (a + b) < unat a"
    using False by linarith
  then have "a + b < a"
    by (simp add: word_less_nat_alt)
  then have "saturating_add a b = - 1" by (simp add: saturating_add_def)
  with False show ?thesis by (simp add: unsigned_minus_1_eq_mask mask_eq_exp_minus_1)
qed

section \<open>Results and calls to external services\<close>

text \<open>Rust's \<open>Result<T, E>\<close>.\<close>

datatype ('a, 'e) result = Ok 'a | Err 'e

fun is_ok :: "('a, 'e) result \<Rightarrow> bool" where
  "is_ok (Ok _) = True"
| "is_ok (Err _) = False"

fun map_err :: "('e \<Rightarrow> 'f) \<Rightarrow> ('a, 'e) result \<Rightarrow> ('a, 'f) result" where
  "map_err f (Ok x) = Ok x"
| "map_err f (Err e) = Err (f e)"

fun ok_or :: "'a option \<Rightarrow> 'e \<Rightarrow> ('a, 'e) result" where
  "ok_or None e = Err e"
| "ok_or (Some x) e = Ok x"

lemma map_err_Ok_iff [simp]: "map_err f r = Ok x \<longleftrightarrow> r = Ok x"
  by (cases r) auto

lemma is_ok_iff: "is_ok r \<longleftrightarrow> (\<exists>x. r = Ok x)"
  by (cases r) auto

text \<open>
  A call to something outside the program (an HTTP server, mediasoup, the clock) takes the
  state \<open>'w\<close> of the world and returns a result with the next state. \<open>rbind\<close> is the
  \<open>?\<close> operator over such calls: an error ends the computation with the world it left.
\<close>

type_synonym ('w, 'a) io = "'w \<Rightarrow> 'a \<times> 'w"

definition rbind ::
  "('w, ('a, 'e) result) io \<Rightarrow> ('a \<Rightarrow> ('w, ('b, 'e) result) io) \<Rightarrow> ('w, ('b, 'e) result) io" where
  "rbind m f w = (case m w of (Ok x, w') \<Rightarrow> f x w' | (Err e, w') \<Rightarrow> (Err e, w'))"

lemma rbind_Ok_iff:
  "rbind m f w = (Ok y, w'') \<longleftrightarrow> (\<exists>x w'. m w = (Ok x, w') \<and> f x w' = (Ok y, w''))"
  by (auto simp: rbind_def split: prod.splits result.splits)

lemma rbind_Ok [simp]: "m w = (Ok x, w') \<Longrightarrow> rbind m f w = f x w'"
  by (simp add: rbind_def)

lemma rbind_Err [simp]: "m w = (Err e, w') \<Longrightarrow> rbind m f w = (Err e, w')"
  by (simp add: rbind_def)

section \<open>Concurrent maps\<close>

text \<open>
  A \<open>DashMap\<close> (or \<open>HashMap\<close>) is an association list with distinct keys: the operations of
  \<open>HOL-Library.AList\<close> are its insert and remove, \<open>map_of\<close> its lookup. The order of the
  list stands for the order in which an iteration visits the entries, which the library does
  not specify; results that could depend on it are proved independent of it.
\<close>

type_synonym ('k, 'v) dashmap = "('k \<times> 'v) list"

abbreviation dm_get :: "('k, 'v) dashmap \<Rightarrow> 'k \<Rightarrow> 'v option" where
  "dm_get \<equiv> map_of"

abbreviation dm_insert :: "'k \<Rightarrow> 'v \<Rightarrow> ('k, 'v) dashmap \<Rightarrow> ('k, 'v) dashmap" where
  "dm_insert \<equiv> AList.update"

abbreviation dm_remove :: "'k \<Rightarrow> ('k, 'v) dashmap \<Rightarrow> ('k, 'v) dashmap" where
  "dm_remove \<equiv> AList.delete"

definition dm_ok :: "('k, 'v) dashmap \<Rightarrow> bool" where
  "dm_ok m \<longleftrightarrow> distinct (map fst m)"

lemma dm_ok_Nil [simp]: "dm_ok []"
  by (simp add: dm_ok_def)

lemma dm_ok_insert [simp]: "dm_ok m \<Longrightarrow> dm_ok (dm_insert k v m)"
  by (simp add: dm_ok_def distinct_update)

lemma dm_ok_remove [simp]: "dm_ok m \<Longrightarrow> dm_ok (dm_remove k m)"
  by (simp add: dm_ok_def distinct_delete)

lemma dm_get_insert [simp]: "dm_get (dm_insert k v m) k' = (if k = k' then Some v else dm_get m k')"
  by (simp add: update_conv')

lemma dm_get_remove [simp]: "dm_get (dm_remove k m) k' = (if k = k' then None else dm_get m k')"
  by (simp add: delete_conv')

lemma dm_keys_get: "k \<in> fst ` set m \<longleftrightarrow> dm_get m k \<noteq> None"
  by (metis map_of_eq_None_iff)

lemma dm_length_insert:
  "length (dm_insert k v m) = (if dm_get m k = None then Suc (length m) else length m)"
  by (induction m) auto

lemma dm_length_remove_le: "length (dm_remove k m) \<le> length m"
  by (induction m) auto

end
