(* ===== verification/RustStr.thy ===== *)
theory RustStr
  imports Prelude "HOL-Library.Char_ord" "HOL-Library.List_Lexorder" "HOL-Library.Sublist"
begin

text \<open>
  The string functions of the Rust standard library that the program uses. A Rust \<open>str\<close> is a
  UTF-8 byte sequence, modelled as a \<open>string\<close> (a list of 8-bit characters); \<open>len\<close> counts
  bytes, the order is the byte order (\<open>List_Lexorder\<close>), an ASCII character is one byte below 128
  and never part of another character's encoding.
\<close>

named_theorems str_simps \<open>equations of the string functions\<close>

section \<open>Splitting, replacing, prefixes and suffixes\<close>

text \<open>\<open>s.split(c)\<close>: the pieces between the occurrences of one ASCII character, never empty.\<close>

fun split_on :: "char \<Rightarrow> string \<Rightarrow> string list" where
  "split_on c [] = [[]]"
| "split_on c (x # xs) =
     (if x = c then [] # split_on c xs
      else (case split_on c xs of [] \<Rightarrow> [[x]] | p # ps \<Rightarrow> (x # p) # ps))"

lemma split_on_ne [simp]: "split_on c s \<noteq> []"
  by (induction s) (auto split: list.splits)

lemma split_on_hd: "hd (split_on c s) = takeWhile (\<lambda>x. x \<noteq> c) s"
  by (induction s) (auto split: list.splits)

lemma split_on_notin: "c \<notin> set s \<Longrightarrow> split_on c s = [s]"
  by (induction s) auto

lemma split_on_pieces: "p \<in> set (split_on c s) \<Longrightarrow> c \<notin> set p"
  by (induction s arbitrary: p) (auto split: list.splits if_splits)

lemma split_on_append: "split_on c (s @ c # t) = split_on c s @ split_on c t"
  by (induction s) (auto split: list.splits)

lemma split_on_last:
  assumes "c \<notin> set t"
  shows "last (split_on c (s @ c # t)) = t"
  using assms by (simp add: split_on_append split_on_notin)

text \<open>\<open>s.split_once(c)\<close>.\<close>

fun split_once :: "char \<Rightarrow> string \<Rightarrow> (string \<times> string) option" where
  "split_once c [] = None"
| "split_once c (x # xs) =
     (if x = c then Some ([], xs)
      else map_option (\<lambda>(k, v). (x # k, v)) (split_once c xs))"

lemma split_once_Some: "split_once c s = Some (k, v) \<longleftrightarrow> s = k @ c # v \<and> c \<notin> set k"
proof (induction s arbitrary: k)
  case Nil
  show ?case by simp
next
  case (Cons x s)
  show ?case
  proof (cases "x = c")
    case True
    then show ?thesis by (cases k) auto
  next
    case False
    then show ?thesis by (cases k) (auto simp: Cons.IH)
  qed
qed

lemma split_once_None: "split_once c s = None \<longleftrightarrow> c \<notin> set s"
  by (induction s) auto

text \<open>What follows the first occurrence of a pattern: \<open>s.splitn(2, p).nth(1)\<close>.\<close>

fun after_first :: "string \<Rightarrow> string \<Rightarrow> string option" where
  "after_first p s =
     (if prefix p s then Some (drop (length p) s)
      else (case s of [] \<Rightarrow> None | _ # xs \<Rightarrow> after_first p xs))"

declare after_first.simps [simp del]

text \<open>\<open>s.contains(p)\<close> for a string pattern.\<close>

definition str_contains :: "string \<Rightarrow> string \<Rightarrow> bool" where
  "str_contains p s = list_ex (prefix p) (suffixes s)"

lemma str_contains_iff: "str_contains p s \<longleftrightarrow> (\<exists>a b. s = a @ p @ b)"
  unfolding str_contains_def list_ex_iff set_suffixes_eq
  by (auto simp: prefix_def suffix_def)

lemma str_contains_code [code]:
  "str_contains p [] \<longleftrightarrow> p = []"
  "str_contains p (c # s) = (if prefix p (c # s) then True else str_contains p s)"
  by (auto simp: str_contains_def)

text \<open>\<open>s.replace(p, r)\<close> for a non-empty pattern: left to right, without overlap.\<close>

function str_replace :: "string \<Rightarrow> string \<Rightarrow> string \<Rightarrow> string" where
  "str_replace p r s =
     (case s of
        [] \<Rightarrow> []
      | x # xs \<Rightarrow>
          if p \<noteq> [] \<and> prefix p s then r @ str_replace p r (drop (length p) s)
          else x # str_replace p r xs)"
  by pat_completeness auto
termination
  by (relation "measure (\<lambda>(p, r, s). length s)") auto

declare str_replace.simps [simp del]

text \<open>\<open>s.replace(a, b)\<close> for two ASCII characters.\<close>

definition replace_char :: "char \<Rightarrow> char \<Rightarrow> string \<Rightarrow> string" where
  "replace_char a b = map (\<lambda>c. if c = a then b else c)"

lemma replace_char_inj:
  assumes "b \<notin> set s" and "b \<notin> set t" and "replace_char a b s = replace_char a b t"
  shows "s = t"
  using assms
proof (induction s arbitrary: t)
  case Nil
  then show ?case by (simp add: replace_char_def)
next
  case (Cons x s)
  then obtain y t' where t: "t = y # t'" by (cases t) (auto simp: replace_char_def)
  with Cons have "s = t'" by (simp add: replace_char_def)
  with Cons.prems t show ?case by (auto simp: replace_char_def split: if_splits)
qed

text \<open>\<open>strip_prefix\<close>, \<open>strip_suffix\<close> and \<open>trim_end_matches\<close> (of one character).\<close>

definition strip_prefix :: "string \<Rightarrow> string \<Rightarrow> string option" where
  "strip_prefix p s = (if prefix p s then Some (drop (length p) s) else None)"

definition strip_suffix :: "string \<Rightarrow> string \<Rightarrow> string option" where
  "strip_suffix p s = (if suffix p s then Some (take (length s - length p) s) else None)"

definition trim_end_char :: "char \<Rightarrow> string \<Rightarrow> string" where
  "trim_end_char c s = rev (dropWhile (\<lambda>x. x = c) (rev s))"

lemma strip_prefix_Some: "strip_prefix p s = Some r \<longleftrightarrow> s = p @ r"
  by (auto simp: strip_prefix_def prefix_def)

lemma strip_suffix_Some: "strip_suffix p s = Some r \<longleftrightarrow> s = r @ p"
  by (auto simp: strip_suffix_def suffix_def)

lemma strip_suffix_None: "strip_suffix p s = None \<longleftrightarrow> \<not> suffix p s"
  by (simp add: strip_suffix_def)

lemma trim_end_char_snoc: "trim_end_char c (s @ [x]) = (if x = c then trim_end_char c s else s @ [x])"
  by (simp add: trim_end_char_def)

lemma trim_end_char_Nil [simp]: "trim_end_char c [] = []"
  by (simp add: trim_end_char_def)

lemma trim_end_char_id: "s = [] \<or> last s \<noteq> c \<Longrightarrow> trim_end_char c s = s"
  by (cases s rule: rev_cases) (auto simp: trim_end_char_snoc)

lemma trim_end_char_last: "trim_end_char c s \<noteq> [] \<Longrightarrow> last (trim_end_char c s) \<noteq> c"
  by (induction s rule: rev_induct) (auto simp: trim_end_char_snoc)

lemma trim_end_char_idem [simp]: "trim_end_char c (trim_end_char c s) = trim_end_char c s"
  by (rule trim_end_char_id) (use trim_end_char_last in blast)

lemma trim_end_char_prefix: "\<exists>n. s = trim_end_char c s @ replicate n c"
proof (induction s rule: rev_induct)
  case Nil
  show ?case by (rule exI [of _ 0]) simp
next
  case (snoc x s)
  show ?case
  proof (cases "x = c")
    case True
    from snoc obtain n where "s = trim_end_char c s @ replicate n c" ..
    then have "s @ [x] = trim_end_char c s @ replicate (Suc n) c"
      using True by (metis append.assoc replicate_append_same replicate_Suc)
    with True show ?thesis by (metis trim_end_char_snoc)
  next
    case False
    then show ?thesis by (intro exI [of _ 0]) (simp add: trim_end_char_snoc)
  qed
qed

section \<open>White space\<close>

text \<open>
  The UTF-8 encodings of the characters with the Unicode property \<open>White_Space\<close>, which
  \<open>trim\<close> removes at both ends.
\<close>

definition ws_codes :: "string list" where
  "ws_codes =
     map (\<lambda>c. [c]) [CHR 0x09, CHR 0x0A, CHR 0x0B, CHR 0x0C, CHR 0x0D, CHR 0x20]
     @ [[CHR 0xC2, CHR 0x85], [CHR 0xC2, CHR 0xA0], [CHR 0xE1, CHR 0x9A, CHR 0x80]]
     @ map (\<lambda>c. [CHR 0xE2, CHR 0x80, c])
         [CHR 0x80, CHR 0x81, CHR 0x82, CHR 0x83, CHR 0x84, CHR 0x85, CHR 0x86, CHR 0x87,
          CHR 0x88, CHR 0x89, CHR 0x8A, CHR 0xA8, CHR 0xA9, CHR 0xAF]
     @ [[CHR 0xE2, CHR 0x81, CHR 0x9F], [CHR 0xE3, CHR 0x80, CHR 0x80]]"

function trim_start_with :: "string list \<Rightarrow> string \<Rightarrow> string" where
  "trim_start_with ws s =
     (case find (\<lambda>w. w \<noteq> [] \<and> prefix w s) ws of
        None \<Rightarrow> s
      | Some w \<Rightarrow> trim_start_with ws (drop (length w) s))"
  by pat_completeness auto
termination
  by (relation "measure (\<lambda>(ws, s). length s)")
    (auto simp: find_Some_iff prefix_def)

declare trim_start_with.simps [simp del]

definition trim :: "string \<Rightarrow> string" where
  "trim s =
     rev (trim_start_with (map rev ws_codes) (rev (trim_start_with ws_codes s)))"

text \<open>\<open>split_whitespace\<close>: the non-empty pieces between white space.\<close>

function ws_to_space :: "string \<Rightarrow> string" where
  "ws_to_space s =
     (case s of
        [] \<Rightarrow> []
      | x # xs \<Rightarrow>
          (case find (\<lambda>w. w \<noteq> [] \<and> prefix w s) ws_codes of
             None \<Rightarrow> x # ws_to_space xs
           | Some w \<Rightarrow> CHR '' '' # ws_to_space (drop (length w) s)))"
  by pat_completeness auto
termination
  by (relation "measure length") (auto simp: find_Some_iff prefix_def)

declare ws_to_space.simps [simp del]

definition split_whitespace :: "string \<Rightarrow> string list" where
  "split_whitespace s = filter (\<lambda>p. p \<noteq> []) (split_on CHR '' '' (ws_to_space s))"

lemma trim_start_with_none:
  "(\<And>w. w \<in> set ws \<Longrightarrow> w \<noteq> [] \<Longrightarrow> \<not> prefix w s) \<Longrightarrow> trim_start_with ws s = s"
  by (subst trim_start_with.simps) (auto split: option.splits simp: find_Some_iff)

definition ws_bytes :: "char set" where
  "ws_bytes = {CHR 0x09, CHR 0x0A, CHR 0x0B, CHR 0x0C, CHR 0x0D, CHR 0x20,
               CHR 0xC2, CHR 0xE1, CHR 0xE2, CHR 0xE3,
               CHR 0x80, CHR 0x81, CHR 0x82, CHR 0x83, CHR 0x84, CHR 0x85, CHR 0x86, CHR 0x87,
               CHR 0x88, CHR 0x89, CHR 0x8A, CHR 0x9A, CHR 0x9F, CHR 0xA0, CHR 0xA8, CHR 0xA9, CHR 0xAF}"

lemma ws_codes_bytes: "w \<in> set ws_codes \<Longrightarrow> set w \<subseteq> ws_bytes"
  by (auto simp: ws_codes_def ws_bytes_def)

lemma trim_id:
  assumes "set s \<inter> ws_bytes = {}"
  shows "trim s = s"
proof -
  have a: "trim_start_with ws_codes s = s"
  proof (rule trim_start_with_none)
    fix w assume w: "w \<in> set ws_codes" "w \<noteq> []"
    then have "hd w \<in> ws_bytes" using ws_codes_bytes [OF w(1)] by auto
    with assms w(2) show "\<not> prefix w s" by (cases w) (auto simp: prefix_def)
  qed
  have b: "trim_start_with (map rev ws_codes) (rev s) = rev s"
  proof (rule trim_start_with_none)
    fix w assume w: "w \<in> set (map rev ws_codes)" "w \<noteq> []"
    then obtain v where v: "v \<in> set ws_codes" "w = rev v" by auto
    then have "set w \<subseteq> ws_bytes" using ws_codes_bytes [OF v(1)] by simp
    then have "hd w \<in> ws_bytes" using w(2) by auto
    with assms w(2) show "\<not> prefix w (rev s)"
      by (cases w) (auto simp: prefix_def dest!: arg_cong [where f = set])
  qed
  show ?thesis by (simp add: trim_def a b)
qed

section \<open>ASCII case and classes\<close>

definition is_digit :: "char \<Rightarrow> bool" where
  "is_digit c \<longleftrightarrow> CHR ''0'' \<le> c \<and> c \<le> CHR ''9''"

definition is_ascii_alphanumeric :: "char \<Rightarrow> bool" where
  "is_ascii_alphanumeric c \<longleftrightarrow>
     is_digit c \<or> CHR ''A'' \<le> c \<and> c \<le> CHR ''Z'' \<or> CHR ''a'' \<le> c \<and> c \<le> CHR ''z''"

definition to_ascii_lowercase :: "string \<Rightarrow> string" where
  "to_ascii_lowercase = map (\<lambda>c. if CHR ''A'' \<le> c \<and> c \<le> CHR ''Z''
     then char_of (of_char c + 32 :: nat) else c)"

definition eq_ignore_ascii_case :: "string \<Rightarrow> string \<Rightarrow> bool" where
  "eq_ignore_ascii_case s t \<longleftrightarrow> to_ascii_lowercase s = to_ascii_lowercase t"

definition is_ascii :: "string \<Rightarrow> bool" where
  "is_ascii s = list_all (\<lambda>c. (of_char c :: nat) < 128) s"

section \<open>Numbers in decimal\<close>

definition digit_val :: "char \<Rightarrow> nat" where
  "digit_val c = of_char c - 48"

text \<open>
  \<open>str::parse\<close> for an unsigned type with maximum \<open>mx\<close>: an optional plus sign, at least one
  digit, only digits, and a value within the type.
\<close>

fun parse_digits :: "nat \<Rightarrow> nat \<Rightarrow> string \<Rightarrow> nat option" where
  "parse_digits mx acc [] = Some acc"
| "parse_digits mx acc (c # cs) =
     (if is_digit c \<and> acc * 10 + digit_val c \<le> mx
      then parse_digits mx (acc * 10 + digit_val c) cs else None)"

definition parse_uint :: "nat \<Rightarrow> string \<Rightarrow> nat option" where
  "parse_uint mx s =
     (let t = (case s of CHR ''+'' # r \<Rightarrow> r | _ \<Rightarrow> s)
      in if t = [] then None else parse_digits mx 0 t)"

text \<open>\<open>u64::to_string\<close> and the other \<open>Display\<close> instances of the unsigned types.\<close>

fun to_dec :: "nat \<Rightarrow> string" where
  "to_dec n = (if n < 10 then [char_of (48 + n)] else to_dec (n div 10) @ [char_of (48 + n mod 10)])"

declare to_dec.simps [simp del]

lemma of_char_digit [simp]: "(n::nat) < 10 \<Longrightarrow> of_char (char_of (48 + n) :: char) = (48 + n :: nat)"
  by (simp add: of_char_of)

lemma is_digit_of [simp]: "(n::nat) < 10 \<Longrightarrow> is_digit (char_of (48 + n))"
  by (simp add: is_digit_def less_eq_char_def)

lemma digit_val_of [simp]: "(n::nat) < 10 \<Longrightarrow> digit_val (char_of (48 + n)) = n"
  by (simp add: digit_val_def)

lemma parse_digits_snoc:
  "parse_digits mx a (s @ [c]) =
     (case parse_digits mx a s of None \<Rightarrow> None
      | Some b \<Rightarrow> if is_digit c \<and> b * 10 + digit_val c \<le> mx
                  then Some (b * 10 + digit_val c) else None)"
  by (induction s arbitrary: a) auto

lemma parse_digits_to_dec: "n \<le> mx \<Longrightarrow> parse_digits mx 0 (to_dec n) = Some n"
proof (induction n rule: to_dec.induct)
  case (1 n)
  show ?case
  proof (cases "n < 10")
    case True
    with "1.prems" show ?thesis by (subst to_dec.simps) simp
  next
    case False
    have "n div 10 \<le> mx" using "1.prems" by linarith
    with False "1.IH" have "parse_digits mx 0 (to_dec (n div 10)) = Some (n div 10)" by simp
    with False "1.prems" show ?thesis
      by (subst to_dec.simps) (simp add: parse_digits_snoc)
  qed
qed

lemma to_dec_digits: "c \<in> set (to_dec n) \<Longrightarrow> is_digit c"
proof (induction n rule: to_dec.induct)
  case (1 n)
  then show ?case
    by (cases "n < 10") (auto simp: to_dec.simps [of n])
qed

lemma to_dec_ne [simp]: "to_dec n \<noteq> []"
  by (subst to_dec.simps) simp

lemma is_digit_range: "is_digit c \<Longrightarrow> 48 \<le> (of_char c :: nat) \<and> (of_char c :: nat) \<le> 57"
  by (simp add: is_digit_def less_eq_char_def)

lemma parse_uint_to_dec: "n \<le> mx \<Longrightarrow> parse_uint mx (to_dec n) = Some n"
proof -
  assume n: "n \<le> mx"
  obtain c cs where d: "to_dec n = c # cs" by (cases "to_dec n") auto
  then have "is_digit c" using to_dec_digits [of c n] by simp
  then have "c \<noteq> CHR ''+''" by (auto dest: is_digit_range)
  then have "(case to_dec n of CHR ''+'' # r \<Rightarrow> r | _ \<Rightarrow> to_dec n) = to_dec n"
    unfolding d by (auto split: char.splits bool.splits)
  with n show ?thesis by (simp add: parse_uint_def parse_digits_to_dec)
qed

lemma digit_not_ws: "is_digit c \<Longrightarrow> c \<notin> ws_bytes"
  using is_digit_range [of c] by (auto simp: ws_bytes_def)

lemma trim_to_dec [simp]: "trim (to_dec n) = to_dec n"
  by (rule trim_id) (use to_dec_digits digit_not_ws in blast)

lemma parse_digits_bound: "parse_digits mx a s = Some n \<Longrightarrow> a \<le> mx \<Longrightarrow> n \<le> mx"
  by (induction s arbitrary: a) (auto split: if_splits)

lemma parse_uint_bound: "parse_uint mx s = Some n \<Longrightarrow> n \<le> mx"
  by (auto simp: parse_uint_def Let_def split: if_splits dest: parse_digits_bound)

section \<open>UTF-8\<close>

text \<open>\<open>str::from_utf8\<close>: whether a byte sequence is valid UTF-8.\<close>

definition is_cont :: "char \<Rightarrow> bool" where
  "is_cont c \<longleftrightarrow> 128 \<le> (of_char c :: nat) \<and> (of_char c :: nat) < 192"

fun utf8_valid :: "string \<Rightarrow> bool" where
  "utf8_valid [] = True"
| "utf8_valid (a # s) =
     (let n = (of_char a :: nat) in
      if n < 128 then utf8_valid s
      else if n < 194 then False
      else if n < 224 then (case s of b # r \<Rightarrow> is_cont b \<and> utf8_valid r | _ \<Rightarrow> False)
      else if n < 240 then
        (case s of
           b # c # r \<Rightarrow>
             is_cont b \<and> is_cont c
             \<and> (n = 224 \<longrightarrow> 160 \<le> (of_char b :: nat)) \<and> (n = 237 \<longrightarrow> (of_char b :: nat) < 160)
             \<and> utf8_valid r
         | _ \<Rightarrow> False)
      else if n < 245 then
        (case s of
           b # c # d # r \<Rightarrow>
             is_cont b \<and> is_cont c \<and> is_cont d
             \<and> (n = 240 \<longrightarrow> 144 \<le> (of_char b :: nat)) \<and> (n = 244 \<longrightarrow> (of_char b :: nat) < 144)
             \<and> utf8_valid r
         | _ \<Rightarrow> False)
      else False)"

lemma utf8_valid_ascii: "list_all (\<lambda>c. (of_char c :: nat) < 128) s \<Longrightarrow> utf8_valid s"
  by (induction s) auto

lemma utf8_valid_to_dec [simp]: "utf8_valid (to_dec n)"
  by (rule utf8_valid_ascii) (auto simp: list_all_iff dest!: to_dec_digits is_digit_range)

end
