(* ===== verification/Fs.thy ===== *)
theory Fs
  imports RustStr
begin

text \<open>
  The part of the file system the program uses (\<open>tokio::fs\<close>): directories and files under paths
  that are lists of components. Every system call may fail: a schedule of faults says which of
  the coming calls do and how many bytes a failing write still leaves behind. A crash between
  two calls leaves the state that a failing next call leaves.
\<close>

named_theorems fs_defs \<open>definitions of the file system calls\<close>

datatype node = File string | Dir

datatype io_error = NotFound | OtherIo

datatype fault = Fine | Fails nat

type_synonym path = "string list"

record fs =
  nodes :: "(path, node) dashmap"
  faults :: "fault list"

abbreviation fs_at :: "fs \<Rightarrow> path \<Rightarrow> node option" where
  "fs_at s p \<equiv> dm_get (nodes s) p"

text \<open>The next fault of the schedule; an exhausted schedule has no faults left.\<close>

definition next_fault :: "fs \<Rightarrow> fault \<times> fs" where
  "next_fault s = (case faults s of [] \<Rightarrow> (Fine, s) | f # r \<Rightarrow> (f, s\<lparr>faults := r\<rparr>))"

definition path_parent :: "path \<Rightarrow> path option" where
  "path_parent p = (if p = [] then None else Some (butlast p))"

definition file_name :: "path \<Rightarrow> string option" where
  "file_name p = (if p = [] then None else Some (last p))"

text \<open>\<open>Path::join\<close> of one component: joining the empty string names the same place.\<close>

definition path_join :: "path \<Rightarrow> string \<Rightarrow> path" where
  "path_join p c = (if c = [] then p else p @ [c])"

definition sys_create_dir_all :: "path \<Rightarrow> fs \<Rightarrow> (unit, io_error) result \<times> fs" where
  "sys_create_dir_all p s =
     (case next_fault s of
        (Fails _, s) \<Rightarrow> (Err OtherIo, s)
      | (Fine, s) \<Rightarrow>
          if list_ex (\<lambda>q. case fs_at s q of Some (File _) \<Rightarrow> True | _ \<Rightarrow> False) (prefixes p)
          then (Err OtherIo, s)
          else (Ok (), s\<lparr>nodes := fold (\<lambda>q. dm_insert q Dir) (prefixes p) (nodes s)\<rparr>))"

text \<open>Open for writing with create and truncate: the file exists and is empty afterwards.\<close>

definition sys_open_trunc :: "path \<Rightarrow> fs \<Rightarrow> (unit, io_error) result \<times> fs" where
  "sys_open_trunc p s =
     (case next_fault s of
        (Fails _, s) \<Rightarrow> (Err OtherIo, s)
      | (Fine, s) \<Rightarrow>
          if fs_at s (butlast p) \<noteq> Some Dir then (Err NotFound, s)
          else if fs_at s p = Some Dir then (Err OtherIo, s)
          else (Ok (), s\<lparr>nodes := dm_insert p (File []) (nodes s)\<rparr>))"

definition sys_write_all :: "path \<Rightarrow> string \<Rightarrow> fs \<Rightarrow> (unit, io_error) result \<times> fs" where
  "sys_write_all p c s =
     (case next_fault s of
        (Fails n, s) \<Rightarrow> (Err OtherIo, s\<lparr>nodes := dm_insert p (File (take n c)) (nodes s)\<rparr>)
      | (Fine, s) \<Rightarrow> (Ok (), s\<lparr>nodes := dm_insert p (File c) (nodes s)\<rparr>))"

text \<open>\<open>flush\<close> and \<open>sync_all\<close> do not change what the directory tree holds.\<close>

definition sys_sync :: "fs \<Rightarrow> (unit, io_error) result \<times> fs" where
  "sys_sync s = (case next_fault s of (Fails _, s) \<Rightarrow> (Err OtherIo, s) | (Fine, s) \<Rightarrow> (Ok (), s))"

text \<open>\<open>Path::exists\<close> answers false when the lookup itself fails.\<close>

definition sys_exists :: "path \<Rightarrow> fs \<Rightarrow> bool \<times> fs" where
  "sys_exists p s =
     (case next_fault s of (Fails _, s) \<Rightarrow> (False, s) | (Fine, s) \<Rightarrow> (fs_at s p \<noteq> None, s))"

definition sys_remove_file :: "path \<Rightarrow> fs \<Rightarrow> (unit, io_error) result \<times> fs" where
  "sys_remove_file p s =
     (case next_fault s of
        (Fails _, s) \<Rightarrow> (Err OtherIo, s)
      | (Fine, s) \<Rightarrow>
          (case fs_at s p of
             None \<Rightarrow> (Err NotFound, s)
           | Some Dir \<Rightarrow> (Err OtherIo, s)
           | Some (File _) \<Rightarrow> (Ok (), s\<lparr>nodes := dm_remove p (nodes s)\<rparr>)))"

definition sys_rename :: "path \<Rightarrow> path \<Rightarrow> fs \<Rightarrow> (unit, io_error) result \<times> fs" where
  "sys_rename p q s =
     (case next_fault s of
        (Fails _, s) \<Rightarrow> (Err OtherIo, s)
      | (Fine, s) \<Rightarrow>
          (case fs_at s p of
             Some (File c) \<Rightarrow>
               if fs_at s q = Some Dir then (Err OtherIo, s)
               else if fs_at s (butlast q) \<noteq> Some Dir then (Err NotFound, s)
               else (Ok (), s\<lparr>nodes := dm_insert q (File c) (dm_remove p (nodes s))\<rparr>)
           | _ \<Rightarrow> (Err NotFound, s)))"

definition sys_read_to_string :: "path \<Rightarrow> fs \<Rightarrow> (string, io_error) result \<times> fs" where
  "sys_read_to_string p s =
     (case next_fault s of
        (Fails _, s) \<Rightarrow> (Err OtherIo, s)
      | (Fine, s) \<Rightarrow>
          (case fs_at s p of
             None \<Rightarrow> (Err NotFound, s)
           | Some Dir \<Rightarrow> (Err OtherIo, s)
           | Some (File c) \<Rightarrow> (if utf8_valid c then Ok c else Err OtherIo, s)))"

text \<open>The names in a directory, in an unspecified order.\<close>

definition sys_read_dir :: "path \<Rightarrow> fs \<Rightarrow> (string list, io_error) result \<times> fs" where
  "sys_read_dir p s =
     (case next_fault s of
        (Fails _, s) \<Rightarrow> (Err OtherIo, s)
      | (Fine, s) \<Rightarrow>
          if fs_at s p \<noteq> Some Dir then (Err OtherIo, s)
          else (Ok (map (\<lambda>(q, _). last q)
                     (filter (\<lambda>(q, _). q \<noteq> [] \<and> butlast q = p) (nodes s))), s))"

lemmas sys_defs = sys_create_dir_all_def sys_open_trunc_def sys_write_all_def sys_sync_def
  sys_exists_def sys_remove_file_def sys_rename_def sys_read_to_string_def sys_read_dir_def

declare sys_defs [fs_defs] next_fault_def [fs_defs]

lemma next_fault_nodes: "next_fault s = (f, s') \<Longrightarrow> nodes s' = nodes s"
  by (auto simp: next_fault_def split: list.splits)

section \<open>Replacing a file through a temporary file\<close>

text \<open>
  The tail that the three \<open>atomic_write\<close> functions of the program share: write the contents to
  \<open>.<name>.tmp\<close> beside the target, sync it, remove the target if it exists (ignoring a
  failure), and rename the temporary file onto it.
\<close>

definition tmp_path :: "path \<Rightarrow> path" where
  "tmp_path p = butlast p @ [''.'' @ last p @ ''.tmp'']"

definition then_io ::
  "(fs \<Rightarrow> ('a, io_error) result \<times> fs) \<Rightarrow> (fs \<Rightarrow> ('b, io_error) result \<times> fs)
   \<Rightarrow> fs \<Rightarrow> ('b, io_error) result \<times> fs" where
  "then_io m k s = (case m s of (Ok _, s') \<Rightarrow> k s' | (Err e, s') \<Rightarrow> (Err e, s'))"

definition remove_if_exists :: "path \<Rightarrow> fs \<Rightarrow> (unit, io_error) result \<times> fs" where
  "remove_if_exists p s =
     (case sys_exists p s of
        (True, s) \<Rightarrow> (Ok (), snd (sys_remove_file p s))
      | (False, s) \<Rightarrow> (Ok (), s))"

definition write_tmp_and_rename :: "path \<Rightarrow> string \<Rightarrow> fs \<Rightarrow> (unit, io_error) result \<times> fs" where
  "write_tmp_and_rename p c =
     then_io (sys_open_trunc (tmp_path p))
       (then_io (sys_write_all (tmp_path p) c)
         (then_io sys_sync
           (then_io sys_sync
             (then_io (remove_if_exists p) (sys_rename (tmp_path p) p)))))"

lemma tmp_path_neq: "p \<noteq> [] \<Longrightarrow> tmp_path p \<noteq> p"
proof
  assume "p \<noteq> []" "tmp_path p = p"
  then have "length (last (tmp_path p)) = length (last p)" by simp
  then show False by (simp add: tmp_path_def)
qed

lemma butlast_tmp_path [simp]: "butlast (tmp_path p) = butlast p"
  by (simp add: tmp_path_def)

text \<open>
  \<open>keeps A m\<close>: whatever the faults, the call \<open>m\<close> changes no path outside \<open>A\<close>.
\<close>

definition keeps :: "path set \<Rightarrow> (fs \<Rightarrow> 'r \<times> fs) \<Rightarrow> bool" where
  "keeps A m \<longleftrightarrow> (\<forall>s q. q \<notin> A \<longrightarrow> fs_at (snd (m s)) q = fs_at s q)"

named_theorems keeps_intros \<open>rules that show which paths a call leaves alone\<close>

lemma keepsD: "keeps A m \<Longrightarrow> m s = (r, s') \<Longrightarrow> q \<notin> A \<Longrightarrow> fs_at s' q = fs_at s q"
  unfolding keeps_def by (metis snd_conv)

lemma keeps_open [keeps_intros]: "p \<in> A \<Longrightarrow> keeps A (sys_open_trunc p)"
  by (auto simp: keeps_def sys_open_trunc_def dest: next_fault_nodes split: prod.splits fault.splits)

lemma keeps_write [keeps_intros]: "p \<in> A \<Longrightarrow> keeps A (sys_write_all p c)"
  by (auto simp: keeps_def sys_write_all_def dest: next_fault_nodes split: prod.splits fault.splits)

lemma keeps_sync [keeps_intros]: "keeps A sys_sync"
  by (auto simp: keeps_def sys_sync_def dest: next_fault_nodes split: prod.splits fault.splits)

lemma keeps_exists [keeps_intros]: "keeps A (sys_exists p)"
  by (auto simp: keeps_def sys_exists_def dest: next_fault_nodes split: prod.splits fault.splits)

lemma keeps_remove [keeps_intros]: "p \<in> A \<Longrightarrow> keeps A (sys_remove_file p)"
  by (auto simp: keeps_def sys_remove_file_def dest: next_fault_nodes
      split: prod.splits fault.splits option.splits node.splits)

lemma keeps_rename [keeps_intros]: "p \<in> A \<Longrightarrow> q \<in> A \<Longrightarrow> keeps A (sys_rename p q)"
  by (auto simp: keeps_def sys_rename_def dest: next_fault_nodes
      split: prod.splits fault.splits option.splits node.splits)

lemma keeps_read [keeps_intros]: "keeps A (sys_read_to_string p)"
  by (auto simp: keeps_def sys_read_to_string_def dest: next_fault_nodes
      split: prod.splits fault.splits option.splits node.splits)

lemma keeps_read_dir [keeps_intros]: "keeps A (sys_read_dir p)"
  by (auto simp: keeps_def sys_read_dir_def dest: next_fault_nodes split: prod.splits fault.splits)

lemma keeps_then_io [keeps_intros]: "keeps A m \<Longrightarrow> keeps A k \<Longrightarrow> keeps A (then_io m k)"
  unfolding keeps_def then_io_def by (auto split: prod.splits result.splits) (metis snd_conv)+

lemma keeps_remove_if_exists [keeps_intros]: "p \<in> A \<Longrightarrow> keeps A (remove_if_exists p)"
  using keeps_exists [of A p] keeps_remove [of p A]
  unfolding keeps_def remove_if_exists_def by (auto split: prod.splits bool.splits) (metis snd_conv)+

lemma keeps_write_tmp_and_rename [keeps_intros]:
  "p \<in> A \<Longrightarrow> tmp_path p \<in> A \<Longrightarrow> keeps A (write_tmp_and_rename p c)"
  unfolding write_tmp_and_rename_def by (intro keeps_intros)

text \<open>
  \<open>triple P m Q E\<close>: from a state in \<open>P\<close>, whatever the faults, a success of \<open>m\<close> ends in \<open>Q\<close> and
  a failure in \<open>E\<close>.
\<close>

definition triple ::
  "(fs \<Rightarrow> bool) \<Rightarrow> (fs \<Rightarrow> ('a, io_error) result \<times> fs) \<Rightarrow> (fs \<Rightarrow> bool) \<Rightarrow> (fs \<Rightarrow> bool) \<Rightarrow> bool" where
  "triple P m Q E \<longleftrightarrow> (\<forall>s. P s \<longrightarrow> (case m s of (Ok _, s') \<Rightarrow> Q s' | (Err _, s') \<Rightarrow> E s'))"

lemma triple_then_io: "triple P m R E \<Longrightarrow> triple R k Q E \<Longrightarrow> triple P (then_io m k) Q E"
  unfolding triple_def then_io_def by (fastforce split: prod.splits result.splits)

lemma triple_Ok: "triple P m Q E \<Longrightarrow> P s \<Longrightarrow> m s = (Ok x, s') \<Longrightarrow> Q s'"
  unfolding triple_def by (metis (mono_tags, lifting) case_prod_conv result.simps(5))

lemma triple_Err: "triple P m Q E \<Longrightarrow> P s \<Longrightarrow> m s = (Err e, s') \<Longrightarrow> E s'"
  unfolding triple_def by (metis (mono_tags, lifting) case_prod_conv result.simps(6))

text \<open>
  The outcome of a replacement under any schedule of faults: the target never holds a partial
  value, success means the new contents, and a failure (or a crash) leaves the old contents
  or no file at all.
\<close>

definition old_or_gone :: "path \<Rightarrow> node option \<Rightarrow> fs \<Rightarrow> bool" where
  "old_or_gone p old s \<longleftrightarrow> fs_at s p = old \<or> fs_at s p = None"

lemma write_tmp_and_rename_triple:
  assumes p: "p \<noteq> []"
  shows "triple (\<lambda>s. fs_at s p = old) (write_tmp_and_rename p c)
           (\<lambda>s. fs_at s p = Some (File c) \<and> fs_at s (tmp_path p) = None) (old_or_gone p old)"
    (is "triple ?P _ ?Q ?E")
proof -
  let ?t = "tmp_path p"
  let ?W = "\<lambda>s. fs_at s p = old \<and> fs_at s ?t = Some (File c)"
  let ?G = "\<lambda>s. old_or_gone p old s \<and> fs_at s ?t = Some (File c)"
  note [simp] = tmp_path_neq [OF p] tmp_path_neq [OF p, symmetric]
  have 1: "triple ?P (sys_open_trunc ?t) ?P ?E"
    by (auto simp: triple_def sys_open_trunc_def old_or_gone_def dest: next_fault_nodes
        split: prod.splits fault.splits)
  have 2: "triple ?P (sys_write_all ?t c) ?W ?E"
    by (auto simp: triple_def sys_write_all_def old_or_gone_def dest: next_fault_nodes
        split: prod.splits fault.splits)
  have 3: "triple ?W sys_sync ?W ?E"
    by (auto simp: triple_def sys_sync_def old_or_gone_def dest: next_fault_nodes
        split: prod.splits fault.splits)
  have 4: "triple ?W (remove_if_exists p) ?G ?E"
    by (auto simp: triple_def remove_if_exists_def sys_exists_def sys_remove_file_def
        old_or_gone_def dest!: next_fault_nodes
        split: prod.splits fault.splits option.splits node.splits bool.splits)
  have 5: "triple ?G (sys_rename ?t p) ?Q ?E"
    by (auto simp: triple_def sys_rename_def old_or_gone_def dest!: next_fault_nodes
        split: prod.splits fault.splits option.splits node.splits)
  show ?thesis
    unfolding write_tmp_and_rename_def
    by (rule triple_then_io [OF 1 triple_then_io [OF 2 triple_then_io [OF 3
      triple_then_io [OF 3 triple_then_io [OF 4 5]]]]])
qed

text \<open>Without faults and with the directory in place the replacement succeeds.\<close>

lemma butlast_neq: "p \<noteq> [] \<Longrightarrow> butlast p \<noteq> p \<and> butlast p \<noteq> tmp_path p"
proof (intro conjI notI)
  assume p: "p \<noteq> []"
  { assume "butlast p = p" then have "length (butlast p) = length p" by simp
    then have "length p - 1 = length p" by simp
    with p show False by (cases p) auto }
  { assume "butlast p = tmp_path p" then have "length (butlast p) = length (tmp_path p)" by simp
    then have "length p - 1 = length p - 1 + 1" by (simp add: tmp_path_def)
    then show False by simp }
qed

lemma write_tmp_and_rename_succeeds:
  assumes "p \<noteq> []" and "faults s = []" and "fs_at s (butlast p) = Some Dir"
    and "fs_at s p \<noteq> Some Dir" and "fs_at s (tmp_path p) \<noteq> Some Dir"
  shows "\<exists>s'. write_tmp_and_rename p c s = (Ok (), s') \<and> faults s' = []"
  using assms tmp_path_neq [OF assms(1)] tmp_path_neq [OF assms(1), symmetric]
    butlast_neq [OF assms(1)]
  by (cases "fs_at s p"; cases "the (fs_at s p)")
    (auto simp: write_tmp_and_rename_def then_io_def remove_if_exists_def fs_defs)

end
