(* ===== verification/Interfaces.thy ===== *)
theory Interfaces
  imports RustStr
begin

text \<open>
  The contracts between components. A \<^emph>\<open>keyed store\<close> keeps one value per key: the program has
  it in memory (a \<open>DashMap\<close>) and on disk (one file per session, the key being the sanitised
  session id). A \<^emph>\<open>mirrored store\<close> is a pair of them, written together.
\<close>

datatype ('i, 'v) store_op = Put 'i 'v | Del 'i

fun op_id :: "('i, 'v) store_op \<Rightarrow> 'i" where
  "op_id (Put i v) = i"
| "op_id (Del i) = i"

text \<open>One operation on a store with the given writes, and on the abstract store: a function on
  normalised keys.\<close>

definition run_op :: "('i \<Rightarrow> 'v \<Rightarrow> 's \<Rightarrow> 's) \<Rightarrow> ('i \<Rightarrow> 's \<Rightarrow> 's) \<Rightarrow> ('i, 'v) store_op \<Rightarrow> 's \<Rightarrow> 's" where
  "run_op put del op s = (case op of Put i v \<Rightarrow> put i v s | Del i \<Rightarrow> del i s)"

definition abs_op :: "('i \<Rightarrow> 'k) \<Rightarrow> ('i, 'v) store_op \<Rightarrow> ('k \<Rightarrow> 'v option) \<Rightarrow> 'k \<Rightarrow> 'v option" where
  "abs_op key_of op m = (case op of Put i v \<Rightarrow> m(key_of i := Some v) | Del i \<Rightarrow> m(key_of i := None))"

section \<open>Keyed stores\<close>

locale keyed_store =
  fixes key_of :: "'i \<Rightarrow> 'k"
    and valid :: "'i \<Rightarrow> 'v \<Rightarrow> bool"
    and inv :: "'s \<Rightarrow> bool"
    and lookup :: "'s \<Rightarrow> 'i \<Rightarrow> 'v option"
    and put :: "'i \<Rightarrow> 'v \<Rightarrow> 's \<Rightarrow> 's"
    and del :: "'i \<Rightarrow> 's \<Rightarrow> 's"
    and ids :: "'i set"
  assumes valid_ids: "valid i v \<Longrightarrow> i \<in> ids"
    and inv_put: "inv s \<Longrightarrow> valid i v \<Longrightarrow> inv (put i v s)"
    and inv_del: "inv s \<Longrightarrow> i \<in> ids \<Longrightarrow> inv (del i s)"
    and lookup_put: "inv s \<Longrightarrow> valid i v \<Longrightarrow> j \<in> ids \<Longrightarrow>
           lookup (put i v s) j = (if key_of i = key_of j then Some v else lookup s j)"
    and lookup_del: "inv s \<Longrightarrow> i \<in> ids \<Longrightarrow> j \<in> ids \<Longrightarrow>
           lookup (del i s) j = (if key_of i = key_of j then None else lookup s j)"
begin

definition op_ok :: "('i, 'v) store_op \<Rightarrow> bool" where
  "op_ok op \<longleftrightarrow> (case op of Put i v \<Rightarrow> valid i v | Del i \<Rightarrow> i \<in> ids)"

definition represents :: "'s \<Rightarrow> ('k \<Rightarrow> 'v option) \<Rightarrow> bool" where
  "represents s m \<longleftrightarrow> inv s \<and> (\<forall>i \<in> ids. lookup s i = m (key_of i))"

lemma represents_step:
  assumes "represents s m" and "op_ok op"
  shows "represents (run_op put del op s) (abs_op key_of op m)"
  using assms
  by (cases op)
    (auto simp: represents_def op_ok_def run_op_def abs_op_def
      intro: inv_put inv_del simp: lookup_put lookup_del valid_ids)

text \<open>Any sequence of operations implements the same sequence on the abstract store.\<close>

lemma represents_run:
  "represents s m \<Longrightarrow> \<forall>op \<in> set ops. op_ok op \<Longrightarrow>
     represents (fold (run_op put del) ops s) (fold (abs_op key_of) ops m)"
  by (induction ops arbitrary: s m) (auto intro: represents_step)

lemma put_then_lookup: "inv s \<Longrightarrow> valid i v \<Longrightarrow> lookup (put i v s) i = Some v"
  by (simp add: lookup_put valid_ids)

lemma del_idem: "inv s \<Longrightarrow> i \<in> ids \<Longrightarrow> j \<in> ids \<Longrightarrow> lookup (del i (del i s)) j = lookup (del i s) j"
  by (simp add: lookup_del inv_del)

end

section \<open>Mirrored stores\<close>

text \<open>
  Two stores of the same values: memory, whose keys are the ids, and disk, whose keys are the
  normalised ids. The code writes memory first and then the disk.
\<close>

locale mirrored_store =
  mem: keyed_store "\<lambda>i :: 'i. i" mem_valid mem_inv mem_lookup mem_put mem_del mem_ids +
  disk: keyed_store key_of disk_valid disk_inv disk_lookup disk_put disk_del disk_ids
  for key_of :: "'i \<Rightarrow> 'k"
    and mem_valid :: "'i \<Rightarrow> 'v \<Rightarrow> bool" and mem_inv :: "'m \<Rightarrow> bool"
    and mem_lookup :: "'m \<Rightarrow> 'i \<Rightarrow> 'v option" and mem_put :: "'i \<Rightarrow> 'v \<Rightarrow> 'm \<Rightarrow> 'm"
    and mem_del :: "'i \<Rightarrow> 'm \<Rightarrow> 'm" and mem_ids :: "'i set"
    and disk_valid :: "'i \<Rightarrow> 'v \<Rightarrow> bool" and disk_inv :: "'d \<Rightarrow> bool"
    and disk_lookup :: "'d \<Rightarrow> 'i \<Rightarrow> 'v option" and disk_put :: "'i \<Rightarrow> 'v \<Rightarrow> 'd \<Rightarrow> 'd"
    and disk_del :: "'i \<Rightarrow> 'd \<Rightarrow> 'd" and disk_ids :: "'i set" +
  assumes disk_valid_mem: "disk_valid i v \<Longrightarrow> mem_valid i v"
    and disk_ids_mem: "disk_ids \<subseteq> mem_ids"
begin

definition in_step :: "'i set \<Rightarrow> 'm \<Rightarrow> 'd \<Rightarrow> bool" where
  "in_step I m d \<longleftrightarrow> mem_inv m \<and> disk_inv d \<and> (\<forall>i \<in> I. mem_lookup m i = disk_lookup d i)"

text \<open>
  As long as the ids in use are kept apart by the normalisation, memory and disk agree after
  any sequence of operations on them.
\<close>

lemma in_step_run:
  assumes "in_step I m d" and "I \<subseteq> disk_ids" and "inj_on key_of I"
    and "\<forall>op \<in> set ops. disk.op_ok op \<and> op_id op \<in> I"
  shows "in_step I (fold (run_op mem_put mem_del) ops m) (fold (run_op disk_put disk_del) ops d)"
  using assms(1,4)
proof (induction ops arbitrary: m d)
  case Nil
  then show ?case by simp
next
  case (Cons op ops)
  have "in_step I (run_op mem_put mem_del op m) (run_op disk_put disk_del op d)"
  proof (cases op)
    case (Put i v)
    with Cons.prems assms(2,3) disk_ids_mem show ?thesis
      by (auto simp: in_step_def disk.op_ok_def run_op_def
          mem.lookup_put disk.lookup_put disk_valid_mem mem.inv_put disk.inv_put subset_iff
          dest: inj_onD)
  next
    case (Del i)
    with Cons.prems assms(2,3) disk_ids_mem show ?thesis
      by (auto simp: in_step_def disk.op_ok_def run_op_def
          mem.lookup_del disk.lookup_del mem.inv_del disk.inv_del subset_iff dest: inj_onD)
  qed
  with Cons show ?case by simp
qed

end

section \<open>Transition systems\<close>

text \<open>
  A transition system with an invariant, and a concrete system whose steps an abstract one can
  follow as long as the concrete invariant holds: what is invariant in the abstract system is then
  invariant in the concrete one.
\<close>

locale invariant_system =
  fixes step :: "'s \<Rightarrow> 's \<Rightarrow> bool" and inv :: "'s \<Rightarrow> bool"
  assumes inv_step: "inv s \<Longrightarrow> step s t \<Longrightarrow> inv t"
begin

lemma inv_run: "step\<^sup>*\<^sup>* s t \<Longrightarrow> inv s \<Longrightarrow> inv t"
  by (induction rule: rtranclp_induct) (auto intro: inv_step)

end

locale refined_system =
  concrete: invariant_system cstep cinv + abstract: invariant_system astep ainv
  for cstep :: "'c \<Rightarrow> 'c \<Rightarrow> bool" and cinv :: "'c \<Rightarrow> bool"
    and astep :: "'a \<Rightarrow> 'a \<Rightarrow> bool" and ainv :: "'a \<Rightarrow> bool" +
  fixes abs :: "'c \<Rightarrow> 'a"
  assumes simulates: "cinv s \<Longrightarrow> cstep s t \<Longrightarrow> astep\<^sup>*\<^sup>* (abs s) (abs t)"
begin

lemma run_simulates: "cstep\<^sup>*\<^sup>* s t \<Longrightarrow> cinv s \<Longrightarrow> astep\<^sup>*\<^sup>* (abs s) (abs t)"
proof (induction rule: rtranclp_induct)
  case (step t u)
  then have "cinv t" by (blast intro: concrete.inv_run)
  with step show ?case using simulates rtranclp_trans by metis
qed simp

end

sublocale refined_system \<subseteq> pulled_back: invariant_system cstep "\<lambda>s. cinv s \<and> ainv (abs s)"
  by unfold_locales (metis concrete.inv_step simulates abstract.inv_run)

section \<open>The in-memory store\<close>

text \<open>A \<open>DashMap\<close> is a keyed store for all keys and values.\<close>

interpretation dashmap: keyed_store "\<lambda>i. i" "\<lambda>_ _. True" dm_ok dm_get dm_insert dm_remove UNIV
  by unfold_locales auto

end
