(* ===== verification/SessionFiles.thy ===== *)
theory SessionFiles
  imports Fs Interfaces
begin

text \<open>
  What the two per-session stores (\<open>SequenceStore\<close>, \<open>SubdomainStore\<close>) share: the allowlist of
  file name characters, the replacement of one file in a directory, and the facts that make
  such a directory a keyed store.
\<close>

datatype store_error = StoreIo io_error | NoParent | NoFileName

definition safe_char :: "char \<Rightarrow> bool" where
  "safe_char c \<longleftrightarrow> is_ascii_alphanumeric c \<or> c = CHR ''-'' \<or> c = CHR ''_''"

definition sanitise :: "string \<Rightarrow> string" where
  "sanitise s = filter safe_char s"

text \<open>The session ids that name a file of their own.\<close>

definition named_ids :: "string set" where
  "named_ids = {sid. sanitise sid \<noteq> []}"

lemma sanitise_idem [simp]: "sanitise (sanitise s) = sanitise s"
  by (simp add: sanitise_def)

lemma sanitise_id: "list_all safe_char s \<Longrightarrow> sanitise s = s"
  by (simp add: sanitise_def list_all_iff)

lemma safe_char_neq:
  "safe_char c \<Longrightarrow> c \<noteq> CHR ''.'' \<and> c \<noteq> CHR ''/''"
  by (auto simp: safe_char_def is_ascii_alphanumeric_def is_digit_def less_eq_char_def)

lemma sanitise_no_dot: "CHR ''.'' \<notin> set (sanitise s)" and sanitise_no_slash: "CHR ''/'' \<notin> set (sanitise s)"
  by (auto simp: sanitise_def dest: safe_char_neq)

text \<open>
  \<open>atomic_write\<close> of \<open>persistence.rs\<close> and \<open>subdomain_store.rs\<close>: create the directory, then
  replace the file.
\<close>

definition dir_atomic_write :: "path \<Rightarrow> string \<Rightarrow> fs \<Rightarrow> (unit, store_error) result \<times> fs" where
  "dir_atomic_write p c s =
     (case path_parent p of
        None \<Rightarrow> (Err NoParent, s)
      | Some dir \<Rightarrow>
          (case sys_create_dir_all dir s of
             (Err e, s) \<Rightarrow> (Err (StoreIo e), s)
           | (Ok _, s) \<Rightarrow>
               (case file_name p of
                  None \<Rightarrow> (Err NoFileName, s)
                | Some _ \<Rightarrow>
                    (case write_tmp_and_rename p c s of
                       (r, s) \<Rightarrow> (map_err StoreIo r, s)))))"

section \<open>Directories in good order\<close>

definition dir_ok :: "path \<Rightarrow> fs \<Rightarrow> bool" where
  "dir_ok d s \<longleftrightarrow> faults s = [] \<and> dm_ok (nodes s)
     \<and> (\<forall>q \<in> set (prefixes d). fs_at s q = Some Dir) \<and> (\<forall>c. fs_at s (d @ [c]) \<noteq> Some Dir)"

lemma fs_at_fold_dirs:
  "dm_get (fold (\<lambda>q. dm_insert q Dir) ps m) q = (if q \<in> set ps then Some Dir else dm_get m q)"
  by (induction ps arbitrary: m) auto

lemma dm_ok_fold_dirs: "dm_ok m \<Longrightarrow> dm_ok (fold (\<lambda>q. dm_insert q Dir) ps m)"
  by (induction ps arbitrary: m) auto

lemma create_dir_all_noop:
  assumes "dir_ok d s"
  shows "\<exists>s'. sys_create_dir_all d s = (Ok (), s') \<and> faults s' = []
           \<and> (\<forall>q. fs_at s' q = fs_at s q) \<and> dm_ok (nodes s')"
proof -
  have "\<not> list_ex (\<lambda>q. case fs_at s q of Some (File _) \<Rightarrow> True | _ \<Rightarrow> False) (prefixes d)"
    using assms by (auto simp: dir_ok_def list_ex_iff)
  with assms show ?thesis
    by (auto simp: sys_create_dir_all_def next_fault_def dir_ok_def fs_at_fold_dirs dm_ok_fold_dirs)
qed

text \<open>No call leaves two entries for one path.\<close>

definition keeps_ok :: "(fs \<Rightarrow> 'r \<times> fs) \<Rightarrow> bool" where
  "keeps_ok m \<longleftrightarrow> (\<forall>s. dm_ok (nodes s) \<longrightarrow> dm_ok (nodes (snd (m s))))"

named_theorems keeps_ok_intros \<open>rules that show that a call keeps the paths distinct\<close>

lemma keeps_ok_sys [keeps_ok_intros]:
  "keeps_ok (sys_open_trunc p)" "keeps_ok (sys_write_all p c)" "keeps_ok sys_sync"
  "keeps_ok (sys_exists p)" "keeps_ok (sys_remove_file p)" "keeps_ok (sys_rename p q)"
  by (auto simp: keeps_ok_def sys_defs dest!: next_fault_nodes
      split: prod.splits fault.splits option.splits node.splits)

lemma keeps_okD: "keeps_ok m \<Longrightarrow> m s = (r, s') \<Longrightarrow> dm_ok (nodes s) \<Longrightarrow> dm_ok (nodes s')"
  unfolding keeps_ok_def by (metis snd_conv)

lemma keeps_ok_then_io [keeps_ok_intros]: "keeps_ok m \<Longrightarrow> keeps_ok k \<Longrightarrow> keeps_ok (then_io m k)"
  unfolding keeps_ok_def [of "then_io m k"] then_io_def
  by (auto split: prod.splits result.splits dest: keeps_okD [of m] keeps_okD [OF _ prod.collapse [symmetric], of k])

lemma keeps_ok_remove_if_exists [keeps_ok_intros]: "keeps_ok (remove_if_exists p)"
  unfolding keeps_ok_def remove_if_exists_def
  by (auto split: prod.splits bool.splits dest: keeps_okD [OF keeps_ok_sys(4)]
      keeps_okD [OF keeps_ok_sys(5) prod.collapse [symmetric]])

lemma keeps_ok_write [keeps_ok_intros]: "keeps_ok (write_tmp_and_rename p c)"
  unfolding write_tmp_and_rename_def by (intro keeps_ok_intros)

text \<open>Writing one file of a directory in good order: it succeeds and touches nothing else.\<close>

lemma tmp_path_snoc: "tmp_path (d @ [c]) = d @ [''.'' @ c @ ''.tmp'']"
  by (simp add: tmp_path_def)

lemma prefixes_neq_snoc: "q \<in> set (prefixes d) \<Longrightarrow> q \<noteq> d @ [c]"
  by (auto simp: prefix_def)

lemma dir_atomic_write_ok:
  assumes d: "dir_ok d s"
  obtains s' where "dir_atomic_write (d @ [c]) v s = (Ok (), s')" and "dir_ok d s'"
    and "fs_at s' (d @ [c]) = Some (File v)"
    and "\<And>q. q \<noteq> d @ [c] \<Longrightarrow> q \<noteq> tmp_path (d @ [c]) \<Longrightarrow> fs_at s' q = fs_at s q"
proof -
  let ?p = "d @ [c]"
  obtain s1 where s1: "sys_create_dir_all d s = (Ok (), s1)" "faults s1 = []"
    "\<And>q. fs_at s1 q = fs_at s q" "dm_ok (nodes s1)"
    using create_dir_all_noop [OF d] by auto
  have dirs: "\<And>q. q \<in> set (prefixes d) \<Longrightarrow> fs_at s1 q = Some Dir" "\<And>x. fs_at s1 (d @ [x]) \<noteq> Some Dir"
    using d s1(3) by (auto simp: dir_ok_def)
  have "\<exists>s'. write_tmp_and_rename ?p v s1 = (Ok (), s') \<and> faults s' = []"
    using s1 dirs by (intro write_tmp_and_rename_succeeds) (auto simp: tmp_path_snoc)
  then obtain s' where s': "write_tmp_and_rename ?p v s1 = (Ok (), s')" "faults s' = []" by auto
  have at: "fs_at s' ?p = Some (File v) \<and> fs_at s' (tmp_path ?p) = None"
    using triple_Ok [OF write_tmp_and_rename_triple [of ?p] _ s'(1)] by simp
  have frame: "fs_at s' q = fs_at s q" if "q \<noteq> ?p" "q \<noteq> tmp_path ?p" for q
    using keepsD [OF keeps_write_tmp_and_rename [of ?p "{?p, tmp_path ?p}"] s'(1)] that s1(3) by simp
  have "dir_ok d s'"
    unfolding dir_ok_def
  proof (intro conjI ballI allI)
    show "faults s' = []" by (rule s'(2))
    show "dm_ok (nodes s')" by (rule keeps_okD [OF keeps_ok_write s'(1) s1(4)])
    fix q assume q: "q \<in> set (prefixes d)"
    then have "fs_at s' q = fs_at s q"
      by (intro frame) (auto simp: tmp_path_snoc dest: prefixes_neq_snoc)
    then show "fs_at s' q = Some Dir" using d q by (simp add: dir_ok_def)
  next
    fix x show "fs_at s' (d @ [x]) \<noteq> Some Dir"
      using at frame [of "d @ [x]"] d
      by (cases "d @ [x] = ?p"; cases "d @ [x] = tmp_path ?p") (auto simp: dir_ok_def)
  qed
  moreover have "dir_atomic_write ?p v s = (Ok (), s')"
    by (simp add: dir_atomic_write_def path_parent_def file_name_def s1(1) s'(1))
  ultimately show thesis using that at frame by blast
qed

text \<open>
  The crash outcome of one save: the previous contents are there or the file is missing, never a
  part of the new contents.
\<close>

lemma dir_atomic_write_err:
  assumes "dir_atomic_write (d @ [c]) v s = (Err e, s')" and "fs_at s (d @ [c]) = Some (File u)"
  shows "old_or_gone (d @ [c]) (Some (File u)) s'"
proof -
  have keep: "fs_at s1 (d @ [c]) = Some (File u)" if "sys_create_dir_all d s = (r, s1)" for s1 r
    using that assms(2)
    by (auto simp: sys_create_dir_all_def fs_at_fold_dirs dest!: next_fault_nodes
        split: prod.splits fault.splits if_splits)
  obtain r s1 where c: "sys_create_dir_all d s = (r, s1)" by force
  show ?thesis
  proof (cases r)
    case (Err x)
    with assms(1) c keep [OF c] show ?thesis
      by (auto simp: dir_atomic_write_def path_parent_def old_or_gone_def)
  next
    case (Ok u')
    with assms(1) c obtain e' where "write_tmp_and_rename (d @ [c]) v s1 = (Err e', s')"
      by (cases "fst (write_tmp_and_rename (d @ [c]) v s1)")
        (auto simp: dir_atomic_write_def path_parent_def file_name_def split: prod.splits)
    then show ?thesis
      by (rule triple_Err [OF write_tmp_and_rename_triple, rotated 2]) (auto simp: keep [OF c])
  qed
qed

text \<open>Whatever the faults, one save touches the directory, its ancestors, the file and its
  temporary file.\<close>

lemma keeps_dir_atomic_write [keeps_intros]:
  assumes "p \<noteq> []" and "set (prefixes (butlast p)) \<subseteq> A" and "p \<in> A" and "tmp_path p \<in> A"
  shows "keeps A (dir_atomic_write p c)"
  unfolding keeps_def
proof (intro allI impI)
  fix s q assume q: "q \<notin> A"
  obtain r s1 where c: "sys_create_dir_all (butlast p) s = (r, s1)" by force
  have 1: "fs_at s1 q = fs_at s q"
    using c q assms(2)
    by (auto simp: sys_create_dir_all_def fs_at_fold_dirs subset_iff dest!: next_fault_nodes
        split: prod.splits fault.splits if_splits)
  obtain r' s' where w: "write_tmp_and_rename p c s1 = (r', s')" by force
  have "fs_at s' q = fs_at s1 q"
    using keepsD [OF keeps_write_tmp_and_rename w] assms q by blast
  with 1 show "fs_at (snd (dir_atomic_write p c s)) q = fs_at s q"
    by (cases r) (auto simp: dir_atomic_write_def path_parent_def file_name_def assms(1) c w)
qed

section \<open>Removing one file\<close>

text \<open>The common body of the two \<open>remove\<close> functions: a missing file is a success.\<close>

definition dir_remove :: "path \<Rightarrow> fs \<Rightarrow> (unit, store_error) result \<times> fs" where
  "dir_remove p s =
     (case sys_remove_file p s of
        (Ok _, s) \<Rightarrow> (Ok (), s)
      | (Err NotFound, s) \<Rightarrow> (Ok (), s)
      | (Err e, s) \<Rightarrow> (Err (StoreIo e), s))"

lemma dir_remove_ok:
  assumes d: "dir_ok d s"
  obtains s' where "dir_remove (d @ [c]) s = (Ok (), s')" and "dir_ok d s'"
    and "fs_at s' (d @ [c]) = None" and "\<And>q. q \<noteq> d @ [c] \<Longrightarrow> fs_at s' q = fs_at s q"
proof (cases "fs_at s (d @ [c])")
  case None
  with d have "dir_remove (d @ [c]) s = (Ok (), s)"
    by (auto simp: dir_remove_def dir_ok_def sys_remove_file_def next_fault_def)
  with None d that show thesis by blast
next
  case (Some n)
  with d obtain u where u: "n = File u" by (cases n) (auto simp: dir_ok_def)
  let ?s = "s\<lparr>nodes := dm_remove (d @ [c]) (nodes s)\<rparr>"
  have r: "dir_remove (d @ [c]) s = (Ok (), ?s)"
    using d Some u by (auto simp: dir_remove_def dir_ok_def sys_remove_file_def next_fault_def)
  have "dir_ok d ?s"
    using d unfolding dir_ok_def by (auto dest: prefixes_neq_snoc)
  with r that show thesis by simp
qed

section \<open>Reading a directory\<close>

text \<open>
  The loop of the two \<open>load_all\<close> functions: every entry with a name is read, an unreadable or
  unparsable one is skipped.
\<close>

fun load_entries ::
  "path \<Rightarrow> (string \<Rightarrow> 'v option) \<Rightarrow> string list \<Rightarrow> (string, 'v) dashmap \<Rightarrow> fs
   \<Rightarrow> (string, 'v) dashmap \<times> fs" where
  "load_entries d dec [] out s = (out, s)"
| "load_entries d dec (n # ns) out s =
     (if n = [] then load_entries d dec ns out s
      else (case sys_read_to_string (d @ [n]) s of
              (Err _, s) \<Rightarrow> load_entries d dec ns out s
            | (Ok c, s) \<Rightarrow>
                (case dec c of
                   None \<Rightarrow> load_entries d dec ns out s
                 | Some v \<Rightarrow> load_entries d dec ns (dm_insert n v out) s)))"

definition load_dir ::
  "path \<Rightarrow> (string \<Rightarrow> 'v option) \<Rightarrow> fs \<Rightarrow> ((string, 'v) dashmap, store_error) result \<times> fs" where
  "load_dir d dec s =
     (case sys_exists d s of
        (ex, s) \<Rightarrow>
          if \<not> ex then (Ok [], s)
          else (case sys_read_dir d s of
             (Err e, s) \<Rightarrow> (Err (StoreIo e), s)
           | (Ok names, s) \<Rightarrow>
               (case load_entries d dec names [] s of (out, s) \<Rightarrow> (Ok out, s))))"

text \<open>The value that a file of a directory stands for.\<close>

definition file_value :: "(string \<Rightarrow> 'v option) \<Rightarrow> fs \<Rightarrow> path \<Rightarrow> 'v option" where
  "file_value dec s p =
     (case fs_at s p of Some (File c) \<Rightarrow> (if utf8_valid c then dec c else None) | _ \<Rightarrow> None)"

lemma load_entries_spec:
  assumes "faults s = []"
  shows "\<exists>out'. load_entries d dec ns out s = (out', s)
     \<and> (\<forall>k. dm_get out' k = (if k \<in> set ns \<and> k \<noteq> [] \<and> file_value dec s (d @ [k]) \<noteq> None
                               then file_value dec s (d @ [k]) else dm_get out k))"
  using assms
proof (induction ns arbitrary: out)
  case Nil
  then show ?case by simp
next
  case (Cons n ns)
  have rd: "sys_read_to_string (d @ [n]) s =
      ((case fs_at s (d @ [n]) of None \<Rightarrow> Err NotFound | Some Dir \<Rightarrow> Err OtherIo
        | Some (File c) \<Rightarrow> if utf8_valid c then Ok c else Err OtherIo), s)"
    using Cons.prems by (auto simp: sys_read_to_string_def next_fault_def split: option.splits node.splits)
  show ?case
  proof (cases "n \<noteq> [] \<and> file_value dec s (d @ [n]) \<noteq> None")
    case False
    then have "load_entries d dec (n # ns) out s = load_entries d dec ns out s"
      by (auto simp: rd file_value_def split: option.splits node.splits)
    moreover obtain out' where "load_entries d dec ns out s = (out', s)"
      "\<And>k. dm_get out' k = (if k \<in> set ns \<and> k \<noteq> [] \<and> file_value dec s (d @ [k]) \<noteq> None
                                then file_value dec s (d @ [k]) else dm_get out k)"
      using Cons.IH [of out] Cons.prems by auto
    ultimately show ?thesis using False by (intro exI [of _ out']) (auto simp del: load_entries.simps)
  next
    case True
    then obtain v where v: "file_value dec s (d @ [n]) = Some v" by auto
    with True have "load_entries d dec (n # ns) out s = load_entries d dec ns (dm_insert n v out) s"
      by (auto simp: rd file_value_def split: option.splits node.splits if_splits)
    with Cons.IH [of "dm_insert n v out"] Cons.prems True v show ?thesis by auto
  qed
qed

lemma read_dir_names:
  assumes "dir_ok d s"
  obtains ns where "sys_read_dir d s = (Ok ns, s)" and "\<And>k. fs_at s (d @ [k]) \<noteq> None \<Longrightarrow> k \<in> set ns"
proof -
  let ?ns = "map (\<lambda>(q, _). last q) (filter (\<lambda>(q, _). q \<noteq> [] \<and> butlast q = d) (nodes s))"
  have "sys_read_dir d s = (Ok ?ns, s)"
    using assms by (auto simp: sys_read_dir_def next_fault_def dir_ok_def)
  moreover have "k \<in> set ?ns" if "fs_at s (d @ [k]) \<noteq> None" for k
  proof -
    from that obtain n where "fs_at s (d @ [k]) = Some n" by auto
    then have "(d @ [k], n) \<in> set (nodes s)" by (rule map_of_SomeD)
    then show ?thesis by force
  qed
  ultimately show thesis using that by blast
qed

lemma load_dir_spec:
  assumes "dir_ok d s"
  obtains out where "load_dir d dec s = (Ok out, s)"
    and "\<And>k. dm_get out k = (if k \<noteq> [] then file_value dec s (d @ [k]) else None)"
proof -
  obtain ns where rd: "sys_read_dir d s = (Ok ns, s)"
    and mem: "\<And>k. fs_at s (d @ [k]) \<noteq> None \<Longrightarrow> k \<in> set ns"
    using read_dir_names [OF assms] by blast
  have f: "faults s = []" and ex: "sys_exists d s = (True, s)"
    using assms by (auto simp: dir_ok_def sys_exists_def next_fault_def)
  obtain out where out: "load_entries d dec ns [] s = (out, s)"
    and get: "\<And>k. dm_get out k = (if k \<in> set ns \<and> k \<noteq> [] \<and> file_value dec s (d @ [k]) \<noteq> None
                                 then file_value dec s (d @ [k]) else None)"
    using load_entries_spec [OF f, of d dec ns "[]"] by auto
  have "dm_get out k = (if k \<noteq> [] then file_value dec s (d @ [k]) else None)" for k
    using mem [of k] get [of k] by (cases "fs_at s (d @ [k])") (auto simp: file_value_def)
  moreover have "load_dir d dec s = (Ok out, s)"
    using out by (simp add: load_dir_def ex rd)
  ultimately show thesis using that by blast
qed

end
