(* ===== verification/SequenceStore.thy ===== *)
theory SequenceStore
  imports SessionFiles
begin

text \<open>
  \<open>edge-bandwidth/src/persistence.rs\<close>: the bandwidth sequence counter of a session in the file
  \<open><base>/seq/<sanitised session id>\<close> as ASCII decimal.
\<close>

definition seq_dir :: "path \<Rightarrow> path" where
  "seq_dir base = path_join base ''seq''"

definition seq_session_path :: "path \<Rightarrow> string \<Rightarrow> path" where
  "seq_session_path base sid = path_join (path_join base ''seq'') (sanitise sid)"

definition seq_ensure_dir :: "path \<Rightarrow> fs \<Rightarrow> (unit, store_error) result \<times> fs" where
  "seq_ensure_dir base s = (case sys_create_dir_all (seq_dir base) s of (r, s) \<Rightarrow> (map_err StoreIo r, s))"

definition seq_save :: "path \<Rightarrow> string \<Rightarrow> u64 \<Rightarrow> fs \<Rightarrow> (unit, store_error) result \<times> fs" where
  "seq_save base sid n = dir_atomic_write (seq_session_path base sid) (to_dec (unat n))"

definition parse_u64 :: "string \<Rightarrow> u64 option" where
  "parse_u64 c = map_option word_of_nat (parse_uint (2 ^ 64 - 1) (trim c))"

definition seq_load :: "path \<Rightarrow> string \<Rightarrow> fs \<Rightarrow> (u64 option, store_error) result \<times> fs" where
  "seq_load base sid s =
     (case sys_read_to_string (seq_session_path base sid) s of
        (Ok c, s) \<Rightarrow> (Ok (parse_u64 c), s)
      | (Err NotFound, s) \<Rightarrow> (Ok None, s)
      | (Err e, s) \<Rightarrow> (Err (StoreIo e), s))"

definition seq_remove :: "path \<Rightarrow> string \<Rightarrow> fs \<Rightarrow> (unit, store_error) result \<times> fs" where
  "seq_remove base sid = dir_remove (seq_session_path base sid)"

definition seq_load_all :: "path \<Rightarrow> fs \<Rightarrow> ((string, u64) dashmap, store_error) result \<times> fs" where
  "seq_load_all base = load_dir (seq_dir base) parse_u64"

section \<open>The store as a keyed store\<close>

text \<open>What a caller of \<open>load\<close> sees, and the effect of \<open>save\<close> and \<open>remove\<close> on the disk.\<close>

definition seq_lookup :: "path \<Rightarrow> fs \<Rightarrow> string \<Rightarrow> u64 option" where
  "seq_lookup base s sid = (case fst (seq_load base sid s) of Ok r \<Rightarrow> r | Err _ \<Rightarrow> None)"

definition seq_put :: "path \<Rightarrow> string \<Rightarrow> u64 \<Rightarrow> fs \<Rightarrow> fs" where
  "seq_put base sid n s = snd (seq_save base sid n s)"

definition seq_del :: "path \<Rightarrow> string \<Rightarrow> fs \<Rightarrow> fs" where
  "seq_del base sid s = snd (seq_remove base sid s)"

lemma parse_u64_to_dec [simp]: "parse_u64 (to_dec (unat n)) = Some n"
proof -
  have "unat n < 2 ^ 64" using unsigned_less [of n] by simp
  then have "unat n \<le> 2 ^ 64 - 1" by simp
  then show ?thesis by (simp add: parse_u64_def parse_uint_to_dec)
qed

lemma seq_dir_snoc: "seq_dir base = base @ [''seq'']"
  by (simp add: seq_dir_def path_join_def)

lemma seq_session_path_snoc:
  "sid \<in> named_ids \<Longrightarrow> seq_session_path base sid = seq_dir base @ [sanitise sid]"
  by (simp add: seq_session_path_def seq_dir_def path_join_def named_ids_def)

lemma seq_lookup_file:
  assumes "dir_ok (seq_dir base) s" and "sid \<in> named_ids"
  shows "seq_lookup base s sid = file_value parse_u64 s (seq_dir base @ [sanitise sid])"
  using assms
  by (auto simp: seq_lookup_def seq_load_def file_value_def seq_session_path_snoc
      sys_read_to_string_def next_fault_def dir_ok_def split: option.splits node.splits)

lemma seq_save_ok:
  assumes "dir_ok (seq_dir base) s" and "sid \<in> named_ids"
  obtains s' where "seq_save base sid n s = (Ok (), s')" and "dir_ok (seq_dir base) s'"
    and "\<And>j. j \<in> named_ids \<Longrightarrow>
           seq_lookup base s' j = (if sanitise sid = sanitise j then Some n else seq_lookup base s j)"
proof -
  obtain s' where s': "dir_atomic_write (seq_dir base @ [sanitise sid]) (to_dec (unat n)) s = (Ok (), s')"
    "dir_ok (seq_dir base) s'" "fs_at s' (seq_dir base @ [sanitise sid]) = Some (File (to_dec (unat n)))"
    "\<And>q. q \<noteq> seq_dir base @ [sanitise sid] \<Longrightarrow> q \<noteq> tmp_path (seq_dir base @ [sanitise sid]) \<Longrightarrow>
       fs_at s' q = fs_at s q"
    using dir_atomic_write_ok [OF assms(1)] by metis
  have "seq_lookup base s' j = (if sanitise sid = sanitise j then Some n else seq_lookup base s j)"
    if j: "j \<in> named_ids" for j
  proof -
    have "sanitise j \<noteq> ''.'' @ sanitise sid @ ''.tmp''"
      using sanitise_no_dot [of j] by auto
    then show ?thesis
      using s'(3) s'(4) [of "seq_dir base @ [sanitise j]"] j s'(2) assms(1)
      by (auto simp: seq_lookup_file file_value_def tmp_path_snoc)
  qed
  with s'(1,2) assms(2) that show thesis
    by (auto simp: seq_save_def seq_session_path_snoc)
qed

lemma seq_remove_ok:
  assumes "dir_ok (seq_dir base) s" and "sid \<in> named_ids"
  obtains s' where "seq_remove base sid s = (Ok (), s')" and "dir_ok (seq_dir base) s'"
    and "\<And>j. j \<in> named_ids \<Longrightarrow>
           seq_lookup base s' j = (if sanitise sid = sanitise j then None else seq_lookup base s j)"
proof -
  obtain s' where s': "dir_remove (seq_dir base @ [sanitise sid]) s = (Ok (), s')"
    "dir_ok (seq_dir base) s'" "fs_at s' (seq_dir base @ [sanitise sid]) = None"
    "\<And>q. q \<noteq> seq_dir base @ [sanitise sid] \<Longrightarrow> fs_at s' q = fs_at s q"
    using dir_remove_ok [OF assms(1)] by metis
  have "seq_lookup base s' j = (if sanitise sid = sanitise j then None else seq_lookup base s j)"
    if j: "j \<in> named_ids" for j
    using s'(3) s'(4) [of "seq_dir base @ [sanitise j]"] j s'(2) assms(1)
    by (auto simp: seq_lookup_file file_value_def)
  with s'(1,2) assms(2) that show thesis
    by (auto simp: seq_remove_def seq_session_path_snoc)
qed

interpretation seq: keyed_store sanitise "\<lambda>sid _. sid \<in> named_ids" "\<lambda>s. dir_ok (seq_dir base) s"
  "seq_lookup base" "seq_put base" "seq_del base" named_ids for base
proof unfold_locales
  fix s :: fs and i j :: string and v :: u64
  show "dir_ok (seq_dir base) (seq_put base i v s)" if "dir_ok (seq_dir base) s" "i \<in> named_ids"
    using seq_save_ok [OF that] unfolding seq_put_def by (metis snd_conv)
  show "dir_ok (seq_dir base) (seq_del base i s)" if "dir_ok (seq_dir base) s" "i \<in> named_ids"
    using seq_remove_ok [OF that] unfolding seq_del_def by (metis snd_conv)
  show "seq_lookup base (seq_put base i v s) j =
          (if sanitise i = sanitise j then Some v else seq_lookup base s j)"
    if "dir_ok (seq_dir base) s" "i \<in> named_ids" "j \<in> named_ids"
    using seq_save_ok [OF that(1,2)] that(3) unfolding seq_put_def by (metis snd_conv)
  show "seq_lookup base (seq_del base i s) j =
          (if sanitise i = sanitise j then None else seq_lookup base s j)"
    if "dir_ok (seq_dir base) s" "i \<in> named_ids" "j \<in> named_ids"
    using seq_remove_ok [OF that(1,2)] that(3) unfolding seq_del_def by (metis snd_conv)
qed

text \<open>The reload at boot returns exactly what \<open>load\<close> returns for each file name.\<close>

lemma seq_load_all_lookup:
  assumes "dir_ok (seq_dir base) s"
  obtains out where "seq_load_all base s = (Ok out, s)"
    and "\<And>sid. sid \<in> named_ids \<Longrightarrow> dm_get out (sanitise sid) = seq_lookup base s sid"
proof -
  obtain out where "load_dir (seq_dir base) parse_u64 s = (Ok out, s)"
    "\<And>k. dm_get out k = (if k \<noteq> [] then file_value parse_u64 s (seq_dir base @ [k]) else None)"
    using load_dir_spec [OF assms] by blast
  with that show thesis
    using seq_lookup_file [OF assms] by (simp add: seq_load_all_def named_ids_def)
qed

section \<open>Properties\<close>

text \<open>Any sequence of saves and removals, and then a restart: what the reload at boot finds for a
  session is the value of its last save, or nothing when a removal came last. Sessions are
  distinguished by their sanitised ids.\<close>

lemma seq_restart_safe:
  assumes "dir_ok (seq_dir base) s" and "\<forall>sid \<in> named_ids. seq_lookup base s sid = m (sanitise sid)"
    and "\<forall>op \<in> set ops. op_id op \<in> named_ids"
  shows "\<exists>out s'. seq_load_all base (fold (run_op (seq_put base) (seq_del base)) ops s) = (Ok out, s')
    \<and> (\<forall>sid \<in> named_ids. dm_get out (sanitise sid) = fold (abs_op sanitise) ops m (sanitise sid))"
proof -
  have "seq.represents base s m"
    using assms(1,2) by (simp add: seq.represents_def)
  moreover have "\<forall>op \<in> set ops. seq.op_ok op"
    using assms(3) by (auto simp: seq.op_ok_def split: store_op.splits)
  ultimately have r: "seq.represents base (fold (run_op (seq_put base) (seq_del base)) ops s)
      (fold (abs_op sanitise) ops m)"
    by (rule seq.represents_run)
  then show ?thesis
    using seq_load_all_lookup [of base] unfolding seq.represents_def by metis
qed

definition empty_seq_fs :: fs where
  "empty_seq_fs = \<lparr>nodes = [([], Dir), ([''data''], Dir), ([''data'', ''seq''], Dir)], faults = []\<rparr>"

lemma empty_seq_fs_ok: "dir_ok (seq_dir [''data'']) empty_seq_fs"
  by (auto simp: dir_ok_def seq_dir_def path_join_def empty_seq_fs_def dm_ok_def)

lemma seq_restart_safe_witness:
  "\<exists>out s'. seq_load_all [''data''] (fold (run_op (seq_put [''data'']) (seq_del [''data'']))
       [Put ''s1'' 4, Put ''s2'' 9, Put ''s1'' 5, Del ''s2''] empty_seq_fs) = (Ok out, s')
     \<and> dm_get out ''s1'' = Some 5 \<and> dm_get out ''s2'' = None"
proof -
  have san: "sanitise ''s1'' = ''s1''" "sanitise ''s2'' = ''s2''"
    by (auto simp: sanitise_def safe_char_def is_ascii_alphanumeric_def is_digit_def less_eq_char_def)
  then have ids: "''s1'' \<in> named_ids" "''s2'' \<in> named_ids"
    by (auto simp: named_ids_def)
  have none: "\<forall>sid \<in> named_ids. seq_lookup [''data''] empty_seq_fs sid = (\<lambda>_. None) (sanitise sid)"
    by (simp add: seq_lookup_file [OF empty_seq_fs_ok])
      (simp add: empty_seq_fs_def seq_dir_def path_join_def file_value_def)
  from seq_restart_safe [OF empty_seq_fs_ok none, of "[Put ''s1'' 4, Put ''s2'' 9, Put ''s1'' 5, Del ''s2'']"]
  obtain out s' where l: "seq_load_all [''data''] (fold (run_op (seq_put [''data'']) (seq_del [''data'']))
       [Put ''s1'' 4, Put ''s2'' 9, Put ''s1'' 5, Del ''s2''] empty_seq_fs) = (Ok out, s')"
    and get: "\<forall>sid \<in> named_ids. dm_get out (sanitise sid) = fold (abs_op sanitise)
       [Put ''s1'' 4, Put ''s2'' 9, Put ''s1'' 5, Del ''s2''] (\<lambda>_. None) (sanitise sid)"
    using ids by auto
  from bspec [OF get ids(1)] bspec [OF get ids(2)] have "dm_get out ''s1'' = Some 5" "dm_get out ''s2'' = None"
    by (simp_all add: san abs_op_def)
  with l show ?thesis by blast
qed

end
