(* ===== verification/SubdomainStore.thy ===== *)
theory SubdomainStore
  imports SessionFiles
begin

text \<open>
  \<open>edge-control/src/subdomain_store.rs\<close>: the public host of a session in the file
  \<open><base>/subdomains/<sanitised session id>\<close>, reloaded at boot, and its relation to the map in
  memory that the tunnel routes keep beside it.
\<close>

definition sub_dir :: "path \<Rightarrow> path" where
  "sub_dir base = path_join base ''subdomains''"

definition sub_session_path :: "path \<Rightarrow> string \<Rightarrow> path" where
  "sub_session_path base sid = path_join (path_join base ''subdomains'') (sanitise sid)"

definition sub_ensure_dir :: "path \<Rightarrow> fs \<Rightarrow> (unit, store_error) result \<times> fs" where
  "sub_ensure_dir base s = (case sys_create_dir_all (sub_dir base) s of (r, s) \<Rightarrow> (map_err StoreIo r, s))"

text \<open>The file has its own copy of \<open>atomic_write\<close>: the same function as that of the sequence store.\<close>

definition sub_atomic_write :: "path \<Rightarrow> string \<Rightarrow> fs \<Rightarrow> (unit, store_error) result \<times> fs" where
  "sub_atomic_write p c s =
     (case path_parent p of
        None \<Rightarrow> (Err NoParent, s)
      | Some dir \<Rightarrow>
          (case sys_create_dir_all dir s of
             (Err e, s) \<Rightarrow> (Err (StoreIo e), s)
           | (Ok _, s) \<Rightarrow>
               (case file_name p of
                  None \<Rightarrow> (Err NoFileName, s)
                | Some _ \<Rightarrow>
                    (case write_tmp_and_rename p c s of
                       (r, s) \<Rightarrow> (map_err StoreIo r, s)))))"

lemma sub_atomic_write_same [simp]: "sub_atomic_write = dir_atomic_write"
  by (simp add: fun_eq_iff sub_atomic_write_def dir_atomic_write_def)

definition sub_save :: "path \<Rightarrow> string \<Rightarrow> string \<Rightarrow> fs \<Rightarrow> (unit, store_error) result \<times> fs" where
  "sub_save base sid v = sub_atomic_write (sub_session_path base sid) v"

definition sub_remove :: "path \<Rightarrow> string \<Rightarrow> fs \<Rightarrow> (unit, store_error) result \<times> fs" where
  "sub_remove base sid = dir_remove (sub_session_path base sid)"

definition parse_subdomain :: "string \<Rightarrow> string option" where
  "parse_subdomain c = (let t = trim c in if t = [] then None else Some t)"

definition sub_load_all :: "path \<Rightarrow> fs \<Rightarrow> ((string, string) dashmap, store_error) result \<times> fs" where
  "sub_load_all base = load_dir (sub_dir base) parse_subdomain"

section \<open>The store as a keyed store\<close>

text \<open>The hosts that a file can hold: not empty, no white space around them.\<close>

definition sub_valid :: "string \<Rightarrow> string \<Rightarrow> bool" where
  "sub_valid sid v \<longleftrightarrow> sid \<in> named_ids \<and> v \<noteq> [] \<and> trim v = v \<and> utf8_valid v"

text \<open>What a restart finds for a session, and the effect of the writes on the disk.\<close>

definition sub_lookup :: "path \<Rightarrow> fs \<Rightarrow> string \<Rightarrow> string option" where
  "sub_lookup base s sid =
     (case fst (sub_load_all base s) of Ok m \<Rightarrow> dm_get m (sanitise sid) | Err _ \<Rightarrow> None)"

definition sub_put :: "path \<Rightarrow> string \<Rightarrow> string \<Rightarrow> fs \<Rightarrow> fs" where
  "sub_put base sid v s = snd (sub_save base sid v s)"

definition sub_del :: "path \<Rightarrow> string \<Rightarrow> fs \<Rightarrow> fs" where
  "sub_del base sid s = snd (sub_remove base sid s)"

lemma sub_session_path_snoc:
  "sid \<in> named_ids \<Longrightarrow> sub_session_path base sid = sub_dir base @ [sanitise sid]"
  by (simp add: sub_session_path_def sub_dir_def path_join_def named_ids_def)

lemma sub_lookup_file:
  assumes "dir_ok (sub_dir base) s" and "sid \<in> named_ids"
  shows "sub_lookup base s sid = file_value parse_subdomain s (sub_dir base @ [sanitise sid])"
  using assms load_dir_spec [OF assms(1), of parse_subdomain]
  by (metis (mono_tags, lifting) fst_conv mem_Collect_eq named_ids_def result.simps(5) sub_load_all_def
      sub_lookup_def)

lemma sub_save_ok:
  assumes "dir_ok (sub_dir base) s" and "sub_valid sid v"
  obtains s' where "sub_save base sid v s = (Ok (), s')" and "dir_ok (sub_dir base) s'"
    and "\<And>j. j \<in> named_ids \<Longrightarrow>
           sub_lookup base s' j = (if sanitise sid = sanitise j then Some v else sub_lookup base s j)"
proof -
  have sid: "sid \<in> named_ids" and v: "parse_subdomain v = Some v" "utf8_valid v"
    using assms(2) by (auto simp: sub_valid_def parse_subdomain_def)
  obtain s' where s': "dir_atomic_write (sub_dir base @ [sanitise sid]) v s = (Ok (), s')"
    "dir_ok (sub_dir base) s'" "fs_at s' (sub_dir base @ [sanitise sid]) = Some (File v)"
    "\<And>q. q \<noteq> sub_dir base @ [sanitise sid] \<Longrightarrow> q \<noteq> tmp_path (sub_dir base @ [sanitise sid]) \<Longrightarrow>
       fs_at s' q = fs_at s q"
    using dir_atomic_write_ok [OF assms(1)] by metis
  have "sub_lookup base s' j = (if sanitise sid = sanitise j then Some v else sub_lookup base s j)"
    if j: "j \<in> named_ids" for j
  proof -
    have "sanitise j \<noteq> ''.'' @ sanitise sid @ ''.tmp''"
      using sanitise_no_dot [of j] by auto
    then show ?thesis
      using s'(3) s'(4) [of "sub_dir base @ [sanitise j]"] j s'(2) assms(1) v
      by (auto simp: sub_lookup_file file_value_def tmp_path_snoc)
  qed
  with s'(1,2) sid that show thesis
    by (auto simp: sub_save_def sub_session_path_snoc)
qed

lemma sub_remove_ok:
  assumes "dir_ok (sub_dir base) s" and "sid \<in> named_ids"
  obtains s' where "sub_remove base sid s = (Ok (), s')" and "dir_ok (sub_dir base) s'"
    and "\<And>j. j \<in> named_ids \<Longrightarrow>
           sub_lookup base s' j = (if sanitise sid = sanitise j then None else sub_lookup base s j)"
proof -
  obtain s' where s': "dir_remove (sub_dir base @ [sanitise sid]) s = (Ok (), s')"
    "dir_ok (sub_dir base) s'" "fs_at s' (sub_dir base @ [sanitise sid]) = None"
    "\<And>q. q \<noteq> sub_dir base @ [sanitise sid] \<Longrightarrow> fs_at s' q = fs_at s q"
    using dir_remove_ok [OF assms(1)] by metis
  have "sub_lookup base s' j = (if sanitise sid = sanitise j then None else sub_lookup base s j)"
    if j: "j \<in> named_ids" for j
    using s'(3) s'(4) [of "sub_dir base @ [sanitise j]"] j s'(2) assms(1)
    by (auto simp: sub_lookup_file file_value_def)
  with s'(1,2) assms(2) that show thesis
    by (auto simp: sub_remove_def sub_session_path_snoc)
qed

interpretation sub: keyed_store sanitise sub_valid "\<lambda>s. dir_ok (sub_dir base) s"
  "sub_lookup base" "sub_put base" "sub_del base" named_ids for base
proof unfold_locales
  fix s :: fs and i j v :: string
  show "i \<in> named_ids" if "sub_valid i v" using that by (simp add: sub_valid_def)
  show "dir_ok (sub_dir base) (sub_put base i v s)" if "dir_ok (sub_dir base) s" "sub_valid i v"
    using sub_save_ok [OF that] unfolding sub_put_def by (metis snd_conv)
  show "dir_ok (sub_dir base) (sub_del base i s)" if "dir_ok (sub_dir base) s" "i \<in> named_ids"
    using sub_remove_ok [OF that] unfolding sub_del_def by (metis snd_conv)
  show "sub_lookup base (sub_put base i v s) j =
          (if sanitise i = sanitise j then Some v else sub_lookup base s j)"
    if "dir_ok (sub_dir base) s" "sub_valid i v" "j \<in> named_ids"
    using sub_save_ok [OF that(1,2)] that(3) unfolding sub_put_def by (metis snd_conv)
  show "sub_lookup base (sub_del base i s) j =
          (if sanitise i = sanitise j then None else sub_lookup base s j)"
    if "dir_ok (sub_dir base) s" "i \<in> named_ids" "j \<in> named_ids"
    using sub_remove_ok [OF that(1,2)] that(3) unfolding sub_del_def by (metis snd_conv)
qed

text \<open>The map in memory and the directory, as the tunnel routes write them together.\<close>

interpretation subdomains: mirrored_store sanitise "\<lambda>_ _. True" dm_ok dm_get dm_insert dm_remove UNIV
  sub_valid "\<lambda>s. dir_ok (sub_dir base) s" "sub_lookup base" "sub_put base" "sub_del base" named_ids
  for base
  by unfold_locales auto

section \<open>Properties\<close>


definition empty_sub_fs :: fs where
  "empty_sub_fs = \<lparr>nodes = [([], Dir), ([''data''], Dir), ([''data'', ''subdomains''], Dir)], faults = []\<rparr>"

lemma empty_sub_fs_ok: "dir_ok (sub_dir [''data'']) empty_sub_fs"
  by (auto simp: dir_ok_def sub_dir_def path_join_def empty_sub_fs_def dm_ok_def)

lemma sub_lookup_empty: "sid \<in> named_ids \<Longrightarrow> sub_lookup [''data''] empty_sub_fs sid = None"
  by (simp add: sub_lookup_file [OF empty_sub_fs_ok])
    (simp add: empty_sub_fs_def sub_dir_def path_join_def file_value_def)


text \<open>A save that fails at any of its system calls, or that a crash cuts off, never leaves a partial
  value: the file of the session holds its previous contents or is missing.\<close>

lemma sub_save_crash_outcome:
  assumes "sid \<in> named_ids" and "fs_at s (sub_session_path base sid) = Some (File old)"
    and "sub_save base sid v s = (Err e, s')"
  shows "fs_at s' (sub_session_path base sid) = Some (File old) \<or> fs_at s' (sub_session_path base sid) = None"
  using dir_atomic_write_err [of "sub_dir base" "sanitise sid" v s e s' old] assms
  by (simp add: sub_session_path_snoc sub_save_def old_or_gone_def)

text \<open>The window of the code: after the target is removed the rename can still fail.\<close>

definition crashing_fs :: fs where
  "crashing_fs = \<lparr>nodes = [([], Dir), ([''data''], Dir), ([''data'', ''subdomains''], Dir),
       ([''data'', ''subdomains'', ''s1''], File ''a.dun'')],
     faults = [Fine, Fine, Fine, Fine, Fine, Fine, Fine, Fails 0]\<rparr>"

lemma sub_save_crash_outcome_witness:
  "\<exists>s'. sub_save [''data''] ''s1'' ''b.dun'' crashing_fs = (Err (StoreIo OtherIo), s')
     \<and> fs_at s' [''data'', ''subdomains'', ''s1''] = None
     \<and> (fs_at s' [''data'', ''subdomains'', ''s1''] = Some (File ''a.dun'')
        \<or> fs_at s' [''data'', ''subdomains'', ''s1''] = None)"
proof -
  have san: "sanitise ''s1'' = ''s1''"
    by (simp add: sanitise_def safe_char_def is_ascii_alphanumeric_def is_digit_def less_eq_char_def)
  then have p: "sub_session_path [''data''] ''s1'' = [''data'', ''subdomains'', ''s1'']"
    by (simp add: sub_session_path_def path_join_def)
  obtain s' where s': "sub_save [''data''] ''s1'' ''b.dun'' crashing_fs = (Err (StoreIo OtherIo), s')"
    "fs_at s' [''data'', ''subdomains'', ''s1''] = None"
    by (simp add: sub_save_def p dir_atomic_write_def path_parent_def file_name_def crashing_fs_def
        fs_defs write_tmp_and_rename_def then_io_def remove_if_exists_def tmp_path_def)
  moreover have "fs_at crashing_fs (sub_session_path [''data''] ''s1'') = Some (File ''a.dun'')"
    by (simp add: p crashing_fs_def)
  ultimately show ?thesis
    using sub_save_crash_outcome [of "''s1''" crashing_fs "[''data'']" "''a.dun''"] san p
    by (auto simp: named_ids_def)
qed

text \<open>No session id reaches outside the store: whatever the id and the faults, a save changes only
  the store's directory (and the directories above it, which it creates), and the entries
  directly inside it, whose names are a sanitised id without dots or slashes or the temporary
  name of one; an id that sanitises to nothing can only touch the directory's own temporary
  name.\<close>

lemma sub_save_confined:
  "{q. fs_at (snd (sub_save base sid v s)) q \<noteq> fs_at s q} \<subseteq>
     set (prefixes (sub_dir base))
     \<union> {sub_dir base @ [n] | n. n \<in> {sanitise sid, ''.'' @ sanitise sid @ ''.tmp''}}
     \<union> {base @ [''.subdomains.tmp'']}
   \<and> set (sanitise sid) \<inter> {CHR ''.'', CHR ''/''} = {}"
proof (cases "sid \<in> named_ids")
  case True
  let ?p = "sub_dir base @ [sanitise sid]"
  have "keeps (set (prefixes (sub_dir base)) \<union> {?p, tmp_path ?p}) (sub_save base sid v)"
    using True by (simp add: sub_save_def sub_session_path_snoc) (intro keeps_intros, auto)
  then have "fs_at (snd (sub_save base sid v s)) q = fs_at s q"
    if "q \<notin> set (prefixes (sub_dir base)) \<union> {?p, tmp_path ?p}" for q
    using that by (simp add: keeps_def)
  moreover have "set (sanitise sid) \<inter> {CHR ''.'', CHR ''/''} = {}"
    using sanitise_no_dot sanitise_no_slash by auto
  ultimately show ?thesis by (simp add: tmp_path_snoc subset_iff) blast
next
  case False
  let ?p = "base @ [''subdomains'']"
  have "keeps (set (prefixes base) \<union> {?p, tmp_path ?p}) (sub_save base sid v)"
    using False
    by (simp add: sub_save_def sub_session_path_def path_join_def named_ids_def)
      (intro keeps_intros, auto)
  then have "fs_at (snd (sub_save base sid v s)) q = fs_at s q"
    if "q \<notin> set (prefixes base) \<union> {?p, tmp_path ?p}" for q
    using that by (simp add: keeps_def)
  moreover have "set (sanitise sid) \<inter> {CHR ''.'', CHR ''/''} = {}"
    using sanitise_no_dot sanitise_no_slash by auto
  ultimately show ?thesis
    by (auto simp: tmp_path_snoc sub_dir_def path_join_def)
qed

end
