(* ===== verification/SharedTypes.thy ===== *)
theory SharedTypes
  imports RustStr
begin

text \<open>
  \<open>edge-shared/src/errors.rs\<close> and \<open>edge-shared/src/types.rs\<close>: the error type of the edge crates,
  the records exchanged with dun-api, and the JSON wire format of the callback events. A date is
  its number of milliseconds; its text form is chrono's, a parameter.
\<close>

section \<open>Errors\<close>

datatype edge_error =
    SessionNotFound string
  | InvalidToken string
  | TokenRevoked string
  | RegionMismatch string string
  | ViewerCapReached string
  | PortPoolExhausted
  | UpstreamUnreachable string
  | Config string
  | Io
  | Serde
  | Other string

type_synonym 'a edge_result = "('a, edge_error) result"

section \<open>Requests, responses and services\<close>

type_synonym session_id = string
type_synonym date = int

record media_codec =
  mc_kind :: string
  mc_mime_type :: string
  mc_clock_rate :: u32
  mc_channels :: "u32 option"

record create_session_req =
  req_session_id :: session_id
  req_subdomain :: string
  req_tunnel_token_hash :: string
  req_tunnel_token :: string
  req_viewer_token_hash :: string
  req_codecs :: "media_codec list"
  req_expires_at :: date

record create_session_resp =
  resp_router_id :: string
  resp_producer_transport_encrypted :: string
  resp_consumer_template_encrypted :: string
  resp_local_upstream_port :: u16
  resp_media_rtp_port :: "u16 option"
  resp_media_payload_type :: "u8 option"
  resp_media_ssrc :: "u32 option"
  resp_media_lan_host :: "string option"

record route_entry =
  re_session_id :: session_id
  re_subdomain :: string
  re_upstream_port :: u16

record router_entry =
  rte_session_id :: session_id
  rte_router_id :: string
  rte_viewer_count :: u32

record tunnel_entry =
  te_session_id :: session_id
  te_connected :: bool
  te_last_seen_at :: date

record state_snapshot =
  ss_region :: string
  ss_captured_at :: date
  ss_routes :: "route_entry list"
  ss_routers :: "router_entry list"
  ss_tunnels :: "tunnel_entry list"

record caddy_route =
  cr_host :: string
  cr_upstream :: string
  cr_ws_paths :: "string list"

datatype rathole_transport = Tcp | Udp

record rathole_service =
  rs_name :: string
  rs_token_hash :: string
  rs_bind_addr :: string
  rs_transport :: "rathole_transport option"

record health_response =
  hr_region :: string
  hr_uptime_secs :: u64
  hr_active_sessions :: u32

section \<open>Callback events\<close>

text \<open>\<open>f64\<close> and \<open>f32\<close> fields hold the rational value of the float.\<close>

datatype edge_callback_event =
    TunnelConnected session_id string string
  | TunnelDisconnected session_id "string option"
  | ViewerConnected session_id "string option" "string option" "string option"
  | ViewerDisconnected session_id "string option"
  | BandwidthDelta session_id rat "date option" "date option" u64
  | SessionSnapshot session_id u32
  | RegionMetrics string rat u32 rat

section \<open>JSON\<close>

text \<open>
  \<open>serde_json::Value\<close>; an object is a \<open>BTreeMap\<close>, a list sorted by key. \<open>mk_obj\<close> collects
  the entries, the later of two with one key winning.
\<close>

datatype json =
    JNull | JBool bool | JInt int | JFloat rat | JStr string | JArr "json list"
  | JObj "(string \<times> json) list"

fun ins_key :: "string \<Rightarrow> 'v \<Rightarrow> (string \<times> 'v) list \<Rightarrow> (string \<times> 'v) list" where
  "ins_key k v [] = [(k, v)]"
| "ins_key k v ((l, w) # r) =
     (if k < l then (k, v) # (l, w) # r else if k = l then (k, v) # r else (l, w) # ins_key k v r)"

definition btree :: "(string \<times> 'v) list \<Rightarrow> (string \<times> 'v) list" where
  "btree es = fold (\<lambda>(k, v). ins_key k v) es []"

definition mk_obj :: "(string \<times> json) list \<Rightarrow> json" where
  "mk_obj es = JObj (btree es)"

fun j_get :: "string \<Rightarrow> json \<Rightarrow> json option" where
  "j_get k (JObj es) = map_of es k"
| "j_get k _ = None"

fun j_str :: "json \<Rightarrow> string option" where
  "j_str (JStr s) = Some s"
| "j_str _ = None"

fun j_arr :: "json \<Rightarrow> json list option" where
  "j_arr (JArr a) = Some a"
| "j_arr _ = None"

definition bsorted :: "(string \<times> 'v) list \<Rightarrow> bool" where
  "bsorted es \<longleftrightarrow> sorted_wrt (<) (map fst es)"

lemma set_ins_key: "fst ` set (ins_key k v es) = insert k (fst ` set es)"
proof (induction es)
  case (Cons e es)
  obtain l w where "e = (l, w)" by force
  with Cons show ?case by (cases "k < l"; cases "k = l") auto
qed simp

lemma bsorted_Cons: "bsorted ((l, w) # es) \<longleftrightarrow> (\<forall>j \<in> fst ` set es. l < j) \<and> bsorted es"
  by (simp add: bsorted_def)

lemma bsorted_ins_key: "bsorted es \<Longrightarrow> bsorted (ins_key k v es)"
proof (induction es)
  case Nil
  show ?case by (simp add: bsorted_def)
next
  case (Cons e es)
  obtain l w where e: "e = (l, w)" by force
  from Cons have es: "\<forall>j \<in> fst ` set es. l < j" "bsorted es" "bsorted (ins_key k v es)"
    by (simp_all add: e bsorted_Cons)
  consider "k < l" | "k = l" | "l < k" by (rule linorder_cases)
  then show ?case
  proof cases
    case 1
    then have "\<forall>j \<in> fst ` set es. k < j" using es(1) by (meson order_less_trans)
    with 1 es show ?thesis by (simp add: e bsorted_Cons)
  next
    case 2
    with es show ?thesis by (simp add: e bsorted_Cons)
  next
    case 3
    then have "\<forall>j \<in> fst ` set (ins_key k v es). l < j"
      using es(1) by (simp add: set_ins_key)
    with 3 es show ?thesis by (simp add: e bsorted_Cons order_less_not_sym)
  qed
qed

lemma map_of_ins_key: "bsorted es \<Longrightarrow> map_of (ins_key k v es) l = (if k = l then Some v else map_of es l)"
  unfolding bsorted_def
proof (induction es)
  case (Cons e es)
  obtain a b where e: "e = (a, b)" by force
  from Cons.prems have "l \<notin> fst ` set es" if "l \<le> a" for l
    using that by (auto simp: e)
  then have "map_of es l = None" if "l \<le> a" for l
    using that by (simp add: map_of_eq_None_iff)
  with Cons show ?case by (auto simp: e)
qed simp

lemma bsorted_btree: "bsorted (btree es)"
proof -
  have "bsorted a \<Longrightarrow> bsorted (fold (\<lambda>(k, v). ins_key k v) es a)" for a
    by (induction es arbitrary: a) (auto simp: bsorted_ins_key)
  then show ?thesis by (simp add: btree_def bsorted_def)
qed

lemma map_of_btree: "map_of (btree es) k = map_of (rev es) k"
proof -
  have "bsorted a \<Longrightarrow> map_of (fold (\<lambda>(k, v). ins_key k v) es a) k = map_of (rev es @ a) k" for a
  proof (induction es arbitrary: a)
    case (Cons e es)
    obtain x y where e: "e = (x, y)" by force
    have "map_of (ins_key x y a) k = map_of ((x, y) # a) k"
      using map_of_ins_key [OF Cons.prems] by simp
    with Cons show ?case
      by (simp add: e bsorted_ins_key map_add_def split: option.splits)
  qed simp
  then show ?thesis by (simp add: btree_def bsorted_def)
qed

text \<open>Equal maps have equal sorted lists, so the order of the insertions does not matter.\<close>

lemma bsorted_eq: "bsorted xs \<Longrightarrow> bsorted ys \<Longrightarrow> map_of xs = map_of ys \<Longrightarrow> xs = ys"
proof (induction xs arbitrary: ys)
  case Nil
  then show ?case by (cases ys) (auto simp: fun_eq_iff split: if_splits)
next
  case (Cons x xs)
  obtain k v where x: "x = (k, v)" by force
  from Cons.prems(3) obtain y ys' where ys: "ys = y # ys'" by (cases ys) (auto simp: x fun_eq_iff split: if_splits)
  obtain l w where y: "y = (l, w)" by force
  have keys: "fst ` set (x # xs) = fst ` set ys"
    using Cons.prems(3) by (metis dom_map_of_conv_image_fst)
  have "insert k (fst ` set xs) = insert l (fst ` set ys')"
    using keys by (simp add: ys x y)
  then have "k = l"
    using Cons.prems(1,2) unfolding ys x y bsorted_Cons by (metis insertE insertI1 order_less_asym)
  moreover have "v = w" using fun_cong [OF Cons.prems(3), of k] \<open>k = l\<close> by (simp add: x ys y)
  moreover have "map_of xs = map_of ys'"
  proof
    fix j
    have "map_of xs k = None" "map_of ys' k = None"
      using Cons.prems(1,2) \<open>k = l\<close> unfolding ys x y bsorted_Cons map_of_eq_None_iff
      by (metis order_less_irrefl)+
    then show "map_of xs j = map_of ys' j"
      using fun_cong [OF Cons.prems(3), of j] \<open>k = l\<close> by (cases "j = k") (auto simp: x ys y)
  qed
  ultimately show ?case
    using Cons.IH [of ys'] Cons.prems(1,2) by (simp add: x ys y bsorted_def)
qed

lemma btree_cong: "map_of (rev es) = map_of (rev fs) \<Longrightarrow> btree es = btree fs"
  by (rule bsorted_eq) (auto simp: bsorted_btree map_of_btree fun_eq_iff)

lemma j_get_mk_obj [simp]: "j_get k (mk_obj es) = map_of (rev es) k"
  by (simp add: mk_obj_def map_of_btree)

section \<open>The wire format of the callback events\<close>

text \<open>
  serde's internally tagged form: the discriminator \<open>event\<close> in snake case, the fields in camel
  case, an absent option left out. \<open>fmt\<close> is chrono's text form of a date.
\<close>

definition opt_field :: "string \<Rightarrow> ('a \<Rightarrow> json) \<Rightarrow> 'a option \<Rightarrow> (string \<times> json) list" where
  "opt_field k f x = (case x of None \<Rightarrow> [] | Some v \<Rightarrow> [(k, f v)])"

fun event_tag :: "edge_callback_event \<Rightarrow> string" where
  "event_tag (TunnelConnected _ _ _) = ''tunnel_connected''"
| "event_tag (TunnelDisconnected _ _) = ''tunnel_disconnected''"
| "event_tag (ViewerConnected _ _ _ _) = ''viewer_connected''"
| "event_tag (ViewerDisconnected _ _) = ''viewer_disconnected''"
| "event_tag (BandwidthDelta _ _ _ _ _) = ''bandwidth_delta''"
| "event_tag (SessionSnapshot _ _) = ''session_snapshot''"
| "event_tag (RegionMetrics _ _ _ _) = ''region_metrics''"

fun event_fields :: "(date \<Rightarrow> string) \<Rightarrow> edge_callback_event \<Rightarrow> (string \<times> json) list" where
  "event_fields fmt (TunnelConnected sid r rid) =
     [(''sessionId'', JStr sid), (''region'', JStr r), (''sfuRouterId'', JStr rid)]"
| "event_fields fmt (TunnelDisconnected sid reason) =
     (''sessionId'', JStr sid) # opt_field ''reason'' JStr reason"
| "event_fields fmt (ViewerConnected sid fp ip ua) =
     (''sessionId'', JStr sid) # opt_field ''viewerFingerprint'' JStr fp @ opt_field ''ip'' JStr ip
       @ opt_field ''userAgent'' JStr ua"
| "event_fields fmt (ViewerDisconnected sid fp) =
     (''sessionId'', JStr sid) # opt_field ''viewerFingerprint'' JStr fp"
| "event_fields fmt (BandwidthDelta sid mb st en sq) =
     [(''sessionId'', JStr sid), (''deltaMb'', JFloat mb)]
       @ opt_field ''intervalStart'' (\<lambda>t. JStr (fmt t)) st
       @ opt_field ''intervalEnd'' (\<lambda>t. JStr (fmt t)) en @ [(''sequence'', JInt (uint sq))]"
| "event_fields fmt (SessionSnapshot sid n) =
     [(''sessionId'', JStr sid), (''activeConnections'', JInt (uint n))]"
| "event_fields fmt (RegionMetrics r cpu n bw) =
     [(''region'', JStr r), (''cpuPct'', JFloat cpu), (''activeSessions'', JInt (uint n)),
      (''bandwidthUtilizationPct'', JFloat bw)]"

definition event_json :: "(date \<Rightarrow> string) \<Rightarrow> edge_callback_event \<Rightarrow> json" where
  "event_json fmt ev = mk_obj ((''event'', JStr (event_tag ev)) # event_fields fmt ev)"

lemma opt_field_keys: "fst ` set (opt_field k f x) \<subseteq> {k}"
  by (auto simp: opt_field_def split: option.splits)

lemma map_of_opt_field [simp]:
  "map_of (rev (opt_field k f x)) l = (if k = l then map_option f x else None)"
  by (auto simp: opt_field_def split: option.splits)

lemma event_json_tag: "j_get ''event'' (event_json fmt ev) = Some (JStr (event_tag ev))"
  by (cases ev) (auto simp: event_json_def map_add_def)

lemma event_fields_eq:
  assumes "event_json fmt a = event_json fmt b"
  shows "map_of (rev (event_fields fmt a)) k = map_of (rev (event_fields fmt b)) k"
proof -
  have k: "map_of (rev (event_fields fmt ev)) ''event'' = None" for ev
    by (cases ev) (auto simp: map_add_def)
  have "j_get k (event_json fmt a) = j_get k (event_json fmt b)"
    using assms by simp
  with k show ?thesis
    using arg_cong [OF assms, of "j_get ''event''"]
    by (cases "k = ''event''") (auto simp: event_json_def map_add_def split: option.splits)
qed

text \<open>What a receiver finds under each key.\<close>

definition event_field :: "(date \<Rightarrow> string) \<Rightarrow> edge_callback_event \<Rightarrow> string \<Rightarrow> json option" where
  "event_field fmt ev k = map_of (rev (event_fields fmt ev)) k"

lemma event_field_simps:
  "event_field fmt (TunnelConnected sid r rid) ''sessionId'' = Some (JStr sid)"
  "event_field fmt (TunnelConnected sid r rid) ''region'' = Some (JStr r)"
  "event_field fmt (TunnelConnected sid r rid) ''sfuRouterId'' = Some (JStr rid)"
  "event_field fmt (TunnelDisconnected sid rs) ''sessionId'' = Some (JStr sid)"
  "event_field fmt (TunnelDisconnected sid rs) ''reason'' = map_option JStr rs"
  "event_field fmt (ViewerConnected sid fp ip ua) ''sessionId'' = Some (JStr sid)"
  "event_field fmt (ViewerConnected sid fp ip ua) ''viewerFingerprint'' = map_option JStr fp"
  "event_field fmt (ViewerConnected sid fp ip ua) ''ip'' = map_option JStr ip"
  "event_field fmt (ViewerConnected sid fp ip ua) ''userAgent'' = map_option JStr ua"
  "event_field fmt (ViewerDisconnected sid fp) ''sessionId'' = Some (JStr sid)"
  "event_field fmt (ViewerDisconnected sid fp) ''viewerFingerprint'' = map_option JStr fp"
  "event_field fmt (BandwidthDelta sid mb st en sq) ''sessionId'' = Some (JStr sid)"
  "event_field fmt (BandwidthDelta sid mb st en sq) ''deltaMb'' = Some (JFloat mb)"
  "event_field fmt (BandwidthDelta sid mb st en sq) ''intervalStart'' = map_option (\<lambda>t. JStr (fmt t)) st"
  "event_field fmt (BandwidthDelta sid mb st en sq) ''intervalEnd'' = map_option (\<lambda>t. JStr (fmt t)) en"
  "event_field fmt (BandwidthDelta sid mb st en sq) ''sequence'' = Some (JInt (uint sq))"
  "event_field fmt (SessionSnapshot sid n) ''sessionId'' = Some (JStr sid)"
  "event_field fmt (SessionSnapshot sid n) ''activeConnections'' = Some (JInt (uint n))"
  "event_field fmt (RegionMetrics r cpu n bw) ''region'' = Some (JStr r)"
  "event_field fmt (RegionMetrics r cpu n bw) ''cpuPct'' = Some (JFloat cpu)"
  "event_field fmt (RegionMetrics r cpu n bw) ''activeSessions'' = Some (JInt (uint n))"
  "event_field fmt (RegionMetrics r cpu n bw) ''bandwidthUtilizationPct'' = Some (JFloat bw)"
  by (simp_all add: event_field_def map_add_def opt_field_def split: option.split)

lemma map_option_eq_inj: "inj f \<Longrightarrow> map_option f x = map_option f y \<longleftrightarrow> x = y"
  by (cases x; cases y) (auto dest: injD)


definition unary_date :: "date \<Rightarrow> string" where
  "unary_date t = (if t < 0 then CHR ''-'' else CHR ''+'') # replicate (nat \<bar>t\<bar>) CHR ''1''"

lemma inj_unary_date: "inj unary_date"
proof (rule injI)
  fix x y assume "unary_date x = unary_date y"
  then have "(x < 0) = (y < 0)" and "replicate (nat \<bar>x\<bar>) CHR ''1'' = replicate (nat \<bar>y\<bar>) CHR ''1''"
    by (auto simp: unary_date_def split: if_splits)
  then have "(x < 0) = (y < 0)" "nat \<bar>x\<bar> = nat \<bar>y\<bar>" by (simp_all add: replicate_eq_replicate)
  then show "x = y" by linarith
qed


end
