(* ===== verification/Jwt.thy ===== *)
theory Jwt
  imports SharedTypes
begin

text \<open>
  \<open>edge-shared/src/jwt.rs\<close>: verification of tunnel and viewer tokens. The \<open>jsonwebtoken\<close> crate is
  a parameter: \<open>hdr\<close> reads the key id of a token's header, \<open>dec token key aud\<close> decodes and
  validates its claims (HS256, audience, expiry). The revocation oracle is a call that may
  change the world.
\<close>

record tunnel_claims =
  tc_sub :: string
  tc_aud :: string
  tc_exp :: int
  tc_iat :: int
  tc_jti :: string
  tc_region :: string
  tc_kid :: string

record viewer_claims =
  vc_sub :: string
  vc_aud :: string
  vc_exp :: int
  vc_iat :: int
  vc_jti :: string
  vc_kid :: string

type_synonym 'w rev_oracle = "string \<Rightarrow> ('w, bool edge_result) io"

type_synonym 'c jwt_decode = "string \<Rightarrow> string \<Rightarrow> string \<Rightarrow> ('c, string) result"

record 'w jwt_verifier =
  jv_keys :: "(string, string) dashmap"
  jv_revocation :: "'w rev_oracle option"

definition jwt_verifier_new :: "'w jwt_verifier" where
  "jwt_verifier_new = \<lparr>jv_keys = [], jv_revocation = None\<rparr>"

definition add_key :: "string \<Rightarrow> string \<Rightarrow> 'w jwt_verifier \<Rightarrow> 'w jwt_verifier" where
  "add_key kid secret v = v\<lparr>jv_keys := dm_insert kid secret (jv_keys v)\<rparr>"

definition with_revocation :: "'w rev_oracle \<Rightarrow> 'w jwt_verifier \<Rightarrow> 'w jwt_verifier" where
  "with_revocation f v = v\<lparr>jv_revocation := Some f\<rparr>"

definition check_revocation :: "'w jwt_verifier \<Rightarrow> string \<Rightarrow> ('w, unit edge_result) io" where
  "check_revocation v jti w =
     (case jv_revocation v of
        None \<Rightarrow> (Ok (), w)
      | Some is_revoked \<Rightarrow>
          (case is_revoked jti w of
             (r, w) \<Rightarrow>
               let revoked = (case r of Ok b \<Rightarrow> b | Err _ \<Rightarrow> True)
               in if revoked then (Err (TokenRevoked jti), w) else (Ok (), w)))"

definition decode_with_kid ::
  "(string \<Rightarrow> (string option, string) result) \<Rightarrow> 'c jwt_decode \<Rightarrow> 'w jwt_verifier
   \<Rightarrow> string \<Rightarrow> string \<Rightarrow> 'c edge_result" where
  "decode_with_kid hdr dec v token expected_aud =
     (case hdr token of
        Err e \<Rightarrow> Err (InvalidToken (''header parse: '' @ e))
      | Ok None \<Rightarrow> Err (InvalidToken ''missing kid'')
      | Ok (Some kid) \<Rightarrow>
          (case dm_get (jv_keys v) kid of
             None \<Rightarrow> Err (InvalidToken (''unknown kid: '' @ kid))
           | Some key \<Rightarrow> map_err InvalidToken (dec token key expected_aud)))"

definition verify_tunnel ::
  "(string \<Rightarrow> (string option, string) result) \<Rightarrow> tunnel_claims jwt_decode \<Rightarrow> 'w jwt_verifier
   \<Rightarrow> string \<Rightarrow> string \<Rightarrow> ('w, tunnel_claims edge_result) io" where
  "verify_tunnel hdr dec v token expected_region w =
     (case decode_with_kid hdr dec v token ''tunnel-server'' of
        Err e \<Rightarrow> (Err e, w)
      | Ok claims \<Rightarrow>
          if tc_region claims \<noteq> expected_region
          then (Err (RegionMismatch (tc_region claims) expected_region), w)
          else (case check_revocation v (tc_jti claims) w of
                  (Err e, w) \<Rightarrow> (Err e, w)
                | (Ok _, w) \<Rightarrow> (Ok claims, w)))"

definition verify_viewer ::
  "(string \<Rightarrow> (string option, string) result) \<Rightarrow> viewer_claims jwt_decode \<Rightarrow> 'w jwt_verifier
   \<Rightarrow> string \<Rightarrow> ('w, viewer_claims edge_result) io" where
  "verify_viewer hdr dec v token w =
     (case decode_with_kid hdr dec v token ''viewer-exchange'' of
        Err e \<Rightarrow> (Err e, w)
      | Ok claims \<Rightarrow>
          (case check_revocation v (vc_jti claims) w of
             (Err e, w) \<Rightarrow> (Err e, w)
           | (Ok _, w) \<Rightarrow> (Ok claims, w)))"

section \<open>Keys\<close>

lemma add_key_lookup: "dm_get (jv_keys (add_key kid s v)) k = (if kid = k then Some s else dm_get (jv_keys v) k)"
  by (simp add: add_key_def)

lemma decode_with_kid_Ok:
  "decode_with_kid hdr dec v token aud = Ok c \<longleftrightarrow>
     (\<exists>kid key. hdr token = Ok (Some kid) \<and> dm_get (jv_keys v) kid = Some key \<and> dec token key aud = Ok c)"
  by (auto simp: decode_with_kid_def split: result.splits option.splits)

lemma check_revocation_Ok:
  "check_revocation v jti w = (Ok (), w') \<longleftrightarrow>
     (case jv_revocation v of None \<Rightarrow> w' = w | Some f \<Rightarrow> f jti w = (Ok False, w'))"
  by (auto simp: check_revocation_def Let_def split: option.splits prod.splits result.splits)

section \<open>Properties\<close>


text \<open>A viewer token likewise, for its own audience and without a region.\<close>

lemma verify_viewer_accepts:
  "verify_viewer hdr dec v token w = (Ok c, w') \<longleftrightarrow>
     (\<exists>kid key. hdr token = Ok (Some kid) \<and> dm_get (jv_keys v) kid = Some key
        \<and> dec token key ''viewer-exchange'' = Ok c)
     \<and> (case jv_revocation v of None \<Rightarrow> w' = w | Some is_revoked \<Rightarrow> is_revoked (vc_jti c) w = (Ok False, w'))"
proof -
  have "verify_viewer hdr dec v token w = (Ok c, w') \<longleftrightarrow>
      decode_with_kid hdr dec v token ''viewer-exchange'' = Ok c
      \<and> check_revocation v (vc_jti c) w = (Ok (), w')"
    by (auto simp: verify_viewer_def split: result.splits prod.splits)
  then show ?thesis by (simp add: decode_with_kid_Ok check_revocation_Ok)
qed

end
