(* ===== verification/RevocationOracle.thy ===== *)
theory RevocationOracle
  imports Jwt
begin

text \<open>
  \<open>edge-shared/src/revocation.rs\<close>: the revocation oracle that asks dun-api over HTTP and keeps
  each answer for a short time. The clock (in milliseconds) and the HTTP client are parameters
  over the world. An error message that quotes an HTTP status keeps its fixed part.
\<close>

section \<open>The endpoint\<close>

definition normalise_dun_api_endpoint :: "string \<Rightarrow> string" where
  "normalise_dun_api_endpoint raw =
     (let trimmed = trim_end_char CHR ''/'' raw
      in if suffix ''/api'' trimmed then trimmed else trimmed @ ''/api'')"

lemma normalise_dun_api_endpoint_suffix: "suffix ''/api'' (normalise_dun_api_endpoint raw)"
  by (simp add: normalise_dun_api_endpoint_def Let_def suffix_def)

lemma trim_end_api: "suffix ''/api'' s \<Longrightarrow> trim_end_char CHR ''/'' s = s"
  by (rule trim_end_char_id) (auto simp: suffix_def)

lemma normalise_dun_api_endpoint_idem [simp]:
  "normalise_dun_api_endpoint (normalise_dun_api_endpoint raw) = normalise_dun_api_endpoint raw"
  using normalise_dun_api_endpoint_suffix [of raw]
  by (subst normalise_dun_api_endpoint_def) (simp add: trim_end_api)

section \<open>The oracle\<close>

record cache_entry =
  ce_revoked :: bool
  ce_inserted_at :: nat

record http_response =
  http_status :: nat
  http_body :: "json option"

text \<open>A request: url, query, headers; the client answers with a response or a transport error.\<close>

type_synonym 'w http_get =
  "string \<Rightarrow> (string \<times> string) list \<Rightarrow> (string \<times> string) list \<Rightarrow> ('w, (http_response, string) result) io"

record http_revocation_oracle =
  ho_endpoint :: string
  ho_api_key :: string
  ho_cache :: "(string, cache_entry) dashmap"
  ho_ttl :: nat

definition oracle_new :: "string \<Rightarrow> string \<Rightarrow> http_revocation_oracle" where
  "oracle_new endpoint api_key =
     \<lparr>ho_endpoint = normalise_dun_api_endpoint endpoint, ho_api_key = api_key, ho_cache = [], ho_ttl = 5000\<rparr>"

definition with_ttl :: "nat \<Rightarrow> http_revocation_oracle \<Rightarrow> http_revocation_oracle" where
  "with_ttl ttl o' = o'\<lparr>ho_ttl := ttl\<rparr>"

text \<open>\<open>readable\<close> is whether \<open>try_read\<close> gets the lock.\<close>

definition cache_get :: "bool \<Rightarrow> nat \<Rightarrow> string \<Rightarrow> http_revocation_oracle \<Rightarrow> bool option" where
  "cache_get readable now jti o' =
     (if \<not> readable then None
      else (case dm_get (ho_cache o') jti of
              None \<Rightarrow> None
            | Some e \<Rightarrow> if now - ce_inserted_at e < ho_ttl o' then Some (ce_revoked e) else None))"

definition cache_put :: "nat \<Rightarrow> string \<Rightarrow> bool \<Rightarrow> http_revocation_oracle \<Rightarrow> http_revocation_oracle" where
  "cache_put now jti revoked o' =
     (let c = (if length (ho_cache o') > 10000
               then filter (\<lambda>(_, e). ce_inserted_at e > now - ho_ttl o') (ho_cache o')
               else ho_cache o')
      in o'\<lparr>ho_cache := dm_insert jti \<lparr>ce_revoked = revoked, ce_inserted_at = now\<rparr> c\<rparr>)"

definition is_success :: "nat \<Rightarrow> bool" where
  "is_success st \<longleftrightarrow> 200 \<le> st \<and> st < 300"

definition fetch_revoked :: "'w http_get \<Rightarrow> http_revocation_oracle \<Rightarrow> string \<Rightarrow> ('w, bool edge_result) io" where
  "fetch_revoked http_get o' jti w =
     (case http_get (ho_endpoint o' @ ''/tunnels/verify-revoked'') [(''jti'', jti)]
             [(''x-edge-api-key'', ho_api_key o')] w of
        (Err e, w) \<Rightarrow> (Err (Config (''revocation fetch: '' @ e)), w)
      | (Ok resp, w) \<Rightarrow>
          if \<not> is_success (http_status resp)
          then (Err (Config ''revocation lookup non-2xx''), w)
          else (case Option.bind (http_body resp) (j_get ''revoked'') of
                  Some (JBool b) \<Rightarrow> (Ok b, w)
                | _ \<Rightarrow> (Err (Config ''revocation body''), w)))"

definition oracle_is_revoked ::
  "('w \<Rightarrow> nat) \<Rightarrow> ('w \<Rightarrow> bool) \<Rightarrow> 'w http_get \<Rightarrow> string \<Rightarrow> http_revocation_oracle \<times> 'w
   \<Rightarrow> bool edge_result \<times> http_revocation_oracle \<times> 'w" where
  "oracle_is_revoked clock readable http_get jti = (\<lambda>(o', w).
     case cache_get (readable w) (clock w) jti o' of
       Some cached \<Rightarrow> (Ok cached, o', w)
     | None \<Rightarrow>
         (case fetch_revoked http_get o' jti w of
            (Err e, w) \<Rightarrow> (Err e, o', w)
          | (Ok revoked, w) \<Rightarrow> (Ok revoked, cache_put (clock w) jti revoked o', w)))"

text \<open>A sequence of lookups, each after a change of the world (time passing, other requests).\<close>

fun oracle_calls ::
  "('w \<Rightarrow> nat) \<Rightarrow> ('w \<Rightarrow> bool) \<Rightarrow> 'w http_get \<Rightarrow> (('w \<Rightarrow> 'w) \<times> string) list
   \<Rightarrow> http_revocation_oracle \<times> 'w \<Rightarrow> http_revocation_oracle \<times> 'w" where
  "oracle_calls clock readable http_get [] s = s"
| "oracle_calls clock readable http_get ((env, j) # js) (o', w) =
     oracle_calls clock readable http_get js
       (snd (oracle_is_revoked clock readable http_get j (o', env w)))"

section \<open>The age of an answer\<close>

text \<open>
  \<open>honest\<close>: what the lookup service promises, over the history \<open>truth jti t\<close> of revocations. A
  success answers the truth at some moment of the call, a call takes at most \<open>tmo\<close> and does not
  turn the clock back.
\<close>

definition honest :: "('w \<Rightarrow> nat) \<Rightarrow> nat \<Rightarrow> (string \<Rightarrow> nat \<Rightarrow> bool) \<Rightarrow> 'w http_get \<Rightarrow> bool" where
  "honest clock tmo truth http_get \<longleftrightarrow>
     (\<forall>u q h w r w'. http_get u q h w = (r, w') \<longrightarrow>
        clock w \<le> clock w' \<and> clock w' \<le> clock w + tmo
        \<and> (\<forall>resp jti b. r = Ok resp \<and> q = [(''jti'', jti)] \<and> is_success (http_status resp)
             \<and> Option.bind (http_body resp) (j_get ''revoked'') = Some (JBool b)
             \<longrightarrow> (\<exists>t. clock w \<le> t \<and> t \<le> clock w' \<and> truth jti t = b)))"

definition cache_fresh ::
  "nat \<Rightarrow> (string \<Rightarrow> nat \<Rightarrow> bool) \<Rightarrow> nat \<Rightarrow> http_revocation_oracle \<Rightarrow> bool" where
  "cache_fresh tmo truth now o' \<longleftrightarrow> dm_ok (ho_cache o') \<and>
     (\<forall>jti e. dm_get (ho_cache o') jti = Some e \<longrightarrow> ce_inserted_at e \<le> now \<and>
        (\<exists>t. t \<le> ce_inserted_at e \<and> ce_inserted_at e \<le> t + tmo \<and> truth jti t = ce_revoked e))"

lemma cache_fresh_mono: "cache_fresh tmo truth n o' \<Longrightarrow> n \<le> n' \<Longrightarrow> cache_fresh tmo truth n' o'"
  unfolding cache_fresh_def by (meson order_trans)

lemma fetch_revoked_Ok:
  assumes "honest clock tmo truth http_get" and "fetch_revoked http_get o' jti w = (Ok b, w')"
  shows "\<exists>t. clock w \<le> t \<and> t \<le> clock w' \<and> clock w' \<le> t + tmo \<and> truth jti t = b"
proof -
  obtain u h resp where g: "http_get u [(''jti'', jti)] h w = (Ok resp, w')"
    and st: "is_success (http_status resp)"
    and b: "Option.bind (http_body resp) (j_get ''revoked'') = Some (JBool b)"
    using assms(2)
    by (auto simp: fetch_revoked_def split: prod.splits result.splits if_splits option.splits json.splits)
  then obtain t where "clock w \<le> t" "t \<le> clock w'" "truth jti t = b" "clock w' \<le> clock w + tmo"
    using assms(1) unfolding honest_def by blast
  then show ?thesis by (intro exI [of _ t]) auto
qed

lemma fetch_revoked_clock:
  "honest clock tmo truth http_get \<Longrightarrow> fetch_revoked http_get o' jti w = (r, w') \<Longrightarrow> clock w \<le> clock w'"
  by (auto simp: fetch_revoked_def honest_def split: prod.splits result.splits if_splits option.splits json.splits)

lemma dm_ok_filter: "dm_ok m \<Longrightarrow> dm_ok (filter P m)"
  by (induction m) (auto simp: dm_ok_def)

lemma map_of_filter_Some: "dm_ok m \<Longrightarrow> dm_get (filter P m) k = Some v \<Longrightarrow> dm_get m k = Some v"
  by (auto simp: dm_ok_def dest: map_of_SomeD)

definition prune_cache :: "nat \<Rightarrow> http_revocation_oracle \<Rightarrow> (string, cache_entry) dashmap" where
  "prune_cache now o' =
     (if length (ho_cache o') > 10000
      then filter (\<lambda>(_, e). ce_inserted_at e > now - ho_ttl o') (ho_cache o') else ho_cache o')"

lemma prune_cache_ok: "dm_ok (ho_cache o') \<Longrightarrow> dm_ok (prune_cache now o')"
  by (simp add: prune_cache_def dm_ok_filter)

lemma prune_cache_get:
  "dm_ok (ho_cache o') \<Longrightarrow> dm_get (prune_cache now o') k = Some e \<Longrightarrow> dm_get (ho_cache o') k = Some e"
  unfolding prune_cache_def by (cases "length (ho_cache o') > 10000") (simp_all only: if_True if_False map_of_filter_Some)

lemma ho_cache_put:
  "ho_cache (cache_put now jti b o') =
     dm_insert jti \<lparr>ce_revoked = b, ce_inserted_at = now\<rparr> (prune_cache now o')"
  "ho_ttl (cache_put now jti b o') = ho_ttl o'"
  by (simp_all add: cache_put_def prune_cache_def)

lemma cache_put_fresh:
  assumes "cache_fresh tmo truth now o'" and "t \<le> now" "now \<le> t + tmo" "truth jti t = b"
  shows "cache_fresh tmo truth now (cache_put now jti b o')"
proof -
  have ok: "dm_ok (ho_cache o')" using assms(1) by (simp add: cache_fresh_def)
  have "ce_inserted_at e \<le> now
        \<and> (\<exists>t. t \<le> ce_inserted_at e \<and> ce_inserted_at e \<le> t + tmo \<and> truth k t = ce_revoked e)"
    if "dm_get (ho_cache (cache_put now jti b o')) k = Some e" for k e
  proof (cases "jti = k")
    case True
    with that assms(2-4) show ?thesis by (auto simp: ho_cache_put)
  next
    case False
    with that have "dm_get (prune_cache now o') k = Some e" by (simp add: ho_cache_put)
    from prune_cache_get [OF ok this] assms(1) show ?thesis unfolding cache_fresh_def by blast
  qed
  with prune_cache_ok [OF ok] show ?thesis
    unfolding cache_fresh_def by (simp add: ho_cache_put)
qed

lemma oracle_step_fresh:
  assumes "honest clock tmo truth http_get" and "cache_fresh tmo truth (clock w) o'"
    and "oracle_is_revoked clock readable http_get jti (o', w) = (r, o'', w')"
  shows "cache_fresh tmo truth (clock w') o'' \<and> ho_ttl o'' = ho_ttl o'"
proof (cases "cache_get (readable w) (clock w) jti o'")
  case (Some c)
  with assms show ?thesis by (simp add: oracle_is_revoked_def)
next
  case None
  obtain r' w1 where f: "fetch_revoked http_get o' jti w = (r', w1)" by force
  have fresh: "cache_fresh tmo truth (clock w1) o'"
    using cache_fresh_mono [OF assms(2) fetch_revoked_clock [OF assms(1) f]] .
  show ?thesis
  proof (cases r')
    case (Ok b)
    with f obtain t where "t \<le> clock w1" "clock w1 \<le> t + tmo" "truth jti t = b"
      using fetch_revoked_Ok [OF assms(1)] by blast
    from cache_put_fresh [OF fresh this] None f Ok assms(3) show ?thesis
      by (auto simp: oracle_is_revoked_def ho_cache_put(2))
  next
    case (Err e)
    with None f assms fresh show ?thesis by (simp add: oracle_is_revoked_def)
  qed
qed

lemma oracle_calls_fresh:
  assumes "honest clock tmo truth http_get" and "cache_fresh tmo truth (clock w) o'"
    and "\<forall>(env, j) \<in> set js. \<forall>v. clock v \<le> clock (env v)"
    and "oracle_calls clock readable http_get js (o', w) = (o'', w')"
  shows "cache_fresh tmo truth (clock w') o'' \<and> ho_ttl o'' = ho_ttl o'"
  using assms(2-4)
proof (induction js arbitrary: o' w)
  case (Cons x js)
  obtain env j where x: "x = (env, j)" by force
  obtain r o1 w1 where s: "oracle_is_revoked clock readable http_get j (o', env w) = (r, o1, w1)"
    by (metis prod_cases3)
  have "cache_fresh tmo truth (clock (env w)) o'"
    by (rule cache_fresh_mono [OF Cons.prems(1)]) (use Cons.prems(2) in \<open>auto simp: x\<close>)
  from oracle_step_fresh [OF assms(1) this s] Cons.IH [of w1 o1] Cons.prems(2,3) s
  show ?case by (auto simp: x)
qed simp

section \<open>Properties\<close>

text \<open>C12 The revocation delay is bounded: after any sequence of lookups on a new oracle, an answer at
  time \<open>n\<close> was the truth at some moment no earlier than the TTL plus the duration of one request
  before \<open>n\<close>, and no later than the end of the lookup. So once a token is revoked and stays
  revoked for that long, no lookup answers "not revoked".\<close>

theorem revocation_delay_bound:
  assumes "honest clock tmo truth http_get" and "\<forall>(env, j) \<in> set js. \<forall>v. clock v \<le> clock (env v)"
    and "oracle_calls clock readable http_get js (with_ttl ttl (oracle_new ep key), w) = (o', w')"
    and "oracle_is_revoked clock readable http_get jti (o', w') = (Ok b, o'', w'')"
  shows "\<exists>t. clock w' \<le> t + ttl + tmo \<and> t \<le> clock w'' \<and> truth jti t = b"
proof -
  have fresh: "cache_fresh tmo truth (clock w') o' \<and> ho_ttl o' = ttl"
    using oracle_calls_fresh [OF assms(1) _ assms(2,3)]
    by (simp add: cache_fresh_def oracle_new_def with_ttl_def)
  show ?thesis
  proof (cases "cache_get (readable w') (clock w') jti o'")
    case (Some c)
    with assms(4) have c: "c = b" "w'' = w'" by (simp_all add: oracle_is_revoked_def)
    with Some obtain e where e: "dm_get (ho_cache o') jti = Some e" "clock w' - ce_inserted_at e < ttl"
      "ce_revoked e = b"
      using fresh by (auto simp: cache_get_def split: option.splits if_splits)
    with fresh obtain t where "t \<le> ce_inserted_at e" "ce_inserted_at e \<le> t + tmo" "truth jti t = b"
      "ce_inserted_at e \<le> clock w'"
      unfolding cache_fresh_def by blast
    with e(2) c show ?thesis by (intro exI [of _ t]) auto
  next
    case None
    with assms(4) have "fetch_revoked http_get o' jti w' = (Ok b, w'')"
      by (auto simp: oracle_is_revoked_def split: prod.splits result.splits)
    from fetch_revoked_Ok [OF assms(1) this] obtain t where
      "clock w' \<le> t" "t \<le> clock w''" "truth jti t = b" by blast
    then show ?thesis by (intro exI [of _ t]) simp
  qed
qed

text \<open>A service that revokes one token at time 100 and answers in one millisecond.\<close>

definition demo_truth :: "string \<Rightarrow> nat \<Rightarrow> bool" where
  "demo_truth jti t \<longleftrightarrow> jti = ''j'' \<and> 100 \<le> t"

definition demo_get :: "nat http_get" where
  "demo_get u q h w =
     (Ok \<lparr>http_status = 200, http_body = Some (mk_obj [(''revoked'', JBool (demo_truth (snd (hd q)) w))])\<rparr>, w + 1)"

lemma demo_get_honest: "honest id 1 demo_truth demo_get"
  unfolding honest_def
proof (intro allI impI conjI)
  fix u q h w r w' resp jti b
  assume g: "demo_get u q h w = (r, w')"
  then show "id w \<le> id w'" "id w' \<le> id w + 1" by (auto simp: demo_get_def)
  assume "r = Ok resp \<and> q = [(''jti'', jti)] \<and> is_success (http_status resp)
      \<and> Option.bind (http_body resp) (j_get ''revoked'') = Some (JBool b)"
  with g show "\<exists>t\<ge>id w. t \<le> id w' \<and> demo_truth jti t = b"
    by (intro exI [of _ w]) (auto simp: demo_get_def)
qed

lemma revocation_delay_bound_witness:
  "\<exists>t. (102 :: nat) \<le> t + 5 + 1 \<and> t \<le> 102 \<and> \<not> demo_truth ''j'' t \<and> demo_truth ''j'' 102"
proof -
  let ?js = "[(\<lambda>w. w + 98, ''j''), (\<lambda>w. w + 2, ''k'')]"
  note run = oracle_is_revoked_def oracle_new_def with_ttl_def cache_get_def cache_put_def
    fetch_revoked_def demo_get_def is_success_def demo_truth_def
  obtain o' where c: "oracle_calls id (\<lambda>_. True) demo_get ?js
      (with_ttl 5 (oracle_new ''http://d'' ''k''), 0) = (o', 102)"
    and l: "oracle_is_revoked id (\<lambda>_. True) demo_get ''j'' (o', 102) = (Ok False, o', 102)"
    by (simp add: run)
  have "\<forall>(env, j) \<in> set ?js. \<forall>v. id v \<le> (id (env v) :: nat)" by auto
  from revocation_delay_bound [OF demo_get_honest this c l] show ?thesis
    by (auto simp: demo_truth_def)
qed

end
