(* ===== verification/CallbackClient.thy ===== *)
theory CallbackClient
  imports SharedTypes RevocationOracle
begin

text \<open>
  \<open>edge-callback-client/src/client.rs\<close>: sending one event to dun-api with up to three attempts. The
  HTTP client (a POST that answers a status or fails), the timer and chrono's text form of a
  date are parameters.
\<close>

definition normalise_endpoint :: "string \<Rightarrow> string" where
  "normalise_endpoint raw =
     (let trimmed = trim_end_char CHR ''/'' raw
      in if suffix ''/api'' trimmed then trimmed else trimmed @ ''/api'')"

lemma normalise_endpoint_oracle: "normalise_endpoint = normalise_dun_api_endpoint"
  by (rule ext) (simp add: normalise_endpoint_def normalise_dun_api_endpoint_def)

record callback_client =
  cc_endpoint :: string
  cc_api_key :: "string option"

definition client_new :: "(string \<Rightarrow> string option) \<Rightarrow> string \<Rightarrow> callback_client" where
  "client_new env endpoint =
     \<lparr>cc_endpoint = normalise_endpoint endpoint,
      cc_api_key = (case env ''DUN_API_KEY'' of
                      None \<Rightarrow> None | Some s \<Rightarrow> if s \<noteq> [] then Some s else None)\<rparr>"

record 'w transport =
  t_post :: "string \<Rightarrow> (string \<times> string) list \<Rightarrow> json \<Rightarrow> ('w, (nat, string) result) io"
  t_sleep :: "nat \<Rightarrow> 'w \<Rightarrow> 'w"
  t_date :: "date \<Rightarrow> string"

definition try_send ::
  "callback_client \<Rightarrow> 'w transport \<Rightarrow> edge_callback_event \<Rightarrow> ('w, (unit, string) result) io" where
  "try_send c t event w =
     (let url = cc_endpoint c @ ''/tunnels/edge-callback'';
          headers = (case cc_api_key c of Some key \<Rightarrow> [(''X-Edge-Api-Key'', key)] | None \<Rightarrow> [])
      in (case t_post t url headers (event_json (t_date t) event) w of
            (Err e, w) \<Rightarrow> (Err e, w)
          | (Ok st, w) \<Rightarrow>
              if \<not> is_success st then (Err ''non-2xx status'', w) else (Ok (), w)))"

text \<open>\<open>enqueue\<close> does nothing in this version.\<close>

definition client_enqueue :: "callback_client \<Rightarrow> edge_callback_event \<Rightarrow> ('w, unit edge_result) io" where
  "client_enqueue c event w = (Ok (), w)"

function send_attempts ::
  "callback_client \<Rightarrow> 'w transport \<Rightarrow> edge_callback_event \<Rightarrow> nat \<Rightarrow> ('w, unit edge_result) io" where
  "send_attempts c t event attempt w =
     (if attempt < 3 then
        (case try_send c t event w of
           (Ok _, w) \<Rightarrow> (Ok (), w)
         | (Err _, w) \<Rightarrow>
             if attempt = 2
             then (case client_enqueue c event w of (Err e, w) \<Rightarrow> (Err e, w) | (Ok _, w) \<Rightarrow> (Ok (), w))
             else send_attempts c t event (attempt + 1) (t_sleep t (200 * 3 ^ attempt) w))
      else (Ok (), w))"
  by pat_completeness auto
termination
  by (relation "measure (\<lambda>(c, t, event, attempt, w). 3 - attempt)") auto

declare send_attempts.simps [simp del]

definition client_send :: "callback_client \<Rightarrow> 'w transport \<Rightarrow> edge_callback_event \<Rightarrow> ('w, unit edge_result) io" where
  "client_send c t event = send_attempts c t event 0"

section \<open>What is sent\<close>

text \<open>A transport that also records the calls it gets.\<close>

datatype call = Post string "(string \<times> string) list" json bool | Slept nat

definition recorded :: "'w transport \<Rightarrow> ('w \<times> call list) transport" where
  "recorded t =
     \<lparr>t_post = (\<lambda>u h j (w, l). case t_post t u h j w of
         (r, w) \<Rightarrow> (r, w, l @ [Post u h j (case r of Ok st \<Rightarrow> is_success st | Err _ \<Rightarrow> False)])),
      t_sleep = (\<lambda>n (w, l). (t_sleep t n w, l @ [Slept n])),
      t_date = t_date t\<rparr>"

definition callback_post :: "callback_client \<Rightarrow> 'w transport \<Rightarrow> edge_callback_event \<Rightarrow> bool \<Rightarrow> call" where
  "callback_post c t event ok =
     Post (cc_endpoint c @ ''/tunnels/edge-callback'')
       (case cc_api_key c of Some key \<Rightarrow> [(''X-Edge-Api-Key'', key)] | None \<Rightarrow> [])
       (event_json (t_date t) event) ok"

lemma try_send_recorded:
  "try_send c (recorded t) event (w, l) =
     (case try_send c t event w of (r, w') \<Rightarrow> (r, w', l @ [callback_post c t event (is_ok r)]))"
  by (auto simp: try_send_def recorded_def callback_post_def Let_def split: prod.splits result.splits)

lemma recorded_sleep: "t_sleep (recorded t) n (w, l) = (t_sleep t n w, l @ [Slept n])"
  by (simp add: recorded_def)

section \<open>Properties\<close>


text \<open>Whatever the operator writes, the endpoint ends in \<open>/api\<close>: normalising again
  changes nothing, and the callback client and the revocation oracle agree on it.\<close>

lemma normalise_endpoint_canonical:
  "suffix ''/api'' (normalise_endpoint raw)
   \<and> normalise_endpoint (normalise_endpoint raw) = normalise_endpoint raw
   \<and> normalise_endpoint (raw @ ''/'') = normalise_endpoint raw
   \<and> normalise_endpoint (normalise_endpoint raw @ ''/'') = normalise_endpoint raw
   \<and> normalise_dun_api_endpoint raw = normalise_endpoint raw"
proof -
  have slash: "normalise_endpoint (s @ ''/'') = normalise_endpoint s" for s
    by (simp add: normalise_endpoint_def trim_end_char_snoc)
  show ?thesis
    using slash [of raw] slash [of "normalise_endpoint raw"]
    by (simp add: normalise_endpoint_oracle normalise_dun_api_endpoint_suffix)
qed

lemma client_send_Ok [simp]: "fst (client_send c t event w) = Ok ()"
proof -
  have "fst (send_attempts c t event n w) = Ok ()" for n
    by (induction c t event n w rule: send_attempts.induct)
      (subst send_attempts.simps, auto simp: client_enqueue_def split: prod.splits result.splits)
  then show ?thesis by (simp add: client_send_def)
qed

end
