(* ===== verification/Bandwidth.thy ===== *)
theory Bandwidth
  imports SequenceStore CallbackClient
begin

text \<open>
  \<open>edge-bandwidth/src/delta.rs\<close> and \<open>reporter.rs\<close>: the loop that reports the bytes of every
  session to dun-api once a minute, numbered by a sequence that survives restarts. The bytes of
  a session (from the SFU), the wall clock and the callback client's send are arguments.
\<close>

section \<open>Megabytes as floats\<close>

text \<open>
  \<open>u64 as f64\<close> rounds to a 53 bit significand, half to even; the division by \<open>2^20\<close> is exact.
\<close>

fun excess_bits :: "nat \<Rightarrow> nat" where
  "excess_bits n = (if n < 2 ^ 53 then 0 else Suc (excess_bits (n div 2)))"

declare excess_bits.simps [simp del]

definition round_f64 :: "nat \<Rightarrow> nat" where
  "round_f64 n =
     (let k = excess_bits n; q = n div 2 ^ k; r = n mod 2 ^ k in
      if k = 0 then n
      else if 2 * r > 2 ^ k \<or> 2 * r = 2 ^ k \<and> odd q then (q + 1) * 2 ^ k else q * 2 ^ k)"

definition bytes_to_mb :: "u64 \<Rightarrow> rat" where
  "bytes_to_mb bytes = of_nat (round_f64 (unat bytes)) / 1048576"

text \<open>The float literal \<open>0.1\<close>.\<close>

definition min_delta_mb :: rat where
  "min_delta_mb = 3602879701896397 / 2 ^ 55"

lemma round_f64_small: "n < 2 ^ 53 \<Longrightarrow> round_f64 n = n"
  by (simp add: round_f64_def excess_bits.simps)

lemma excess_bits_ge: "2 ^ 53 \<le> n \<Longrightarrow> 2 ^ 52 \<le> n div 2 ^ excess_bits n"
proof (induction n rule: excess_bits.induct)
  case (1 n)
  have e: "excess_bits n = Suc (excess_bits (n div 2))"
    using "1.prems" by (subst excess_bits.simps) simp
  show ?case
  proof (cases "n div 2 < 2 ^ 53")
    case True
    then have "excess_bits (n div 2) = 0" by (simp add: excess_bits.simps)
    with e "1.prems" show ?thesis by (simp add: e)
  next
    case False
    then have "2 ^ 52 \<le> n div 2 div 2 ^ excess_bits (n div 2)"
      using "1.IH" "1.prems" by simp
    then show ?thesis by (simp add: e div_mult2_eq)
  qed
qed

lemma round_f64_ge:
  assumes "2 ^ 53 \<le> n"
  shows "2 ^ 52 \<le> round_f64 n"
proof -
  let ?k = "excess_bits n"
  have "2 ^ 52 \<le> n div 2 ^ ?k" by (rule excess_bits_ge [OF assms])
  also have "\<dots> \<le> n div 2 ^ ?k * 2 ^ ?k" by simp
  also have "\<dots> \<le> round_f64 n"
    by (simp add: round_f64_def Let_def)
  finally show ?thesis .
qed

text \<open>The threshold in bytes: a delta counts as at least 0.1 MB from 104858 bytes on.\<close>

lemma below_threshold_iff: "bytes_to_mb b < min_delta_mb \<longleftrightarrow> unat b < 104858"
proof (cases "unat b < 2 ^ 53")
  case True
  then have r: "round_f64 (unat b) = unat b" by (rule round_f64_small)
  have "bytes_to_mb b < min_delta_mb \<longleftrightarrow> (of_nat (unat b) :: rat) * 2 ^ 35 < 3602879701896397"
    by (simp add: bytes_to_mb_def r min_delta_mb_def field_simps)
  also have "\<dots> \<longleftrightarrow> (of_nat (unat b * 2 ^ 35) :: rat) < of_nat 3602879701896397"
    by simp
  also have "\<dots> \<longleftrightarrow> unat b * 2 ^ 35 < 3602879701896397"
    by (simp only: of_nat_less_iff)
  also have "\<dots> \<longleftrightarrow> unat b < 104858" by auto
  finally show ?thesis .
next
  case False
  then have r: "2 ^ 52 \<le> round_f64 (unat b)" using round_f64_ge [of "unat b"] by simp
  then have "(of_nat (2 ^ 52) :: rat) \<le> of_nat (round_f64 (unat b))" by (simp only: of_nat_le_iff)
  then have "\<not> bytes_to_mb b < min_delta_mb"
    by (simp add: bytes_to_mb_def min_delta_mb_def field_simps)
  with False show ?thesis by simp
qed

section \<open>The reporter\<close>

record session_state =
  ses_cumulative_bytes :: u64
  ses_next_sequence :: u64
  ses_last_reported_at :: date

type_synonym reporter_state = "(session_id, session_state) dashmap"

record 'w reporter_env =
  rp_active :: "('w, session_id list) io"
  rp_bytes :: "session_id \<Rightarrow> ('w, (u64, edge_error) result) io"
  rp_now :: "'w \<Rightarrow> date"
  rp_send :: "edge_callback_event \<Rightarrow> ('w, unit edge_result) io"

text \<open>The start of \<open>run_loop\<close>: the sequences on disk become the states of their sessions.\<close>

definition reporter_boot ::
  "'w reporter_env \<Rightarrow> path \<Rightarrow> reporter_state \<times> fs \<times> 'w \<Rightarrow> reporter_state \<times> fs \<times> 'w" where
  "reporter_boot env base = (\<lambda>(st, s, w).
     case seq_ensure_dir base s of
       (_, s) \<Rightarrow>
         (case seq_load_all base s of
            (Err _, s) \<Rightarrow> (st, s, w)
          | (Ok m, s) \<Rightarrow>
              (fold (\<lambda>(sid, n). dm_insert sid
                  \<lparr>ses_cumulative_bytes = 0, ses_next_sequence = n, ses_last_reported_at = rp_now env w\<rparr>)
                m st, s, w)))"

definition report_one ::
  "'w reporter_env \<Rightarrow> path \<Rightarrow> session_id \<Rightarrow> reporter_state \<times> fs \<times> 'w
   \<Rightarrow> unit edge_result \<times> reporter_state \<times> fs \<times> 'w" where
  "report_one env base sid = (\<lambda>(st, s, w).
     case rp_bytes env sid w of
       (Err e, w) \<Rightarrow> (Err e, st, s, w)
     | (Ok cumulative, w) \<Rightarrow>
         let now = rp_now env w;
             entry = (case dm_get st sid of
                        Some e \<Rightarrow> e
                      | None \<Rightarrow> \<lparr>ses_cumulative_bytes = 0, ses_next_sequence = 0, ses_last_reported_at = now\<rparr>);
             st = dm_insert sid entry st;
             delta_bytes = saturating_sub cumulative (ses_cumulative_bytes entry);
             delta_mb = bytes_to_mb delta_bytes
         in if delta_mb < min_delta_mb then (Ok (), st, s, w)
            else (case rp_send env (BandwidthDelta sid delta_mb (Some (ses_last_reported_at entry))
                         (Some now) (ses_next_sequence entry)) w of
                    (Err e, w) \<Rightarrow> (Err e, st, s, w)
                  | (Ok _, w) \<Rightarrow>
                      let next = ses_next_sequence entry + 1;
                          entry = \<lparr>ses_cumulative_bytes = cumulative, ses_next_sequence = next,
                                    ses_last_reported_at = now\<rparr>
                      in (case seq_save base sid next s of
                            (_, s) \<Rightarrow> (Ok (), dm_insert sid entry st, s, w))))"

fun report_all ::
  "'w reporter_env \<Rightarrow> path \<Rightarrow> session_id list \<Rightarrow> reporter_state \<times> fs \<times> 'w \<Rightarrow> reporter_state \<times> fs \<times> 'w" where
  "report_all env base [] x = x"
| "report_all env base (sid # sids) x = report_all env base sids (snd (report_one env base sid x))"

fun forget_ended :: "path \<Rightarrow> session_id list \<Rightarrow> reporter_state \<times> fs \<Rightarrow> reporter_state \<times> fs" where
  "forget_ended base [] x = x"
| "forget_ended base (sid # sids) (st, s) =
     forget_ended base sids (dm_remove sid st, snd (seq_remove base sid s))"

text \<open>One iteration of the loop.\<close>

definition reporter_tick ::
  "'w reporter_env \<Rightarrow> path \<Rightarrow> reporter_state \<times> fs \<times> 'w \<Rightarrow> reporter_state \<times> fs \<times> 'w" where
  "reporter_tick env base = (\<lambda>(st, s, w).
     case rp_active env w of
       (active, w) \<Rightarrow>
         (case report_all env base active (st, s, w) of
            (st, s, w) \<Rightarrow>
              let ended = filter (\<lambda>k. k \<notin> set active) (map fst st)
              in (case forget_ended base ended (st, s) of (st, s) \<Rightarrow> (st, s, w))))"

section \<open>What one session reports over time\<close>

text \<open>An environment that also records the events handed to the callback client.\<close>

definition rp_recorded :: "'w reporter_env \<Rightarrow> ('w \<times> edge_callback_event list) reporter_env" where
  "rp_recorded env =
     \<lparr>rp_active = (\<lambda>(w, l). case rp_active env w of (r, w) \<Rightarrow> (r, w, l)),
      rp_bytes = (\<lambda>sid (w, l). case rp_bytes env sid w of (r, w) \<Rightarrow> (r, w, l)),
      rp_now = (\<lambda>(w, l). rp_now env w),
      rp_send = (\<lambda>ev (w, l). case rp_send env ev w of (r, w) \<Rightarrow> (r, w, l @ [ev]))\<rparr>"

text \<open>The reports of one session, each after a change of the world.\<close>

fun report_run ::
  "'w reporter_env \<Rightarrow> path \<Rightarrow> session_id \<Rightarrow> ('w \<Rightarrow> 'w) list \<Rightarrow> reporter_state \<times> fs \<times> 'w \<times> edge_callback_event list
   \<Rightarrow> reporter_state \<times> fs \<times> 'w \<times> edge_callback_event list" where
  "report_run env base sid [] x = x"
| "report_run env base sid (f # fs) (st, s, w, l) =
     report_run env base sid fs (snd (report_one (rp_recorded env) base sid (st, s, f w, l)))"

text \<open>\<open>delta_chain sid e evs e'\<close>: the events lead the session from the state \<open>e\<close> to \<open>e'\<close>.\<close>

fun delta_chain :: "session_id \<Rightarrow> session_state \<Rightarrow> edge_callback_event list \<Rightarrow> session_state \<Rightarrow> bool" where
  "delta_chain sid e [] e' \<longleftrightarrow> e = e'"
| "delta_chain sid e (ev # evs) e' \<longleftrightarrow>
     (case ev of
        BandwidthDelta i mb (Some t0) (Some t1) n \<Rightarrow>
          i = sid \<and> t0 = ses_last_reported_at e \<and> n = ses_next_sequence e
          \<and> (\<exists>c. ses_cumulative_bytes e < c \<and> unat c < 2 ^ 53
               \<and> mb = (of_nat (unat c) - of_nat (unat (ses_cumulative_bytes e))) / 1048576
               \<and> delta_chain sid \<lparr>ses_cumulative_bytes = c, ses_next_sequence = n + 1, ses_last_reported_at = t1\<rparr> evs e')
      | _ \<Rightarrow> False)"

lemma delta_chain_append: "delta_chain sid e a e1 \<Longrightarrow> delta_chain sid e1 b e2 \<Longrightarrow> delta_chain sid e (a @ b) e2"
  by (induction a arbitrary: e) (auto split: edge_callback_event.splits option.splits)

text \<open>The byte counters stay where floats are exact, and the callback client reports success.\<close>

definition bounded_bytes :: "'w reporter_env \<Rightarrow> session_id \<Rightarrow> bool" where
  "bounded_bytes env sid \<longleftrightarrow> (\<forall>w n w'. rp_bytes env sid w = (Ok n, w') \<longrightarrow> unat n < 2 ^ 53)"

definition always_sends :: "'w reporter_env \<Rightarrow> bool" where
  "always_sends env \<longleftrightarrow> (\<forall>ev w. fst (rp_send env ev w) = Ok ())"

lemma report_one_step:
  assumes "dm_get st sid = Some e"
    and bound: "bounded_bytes env sid" and send: "always_sends env"
    and "report_one (rp_recorded env) base sid (st, s, w, l) = (r, st', s', w', l')"
  shows "\<exists>e' evs. dm_get st' sid = Some e' \<and> l' = l @ evs \<and> delta_chain sid e evs e'"
proof -
  obtain rb w1 where b: "rp_bytes env sid w = (rb, w1)" by force
  show ?thesis
  proof (cases rb)
    case (Err x)
    with assms(1,4) b show ?thesis
      by (intro exI [of _ e] exI [of _ "[]"]) (auto simp: report_one_def rp_recorded_def)
  next
    case (Ok c)
    let ?d = "saturating_sub c (ses_cumulative_bytes e)"
    show ?thesis
    proof (cases "bytes_to_mb ?d < min_delta_mb")
      case True
      with assms(1,4) b Ok show ?thesis
        by (intro exI [of _ e] exI [of _ "[]"]) (auto simp: report_one_def rp_recorded_def)
    next
      case False
      let ?now = "rp_now env w1"
      let ?ev = "BandwidthDelta sid (bytes_to_mb ?d) (Some (ses_last_reported_at e)) (Some ?now) (ses_next_sequence e)"
      let ?e = "\<lparr>ses_cumulative_bytes = c, ses_next_sequence = ses_next_sequence e + 1, ses_last_reported_at = ?now\<rparr>"
      obtain w2 where w2: "rp_send env ?ev w1 = (Ok (), w2)" using send unfolding always_sends_def by (metis prod.collapse)
      have c: "unat c < 2 ^ 53" using bound b Ok unfolding bounded_bytes_def by blast
      have "104858 \<le> unat ?d" using False below_threshold_iff by force
      then have gt: "unat (ses_cumulative_bytes e) < unat c" by (simp add: unat_saturating_sub)
      then have "bytes_to_mb ?d = (of_nat (unat c) - of_nat (unat (ses_cumulative_bytes e))) / 1048576"
        using c by (simp add: bytes_to_mb_def unat_saturating_sub round_f64_small of_nat_diff)
      with gt c have "delta_chain sid e [?ev] ?e" by (auto simp: word_less_nat_alt)
      moreover from assms(1,4) b Ok False w2 have "dm_get st' sid = Some ?e" and "l' = l @ [?ev]"
        by (auto simp: report_one_def rp_recorded_def Let_def split: prod.splits)
      ultimately show ?thesis by blast
    qed
  qed
qed

lemma report_run_chain:
  assumes "dm_get st sid = Some e"
    and bound: "bounded_bytes env sid" and send: "always_sends env"
    and "report_run env base sid fs (st, s, w, l) = (st', s', w', l')"
  shows "\<exists>e' evs. dm_get st' sid = Some e' \<and> l' = l @ evs \<and> delta_chain sid e evs e'"
  using assms(1,4)
proof (induction fs arbitrary: st s w l e)
  case Nil
  then show ?case by (intro exI [of _ e] exI [of _ "[]"]) simp
next
  case (Cons f fs)
  obtain r st1 s1 w1 l1 where 1: "report_one (rp_recorded env) base sid (st, s, f w, l) = (r, st1, s1, w1, l1)"
    by (metis prod_cases5)
  from report_one_step [OF Cons.prems(1) bound send 1]
  obtain e1 a where a: "dm_get st1 sid = Some e1" "l1 = l @ a" "delta_chain sid e a e1" by blast
  have "report_run env base sid fs (st1, s1, w1, l1) = (st', s', w', l')"
    using Cons.prems(2) 1 by simp
  from Cons.IH [OF a(1) this]
  obtain e' b where "dm_get st' sid = Some e'" "l' = l1 @ b" "delta_chain sid e1 b e'" by blast
  with a delta_chain_append show ?case by (intro exI [of _ e'] exI [of _ "a @ b"]) auto
qed

fun ev_sequence :: "edge_callback_event \<Rightarrow> u64 option" where
  "ev_sequence (BandwidthDelta _ _ _ _ n) = Some n"
| "ev_sequence _ = None"

fun ev_delta_mb :: "edge_callback_event \<Rightarrow> rat" where
  "ev_delta_mb (BandwidthDelta _ mb _ _ _) = mb"
| "ev_delta_mb _ = 0"

lemma delta_chain_facts:
  "delta_chain sid e evs e' \<Longrightarrow>
     map ev_sequence evs = map (\<lambda>i. Some (ses_next_sequence e + of_nat i)) [0..<length evs]
     \<and> ses_next_sequence e' = ses_next_sequence e + of_nat (length evs)
     \<and> sum_list (map ev_delta_mb evs)
         = (of_nat (unat (ses_cumulative_bytes e')) - of_nat (unat (ses_cumulative_bytes e))) / 1048576"
proof (induction evs arbitrary: e)
  case (Cons ev evs)
  from Cons.prems obtain mb t0 t1 c where ev: "ev = BandwidthDelta sid mb (Some t0) (Some t1) (ses_next_sequence e)"
    and mb: "mb = (of_nat (unat c) - of_nat (unat (ses_cumulative_bytes e))) / 1048576"
    and ch: "delta_chain sid \<lparr>ses_cumulative_bytes = c, ses_next_sequence = ses_next_sequence e + 1,
               ses_last_reported_at = t1\<rparr> evs e'"
    by (auto split: edge_callback_event.splits option.splits)
  have "[0..<length (ev # evs)] = 0 # map Suc [0..<length evs]"
    by (simp add: upt_conv_Cons map_Suc_upt del: upt_Suc)
  with Cons.IH [OF ch] ev mb show ?case
    by (simp add: comp_def algebra_simps diff_divide_distrib del: upt_Suc)
qed simp

section \<open>The first tick after a restart\<close>

lemma seq_remove_any:
  assumes "dir_ok (seq_dir base) s"
  shows "dir_ok (seq_dir base) (snd (seq_remove base i s))
    \<and> (\<forall>j \<in> named_ids. seq_lookup base (snd (seq_remove base i s)) j =
          (if sanitise i = sanitise j then None else seq_lookup base s j))"
proof (cases "i \<in> named_ids")
  case True
  with seq.inv_del [OF assms] seq.lookup_del [OF assms] show ?thesis by (simp add: seq_del_def)
next
  case False
  then have p: "seq_session_path base i = seq_dir base"
    by (simp add: seq_session_path_def seq_dir_def path_join_def named_ids_def)
  have "fs_at s (seq_dir base) = Some Dir" "faults s = []"
    using assms by (auto simp: dir_ok_def)
  then have "snd (seq_remove base i s) = s"
    by (simp add: seq_remove_def dir_remove_def p sys_remove_file_def next_fault_def)
  with assms False show ?thesis by (auto simp: named_ids_def)
qed

lemma forget_ended_spec:
  assumes "dir_ok (seq_dir base) s" and "forget_ended base ids (st, s) = (st', s')"
  shows "dir_ok (seq_dir base) s' \<and> (\<forall>k. dm_get st' k = (if k \<in> set ids then None else dm_get st k))
    \<and> (\<forall>j \<in> named_ids. seq_lookup base s' j =
          (if \<exists>i \<in> set ids. sanitise i = sanitise j then None else seq_lookup base s j))"
  using assms
proof (induction ids arbitrary: st s)
  case (Cons i ids)
  let ?s = "snd (seq_remove base i s)"
  have r: "dir_ok (seq_dir base) ?s" "\<forall>j \<in> named_ids. seq_lookup base ?s j =
          (if sanitise i = sanitise j then None else seq_lookup base s j)"
    using seq_remove_any [OF Cons.prems(1), of i] by blast+
  have "forget_ended base ids (dm_remove i st, ?s) = (st', s')"
    using Cons.prems(2) by simp
  note ih = Cons.IH [OF r(1) this]
  have "dm_get st' k = (if k \<in> set (i # ids) then None else dm_get st k)" for k
    using ih by (cases "k \<in> set ids") auto
  moreover have "seq_lookup base s' j =
      (if \<exists>x \<in> set (i # ids). sanitise x = sanitise j then None else seq_lookup base s j)"
    if "j \<in> named_ids" for j
  proof (cases "\<exists>x \<in> set ids. sanitise x = sanitise j")
    case True
    with ih that show ?thesis by simp
  next
    case False
    with ih that r(2) show ?thesis by simp
  qed
  ultimately show ?case using ih by blast
qed simp

lemma boot_keys:
  assumes "dm_get m k \<noteq> None \<or> dm_get st k \<noteq> None"
  shows "dm_get (fold (\<lambda>(sid, n). dm_insert sid (f n)) m st) k \<noteq> None"
  using assms
proof (induction m arbitrary: st)
  case (Cons x m)
  obtain i n where x: "x = (i, n)" by force
  have "dm_get m k \<noteq> None \<or> dm_get (dm_insert i (f n) st) k \<noteq> None"
    using Cons.prems by (auto simp: x split: if_splits)
  from Cons.IH [OF this] show ?case by (simp add: x)
qed simp

lemma create_dir_all_ok:
  assumes "dir_ok d s" and "sys_create_dir_all d s = (r, s')"
  shows "dir_ok d s' \<and> (\<forall>q. fs_at s' q = fs_at s q)"
  using create_dir_all_noop [OF assms(1)] assms by (auto simp: dir_ok_def)

section \<open>Properties\<close>

text \<open>C13 The reports of a session account for its bytes exactly: over any number of ticks the events
  carry consecutive sequence numbers starting at the session's, and their megabytes add up to
  what the byte counter of the reporter advanced by, nothing reported twice and nothing between
  two reports left out. The SFU's counters stay below \<open>2^53\<close>, and the callback client always
  reports success (as \<open>client_send\<close> does).\<close>

theorem reports_account_for_bytes:
  assumes "dm_get st sid = Some e"
    and "bounded_bytes env sid" and "always_sends env"
    and "report_run env base sid fs (st, s, w, []) = (st', s', w', evs)"
  shows "\<exists>e'. dm_get st' sid = Some e'
    \<and> map ev_sequence evs = map (\<lambda>i. Some (ses_next_sequence e + of_nat i)) [0..<length evs]
    \<and> ses_next_sequence e' = ses_next_sequence e + of_nat (length evs)
    \<and> sum_list (map ev_delta_mb evs)
        = (of_nat (unat (ses_cumulative_bytes e')) - of_nat (unat (ses_cumulative_bytes e))) / 1048576"
proof -
  obtain e' where "dm_get st' sid = Some e'" "delta_chain sid e evs e'"
    using report_run_chain [OF assms] by auto
  with delta_chain_facts show ?thesis by blast
qed

definition demo_reporter :: "nat reporter_env" where
  "demo_reporter =
     \<lparr>rp_active = (\<lambda>w. ([], w)), rp_bytes = (\<lambda>_ w. (Ok (if w = 1 then 200000 else 500000), w)),
      rp_now = (\<lambda>w. int w), rp_send = (\<lambda>_ w. (Ok (), w))\<rparr>"

definition seq_fs :: fs where
  "seq_fs = \<lparr>nodes = [([], Dir), ([''data''], Dir), ([''data'', ''seq''], Dir),
     ([''data'', ''seq'', ''s1''], File ''7'')], faults = []\<rparr>"

lemma reports_account_for_bytes_witness:
  "\<exists>st' s' w' evs e'. report_run demo_reporter [''data''] ''s1'' [\<lambda>w. w + 1, \<lambda>w. w, \<lambda>w. w + 1]
       ([(''s1'', \<lparr>ses_cumulative_bytes = 0, ses_next_sequence = 7, ses_last_reported_at = 0\<rparr>)], seq_fs, 0, [])
       = (st', s', w', evs)
     \<and> dm_get st' ''s1'' = Some e' \<and> map ev_sequence evs = [Some 7, Some 8]
     \<and> sum_list (map ev_delta_mb evs) = 500000 / 1048576"
proof -
  let ?e = "\<lparr>ses_cumulative_bytes = 0, ses_next_sequence = 7, ses_last_reported_at = 0 :: date\<rparr>"
  let ?run = "report_run demo_reporter [''data''] ''s1'' [\<lambda>w. w + 1, \<lambda>w. w, \<lambda>w. w + 1]
       ([(''s1'', ?e)], seq_fs, 0, [])"
  obtain st' s' w' evs where run: "?run = (st', s', w', evs)" by (metis prod_cases4)
  have c: "\<not> bytes_to_mb 200000 < min_delta_mb" "\<not> bytes_to_mb 300000 < min_delta_mb" "bytes_to_mb 0 < min_delta_mb"
    by (simp_all add: below_threshold_iff)
  have "length evs = 2 \<and> dm_get st' ''s1'' = Some \<lparr>ses_cumulative_bytes = 500000,
      ses_next_sequence = 9, ses_last_reported_at = 2\<rparr>"
    using run c
    by (auto simp: report_one_def rp_recorded_def demo_reporter_def Let_def saturating_sub_def
        split: prod.splits)
  moreover have "bounded_bytes demo_reporter ''s1''" "always_sends demo_reporter"
    by (auto simp: bounded_bytes_def always_sends_def demo_reporter_def)
  moreover have "[0..<2] = [0, 1 :: nat]" by (simp add: upt_rec)
  ultimately show ?thesis
    using reports_account_for_bytes [OF _ _ _ run, of ?e] run by auto
qed

text \<open>C39 The sequences do not survive a restart: the first tick of a restarted edge, which fires at once
  and finds no active session yet, drops every sequence that the boot has just read from the
  disk, in memory and on disk, so a session that comes back starts again at sequence 0.\<close>

theorem first_tick_forgets_sequences:
  assumes "dir_ok (seq_dir base) s"
    and "reporter_boot env base ([], s, w) = (st1, s1, w1)"
    and "rp_active env w1 = ([], w2)"
    and "reporter_tick env base (st1, s1, w1) = (st2, s2, w3)"
  shows "st2 = [] \<and> (\<forall>sid \<in> named_ids. seq_lookup base s2 sid = None
    \<and> (seq_lookup base s sid \<noteq> None \<longrightarrow> dm_get st1 (sanitise sid) \<noteq> None))"
proof -
  obtain r s0 where e: "seq_ensure_dir base s = (r, s0)" by force
  have d0: "dir_ok (seq_dir base) s0" and at0: "\<And>q. fs_at s0 q = fs_at s q"
    using create_dir_all_ok [OF assms(1)] e by (auto simp: seq_ensure_dir_def split: prod.splits)
  obtain m where m: "seq_load_all base s0 = (Ok m, s0)"
    and get: "\<And>sid. sid \<in> named_ids \<Longrightarrow> dm_get m (sanitise sid) = seq_lookup base s0 sid"
    using seq_load_all_lookup [OF d0] load_dir_spec [OF d0, of parse_u64]
    by (metis (no_types, lifting) Pair_inject result.inject(1) seq_load_all_def)
  have look: "seq_lookup base s0 sid = seq_lookup base s sid" if "sid \<in> named_ids" for sid
    using seq_lookup_file [OF d0 that] seq_lookup_file [OF assms(1) that] by (simp add: file_value_def at0)
  have b: "st1 = fold (\<lambda>(sid, n). dm_insert sid \<lparr>ses_cumulative_bytes = 0, ses_next_sequence = n,
       ses_last_reported_at = rp_now env w\<rparr>) m []" "s1 = s0"
    using assms(2) e m by (auto simp: reporter_boot_def)
  have f: "forget_ended base (map fst st1) (st1, s1) = (st2, s2)"
    using assms(3,4) by (auto simp: reporter_tick_def split: prod.splits)
  note spec = forget_ended_spec [OF _ f] 
  have "dm_get st2 k = None" for k
    using spec d0 b(2) dm_keys_get [of k st1] by auto
  then have "st2 = []" by (metis map_of_eq_empty_iff ext)
  moreover have "seq_lookup base s2 sid = None \<and> (seq_lookup base s sid \<noteq> None \<longrightarrow> dm_get st1 (sanitise sid) \<noteq> None)"
    if sid: "sid \<in> named_ids" for sid
  proof -
    have k: "seq_lookup base s sid \<noteq> None \<Longrightarrow> dm_get st1 (sanitise sid) \<noteq> None"
      using get [OF sid] look [OF sid] unfolding b(1) by (intro boot_keys) simp
    have "sanitise sid \<in> set (map fst st1)" if "seq_lookup base s sid \<noteq> None"
      using k [OF that] dm_keys_get [of "sanitise sid" st1] by simp
    then have "seq_lookup base s2 sid = None"
      using spec d0 b(2) look [OF sid] sid by (metis sanitise_idem)
    with k show ?thesis by blast
  qed
  ultimately show ?thesis by blast
qed

lemma seq_fs_ok: "dir_ok (seq_dir [''data'']) seq_fs"
  by (auto simp: dir_ok_def seq_dir_def path_join_def seq_fs_def dm_ok_def)

lemma first_tick_forgets_sequences_witness:
  "\<exists>st1 s1 w1 st2 s2 w3. reporter_boot demo_reporter [''data''] ([], seq_fs, 0) = (st1, s1, w1)
     \<and> reporter_tick demo_reporter [''data''] (st1, s1, w1) = (st2, s2, w3)
     \<and> seq_lookup [''data''] seq_fs ''s1'' = Some 7 \<and> st2 = [] \<and> seq_lookup [''data''] s2 ''s1'' = None"
proof -
  obtain st1 s1 w1 where b: "reporter_boot demo_reporter [''data''] ([], seq_fs, 0) = (st1, s1, w1)"
    by (metis prod_cases3)
  obtain st2 s2 w3 where t: "reporter_tick demo_reporter [''data''] (st1, s1, w1) = (st2, s2, w3)"
    by (metis prod_cases3)
  have id: "sanitise ''s1'' = ''s1''"
    by (simp add: sanitise_def safe_char_def is_ascii_alphanumeric_def is_digit_def less_eq_char_def)
  then have n: "''s1'' \<in> named_ids" by (simp add: named_ids_def)
  have "parse_u64 (to_dec (unat (7 :: u64))) = Some 7" by (rule parse_u64_to_dec)
  moreover have "to_dec (unat (7 :: u64)) = ''7''" by code_simp
  ultimately have "parse_u64 ''7'' = Some 7" by simp
  then have "seq_lookup [''data''] seq_fs ''s1'' = Some 7"
    by (simp add: seq_lookup_file [OF seq_fs_ok n] id)
      (simp add: file_value_def seq_fs_def seq_dir_def path_join_def)
  moreover have "rp_active demo_reporter w1 = ([], w1)" by (simp add: demo_reporter_def)
  ultimately show ?thesis
    using first_tick_forgets_sequences [OF seq_fs_ok b _ t] b t n by blast
qed

end
