(* ===== verification/PortAllocator.thy ===== *)
theory PortAllocator
  imports SharedTypes
begin

text \<open>
  \<open>edge-rathole-bridge/src/port_allocator.rs\<close>: the pool of local upstream ports 11000 to 11999.
  The \<open>BTreeSet<u16>\<close> of free ports is a sorted list without duplicates; the mutex makes each
  operation one step.
\<close>

definition port_min :: u16 where "port_min = 11000"

definition port_max :: u16 where "port_max = 11999"

type_synonym port_pool = "u16 list"

definition port_allocator_new :: port_pool where
  "port_allocator_new = map word_of_nat [unat port_min..<Suc (unat port_max)]"

fun allocate :: "port_pool \<Rightarrow> u16 edge_result \<times> port_pool" where
  "allocate [] = (Err PortPoolExhausted, [])"
| "allocate (p # free) = (Ok p, free)"

definition release_port :: "u16 \<Rightarrow> port_pool \<Rightarrow> port_pool" where
  "release_port p free = (if port_min \<le> p \<and> p \<le> port_max then insort_insert p free else free)"

section \<open>The contract of a pool\<close>

text \<open>
  What the tunnel routes rely on. \<open>alloc\<close> and \<open>release\<close> act on the set \<open>free\<close> of available
  resources out of \<open>universe\<close>.
\<close>

datatype 'p pool_op = Take | Give 'p

definition pool_step ::
  "('s \<Rightarrow> ('p, 'e) result \<times> 's) \<Rightarrow> ('p \<Rightarrow> 's \<Rightarrow> 's) \<Rightarrow> 'p pool_op \<Rightarrow> 's \<times> 'p list \<Rightarrow> 's \<times> 'p list" where
  "pool_step alloc release op = (\<lambda>(s, held). case op of
     Take \<Rightarrow> (case alloc s of (Ok p, s) \<Rightarrow> (s, p # held) | (Err _, s) \<Rightarrow> (s, held))
   | Give p \<Rightarrow> if p \<in> set held then (release p s, remove1 p held) else (s, held))"

locale resource_pool =
  fixes inv :: "'s \<Rightarrow> bool" and free :: "'s \<Rightarrow> 'p set" and universe :: "'p set"
    and alloc :: "'s \<Rightarrow> ('p, 'e) result \<times> 's" and release :: "'p \<Rightarrow> 's \<Rightarrow> 's"
  assumes finite_universe: "finite universe"
    and inv_free: "inv s \<Longrightarrow> free s \<subseteq> universe"
    and alloc_Ok: "inv s \<Longrightarrow> alloc s = (Ok p, s') \<Longrightarrow> inv s' \<and> p \<in> free s \<and> free s' = free s - {p}"
    and alloc_Err: "inv s \<Longrightarrow> alloc s = (Err e, s') \<Longrightarrow> s' = s \<and> free s = {}"
    and release: "inv s \<Longrightarrow> p \<in> universe \<Longrightarrow> inv (release p s) \<and> free (release p s) = insert p (free s)"
begin

text \<open>The free and the held resources partition the universe, and none is held twice.\<close>

definition partitioned :: "'s \<times> 'p list \<Rightarrow> bool" where
  "partitioned sh \<longleftrightarrow> inv (fst sh) \<and> distinct (snd sh) \<and> set (snd sh) \<inter> free (fst sh) = {}
     \<and> set (snd sh) \<union> free (fst sh) = universe"

lemma partitioned_step:
  assumes "partitioned sh"
  shows "partitioned (pool_step alloc release op sh)"
proof -
  obtain s held where sh: "sh = (s, held)" by force
  show ?thesis
  proof (cases op)
    case Take
    obtain r s' where a: "alloc s = (r, s')" by force
    with assms alloc_Ok [of s _ s'] alloc_Err [of s _ s'] show ?thesis
      by (cases r) (auto simp: sh Take pool_step_def partitioned_def)
  next
    case (Give p)
    with assms release [of s p] show ?thesis
      by (auto simp: sh pool_step_def partitioned_def)
  qed
qed

lemma partitioned_run: "partitioned sh \<Longrightarrow> partitioned (fold (pool_step alloc release) ops sh)"
  by (induction ops arbitrary: sh) (simp_all add: partitioned_step)

lemma held_count: "partitioned (s, held) \<Longrightarrow> length held + card (free s) = card universe"
proof -
  assume p: "partitioned (s, held)"
  then have "finite (free s)" using finite_universe inv_free
    by (auto simp: partitioned_def intro: finite_subset)
  then have "card (set held \<union> free s) = card (set held) + card (free s)"
    using p by (intro card_Un_disjoint) (auto simp: partitioned_def)
  with p show ?thesis by (simp add: partitioned_def distinct_card)
qed

lemma alloc_fails_iff_full:
  assumes "partitioned (s, held)"
  shows "(\<exists>e s'. alloc s = (Err e, s')) \<longleftrightarrow> length held = card universe"
proof -
  obtain r s' where a: "alloc s = (r, s')" by force
  have inv: "inv s" and fin: "finite (free s)"
    using assms finite_universe inv_free by (auto simp: partitioned_def intro: finite_subset)
  show ?thesis
  proof (cases r)
    case (Ok p)
    with a alloc_Ok [OF inv] have "card (free s) \<noteq> 0" using fin by auto
    with held_count [OF assms] a Ok show ?thesis by auto
  next
    case (Err e)
    with a alloc_Err [OF inv] have "card (free s) = 0" by auto
    with held_count [OF assms] a Err show ?thesis by auto
  qed
qed

end

section \<open>The pool of the code\<close>

definition pool_ok :: "port_pool \<Rightarrow> bool" where
  "pool_ok free \<longleftrightarrow> sorted free \<and> distinct free \<and> set free \<subseteq> {port_min..port_max}"

interpretation ports: resource_pool pool_ok set "{port_min..port_max}" allocate release_port
proof unfold_locales
  show "finite {port_min..port_max}" by simp
  fix s s' :: port_pool and p :: u16 and e :: edge_error
  show "set s \<subseteq> {port_min..port_max}" if "pool_ok s" using that by (simp add: pool_ok_def)
  show "pool_ok s' \<and> p \<in> set s \<and> set s' = set s - {p}" if "pool_ok s" "allocate s = (Ok p, s')"
    using that by (cases s) (auto simp: pool_ok_def)
  show "s' = s \<and> set s = {}" if "pool_ok s" "allocate s = (Err e, s')"
    using that by (cases s) auto
  show "pool_ok (release_port p s) \<and> set (release_port p s) = insert p (set s)"
    if "pool_ok s" "p \<in> {port_min..port_max}"
    using that by (auto simp: pool_ok_def release_port_def set_insort_insert sorted_insort_insert distinct_insort_insert)
qed

lemma unat_of_nat_le: "n \<le> unat (b :: 'a::len word) \<Longrightarrow> unat (word_of_nat n :: 'a word) = n"
proof -
  assume "n \<le> unat b"
  then have "n < 2 ^ LENGTH('a)" using unsigned_less [of b] by (rule le_less_trans)
  then show ?thesis by (simp add: unsigned_of_nat take_bit_nat_eq_self)
qed

lemma word_range_image: "{a..b :: 'a::len word} = word_of_nat ` {unat a..unat b}"
proof (intro equalityI subsetI)
  fix p assume "p \<in> {a..b}"
  then have "unat p \<in> {unat a..unat b}" by (simp add: word_le_nat_alt)
  then show "p \<in> word_of_nat ` {unat a..unat b}" by (rule rev_image_eqI) simp
next
  fix p :: "'a word" assume "p \<in> word_of_nat ` {unat a..unat b}"
  then show "p \<in> {a..b}" by (auto simp: word_le_nat_alt unat_of_nat_le)
qed

lemma inj_word_range: "inj_on (word_of_nat :: nat \<Rightarrow> 'a::len word) {unat a..unat (b :: 'a word)}"
  by (rule inj_on_inverseI [of _ unat]) (simp add: unat_of_nat_le [of _ b])

lemma port_range_card: "card {port_min..port_max} = 1000"
proof -
  have "card {port_min..port_max} = card {unat port_min..unat port_max}"
    unfolding word_range_image by (rule card_image [OF inj_word_range])
  then show ?thesis by (simp add: port_min_def port_max_def)
qed

lemma port_allocator_new_set: "set port_allocator_new = {port_min..port_max}"
  by (simp add: port_allocator_new_def word_range_image atLeastLessThanSuc_atLeastAtMost del: upt_Suc)

lemma port_allocator_new_ok: "ports.partitioned (port_allocator_new, [])"
proof -
  have "sorted_wrt (\<lambda>m n. (word_of_nat m :: u16) \<le> word_of_nat n) [unat port_min..<Suc (unat port_max)]"
    by (rule sorted_wrt_mono_rel [of _ "(<)"])
      (auto simp: word_le_nat_alt unat_of_nat_le [of _ port_max] simp del: upt_Suc)
  moreover have "distinct port_allocator_new"
    using inj_word_range [of port_min port_max]
    by (simp add: port_allocator_new_def distinct_map atLeastLessThanSuc_atLeastAtMost del: upt_Suc)
  ultimately have "pool_ok port_allocator_new"
    using port_allocator_new_set
    by (simp add: pool_ok_def port_allocator_new_def sorted_wrt_map del: upt_Suc)
  then show ?thesis by (simp add: ports.partitioned_def port_allocator_new_set)
qed

section \<open>Properties\<close>

text \<open>A port is never handed out twice: after any sequence of allocations and releases of ports that
  are held, the next allocation succeeds exactly while fewer than 1000 ports are held, and then
  gives a port of the range that nobody holds.\<close>

lemma port_alloc_exclusive:
  assumes "fold (pool_step allocate release_port) ops (port_allocator_new, []) = (s, held)"
  shows "case allocate s of
      (Ok p, s') \<Rightarrow> length held < 1000 \<and> p \<notin> set held \<and> port_min \<le> p \<and> p \<le> port_max
    | (Err e, s') \<Rightarrow> length held = 1000 \<and> e = PortPoolExhausted"
proof -
  have part: "ports.partitioned (s, held)"
    using ports.partitioned_run [OF port_allocator_new_ok, of ops] assms by simp
  note count = ports.held_count [OF part] ports.alloc_fails_iff_full [OF part]
  obtain r s' where a: "allocate s = (r, s')" by force
  show ?thesis
  proof (cases r)
    case (Ok p)
    then have "p \<in> set s" using a by (cases s) auto
    moreover have "length held \<noteq> 1000" using count(2) a Ok port_range_card by auto
    ultimately show ?thesis
      using count(1) a Ok part port_range_card by (auto simp: ports.partitioned_def pool_ok_def)
  next
    case (Err e)
    with a have "e = PortPoolExhausted" by (cases s) auto
    with count(2) a Err port_range_card show ?thesis by auto
  qed
qed

lemma port_allocator_new_Cons:
  "port_allocator_new = 11000 # 11001 # map word_of_nat [Suc (Suc (unat port_min))..<Suc (unat port_max)]"
proof -
  have "unat port_min < Suc (unat port_max)" "Suc (unat port_min) < Suc (unat port_max)"
    by (simp_all add: port_min_def port_max_def)
  then have "port_allocator_new = word_of_nat (unat port_min) # word_of_nat (Suc (unat port_min))
      # map word_of_nat [Suc (Suc (unat port_min))..<Suc (unat port_max)]"
    unfolding port_allocator_new_def by (simp only: upt_conv_Cons list.map)
  then show ?thesis by (simp add: port_min_def)
qed

lemma port_alloc_exclusive_witness:
  "\<exists>s. fold (pool_step allocate release_port) [Take, Take] (port_allocator_new, []) = (s, [11001, 11000])
     \<and> (case allocate s of
          (Ok p, s') \<Rightarrow> length [11001, 11000 :: u16] < 1000 \<and> p \<notin> set [11001, 11000]
             \<and> port_min \<le> p \<and> p \<le> port_max
        | (Err e, s') \<Rightarrow> length [11001, 11000 :: u16] = 1000 \<and> e = PortPoolExhausted)"
proof -
  obtain s where new: "port_allocator_new = 11000 # 11001 # s"
    using port_allocator_new_Cons by blast
  have run: "fold (pool_step allocate release_port) [Take, Take] (port_allocator_new, []) = (s, [11001, 11000])"
    unfolding new by (simp only: fold.simps comp_apply pool_step_def case_prod_conv pool_op.case allocate.simps result.case id_apply)
  show ?thesis by (intro exI [of _ s] conjI run port_alloc_exclusive [OF run])
qed

end
