(* ===== verification/Rathole.thy ===== *)
theory Rathole
  imports SharedTypes Fs
begin

text \<open>
  \<open>edge-rathole-bridge\<close>: \<open>config_writer.rs\<close> renders the services as the server's TOML file and
  replaces it; \<open>service_registry.rs\<close> keeps the services in memory, rewrites the file on every
  change and asks rathole to reload. The TOML encoder, the process environment, \<open>kill\<close> and the
  execution of a command are parameters.
\<close>

section \<open>The configuration file\<close>

record service_entry =
  se_token :: string
  se_bind_addr :: string
  se_type :: "string option"

record server_config =
  sc_bind_addr :: string
  sc_services :: "(string \<times> service_entry) list"

record rathole_config =
  rc_server :: server_config

type_synonym toml_enc = "rathole_config \<Rightarrow> (string, string) result"

definition service_entry_of :: "rathole_service \<Rightarrow> string \<times> service_entry" where
  "service_entry_of s =
     (let service_type = (case rs_transport s of
            None \<Rightarrow> None
          | Some Tcp \<Rightarrow> None
          | Some Udp \<Rightarrow> Some ''udp'')
      in (rs_name s, \<lparr>se_token = rs_token_hash s, se_bind_addr = rs_bind_addr s, se_type = service_type\<rparr>))"

definition render_toml :: "toml_enc \<Rightarrow> string \<Rightarrow> rathole_service list \<Rightarrow> string edge_result" where
  "render_toml enc server_bind services =
     (let m = btree (map service_entry_of services);
          cfg = \<lparr>rc_server = \<lparr>sc_bind_addr = server_bind, sc_services = m\<rparr>\<rparr>
      in map_err (\<lambda>e. Config (''toml encode: '' @ e)) (enc cfg))"

definition config_atomic_write :: "path \<Rightarrow> string \<Rightarrow> fs \<Rightarrow> unit edge_result \<times> fs" where
  "config_atomic_write p c s =
     (case path_parent p of
        None \<Rightarrow> (Err (Config ''config path has no parent''), s)
      | Some _ \<Rightarrow>
          (case file_name p of
             None \<Rightarrow> (Err (Config ''config path has no file name''), s)
           | Some _ \<Rightarrow> (case write_tmp_and_rename p c s of (r, s) \<Rightarrow> (map_err (\<lambda>_. Io) r, s))))"

section \<open>Reloading rathole\<close>

record 'w host =
  h_env :: "string \<Rightarrow> string option"
  h_kill :: "int \<Rightarrow> ('w, bool) io"
  h_exec :: "string \<Rightarrow> string list \<Rightarrow> ('w, (bool, io_error) result) io"

definition parse_i32 :: "string \<Rightarrow> int option" where
  "parse_i32 s =
     (case s of
        CHR ''-'' # r \<Rightarrow>
          if r \<noteq> [] \<and> list_all is_digit r
          then map_option (\<lambda>n. - int n) (parse_digits (2 ^ 31) 0 r) else None
      | _ \<Rightarrow> map_option int (parse_uint (2 ^ 31 - 1) s))"

definition reload_via_pid_file :: "'w host \<Rightarrow> path \<Rightarrow> fs \<times> 'w \<Rightarrow> unit edge_result \<times> fs \<times> 'w" where
  "reload_via_pid_file h pid_file = (\<lambda>(s, w).
     case sys_read_to_string pid_file s of
       (Err _, s) \<Rightarrow> (Err Io, s, w)
     | (Ok pid_str, s) \<Rightarrow>
         (case parse_i32 (trim pid_str) of
            None \<Rightarrow> (Err (Config ''invalid pid file''), s, w)
          | Some pid \<Rightarrow>
              (case h_kill h pid w of
                 (ok, w) \<Rightarrow> if \<not> ok then (Err (Config ''kill SIGHUP failed''), s, w) else (Ok (), s, w))))"

definition reload_via_command :: "'w host \<Rightarrow> string \<Rightarrow> 'w \<Rightarrow> unit edge_result \<times> 'w" where
  "reload_via_command h cmd w =
     (case split_whitespace cmd of
        [] \<Rightarrow> (Err (Config ''RATHOLE_RELOAD_CMD is empty''), w)
      | exe # args \<Rightarrow>
          (case h_exec h exe args w of
             (Err _, w) \<Rightarrow> (Err Io, w)
           | (Ok success, w) \<Rightarrow>
               if \<not> success then (Err (Config ''rathole reload command exited non-zero''), w)
               else (Ok (), w)))"

definition trigger_reload :: "'w host \<Rightarrow> fs \<times> 'w \<Rightarrow> unit edge_result \<times> fs \<times> 'w" where
  "trigger_reload h = (\<lambda>(s, w).
     case h_env h ''RATHOLE_PID_FILE'' of
       Some pid_file \<Rightarrow> reload_via_pid_file h (filter (\<lambda>p. p \<noteq> []) (split_on CHR ''/'' pid_file)) (s, w)
     | None \<Rightarrow>
         (case h_env h ''RATHOLE_RELOAD_CMD'' of
            Some cmd \<Rightarrow> (case reload_via_command h cmd w of (r, w) \<Rightarrow> (r, s, w))
          | None \<Rightarrow> (Ok (), s, w)))"

section \<open>The registry\<close>

record registry =
  sr_services :: "(session_id, rathole_service) dashmap"
  sr_config_path :: path
  sr_server_bind :: string

definition default_server_bind :: string where
  "default_server_bind = ''0.0.0.0:2333''"

definition registry_new :: "'w host \<Rightarrow> path \<Rightarrow> registry" where
  "registry_new h config_path =
     \<lparr>sr_services = [], sr_config_path = config_path,
      sr_server_bind = (case h_env h ''RATHOLE_SERVER_BIND'' of Some b \<Rightarrow> b | None \<Rightarrow> default_server_bind)\<rparr>"

definition registry_list :: "registry \<Rightarrow> rathole_service list" where
  "registry_list r = map snd (sr_services r)"

definition persist_and_reload ::
  "toml_enc \<Rightarrow> 'w host \<Rightarrow> registry \<Rightarrow> fs \<times> 'w \<Rightarrow> unit edge_result \<times> fs \<times> 'w" where
  "persist_and_reload enc h r = (\<lambda>(s, w).
     let services = map snd (sr_services r) in
     case render_toml enc (sr_server_bind r) services of
       Err e \<Rightarrow> (Err e, s, w)
     | Ok toml \<Rightarrow>
         (case config_atomic_write (sr_config_path r) toml s of
            (Err e, s) \<Rightarrow> (Err e, s, w)
          | (Ok _, s) \<Rightarrow> (case trigger_reload h (s, w) of (_, s, w) \<Rightarrow> (Ok (), s, w))))"

definition registry_register ::
  "toml_enc \<Rightarrow> 'w host \<Rightarrow> rathole_service \<Rightarrow> registry \<times> fs \<times> 'w \<Rightarrow> unit edge_result \<times> registry \<times> fs \<times> 'w" where
  "registry_register enc h svc = (\<lambda>(r, sw).
     let r = r\<lparr>sr_services := dm_insert (rs_name svc) svc (sr_services r)\<rparr>
     in (case persist_and_reload enc h r sw of (res, sw) \<Rightarrow> (res, r, sw)))"

definition registry_deregister ::
  "toml_enc \<Rightarrow> 'w host \<Rightarrow> session_id \<Rightarrow> registry \<times> fs \<times> 'w \<Rightarrow> unit edge_result \<times> registry \<times> fs \<times> 'w" where
  "registry_deregister enc h sid = (\<lambda>(r, sw).
     let r = r\<lparr>sr_services := dm_remove sid (sr_services r)\<rparr>
     in (case persist_and_reload enc h r sw of (res, sw) \<Rightarrow> (res, r, sw)))"

definition registry_update_token ::
  "toml_enc \<Rightarrow> 'w host \<Rightarrow> session_id \<Rightarrow> string \<Rightarrow> registry \<times> fs \<times> 'w
   \<Rightarrow> bool edge_result \<times> registry \<times> fs \<times> 'w" where
  "registry_update_token enc h sid raw_token = (\<lambda>(r, sw).
     case dm_get (sr_services r) sid of
       None \<Rightarrow> (Ok False, r, sw)
     | Some svc \<Rightarrow>
         (let r = r\<lparr>sr_services := dm_insert sid (svc\<lparr>rs_token_hash := raw_token\<rparr>) (sr_services r)\<rparr>
          in (case persist_and_reload enc h r sw of
                (Err e, sw) \<Rightarrow> (Err e, r, sw)
              | (Ok _, sw) \<Rightarrow> (Ok True, r, sw))))"

section \<open>Rendering does not depend on the iteration order\<close>

lemma render_toml_perm:
  assumes "distinct (map rs_name xs)" and "distinct (map rs_name ys)" and "set xs = set ys"
  shows "render_toml enc b xs = render_toml enc b ys"
proof -
  have d: "distinct (map fst (rev (map service_entry_of zs)))" if "distinct (map rs_name zs)" for zs
    using that by (simp add: rev_map [symmetric] service_entry_of_def comp_def Let_def)
  have "map_of (rev (map service_entry_of xs)) = map_of (rev (map service_entry_of ys))"
    using assms(3) by (subst map_of_inject_set [OF d d]) (simp_all add: assms(1,2))
  then have "btree (map service_entry_of xs) = btree (map service_entry_of ys)"
    by (rule btree_cong)
  then show ?thesis by (simp add: render_toml_def)
qed

text \<open>The registry's keys are the names of its services.\<close>

definition registry_ok :: "registry \<Rightarrow> bool" where
  "registry_ok r \<longleftrightarrow> dm_ok (sr_services r) \<and> (\<forall>k svc. dm_get (sr_services r) k = Some svc \<longrightarrow> rs_name svc = k)"

lemma registry_ok_names: "registry_ok r \<Longrightarrow> distinct (map rs_name (registry_list r))"
proof -
  assume "registry_ok r"
  then have "map rs_name (registry_list r) = map fst (sr_services r)" "dm_ok (sr_services r)"
    by (auto simp: registry_ok_def registry_list_def dm_ok_def)
  then show ?thesis by (simp add: dm_ok_def)
qed

section \<open>One change and a sequence of changes\<close>

datatype reg_op = Register rathole_service | Deregister session_id | UpdateToken session_id string

definition reg_step ::
  "toml_enc \<Rightarrow> 'w host \<Rightarrow> reg_op \<Rightarrow> registry \<times> fs \<times> 'w \<Rightarrow> bool edge_result \<times> registry \<times> fs \<times> 'w" where
  "reg_step enc h op st =
     (case op of
        Register svc \<Rightarrow>
          (case registry_register enc h svc st of (Ok _, st) \<Rightarrow> (Ok True, st) | (Err e, st) \<Rightarrow> (Err e, st))
      | Deregister sid \<Rightarrow>
          (case registry_deregister enc h sid st of (Ok _, st) \<Rightarrow> (Ok True, st) | (Err e, st) \<Rightarrow> (Err e, st))
      | UpdateToken sid tok \<Rightarrow> registry_update_token enc h sid tok st)"

definition reg_run :: "toml_enc \<Rightarrow> 'w host \<Rightarrow> reg_op list \<Rightarrow> registry \<times> fs \<times> 'w \<Rightarrow> registry \<times> fs \<times> 'w" where
  "reg_run enc h = fold (\<lambda>op st. snd (reg_step enc h op st))"

lemma registry_ok_insert:
  "registry_ok r \<Longrightarrow> rs_name svc = k \<Longrightarrow> registry_ok (r\<lparr>sr_services := dm_insert k svc (sr_services r)\<rparr>)"
  by (simp add: registry_ok_def)

lemma registry_ok_remove:
  "registry_ok r \<Longrightarrow> registry_ok (r\<lparr>sr_services := dm_remove k (sr_services r)\<rparr>)"
  by (simp add: registry_ok_def)

lemma registry_ok_get: "registry_ok r \<Longrightarrow> dm_get (sr_services r) k = Some svc \<Longrightarrow> rs_name svc = k"
  by (simp add: registry_ok_def)

text \<open>The services in memory after a step: the file and the reload have no part in them.\<close>

definition reg_services :: "reg_op \<Rightarrow> registry \<Rightarrow> registry" where
  "reg_services op r =
     (case op of
        Register svc \<Rightarrow> r\<lparr>sr_services := dm_insert (rs_name svc) svc (sr_services r)\<rparr>
      | Deregister sid \<Rightarrow> r\<lparr>sr_services := dm_remove sid (sr_services r)\<rparr>
      | UpdateToken sid tok \<Rightarrow>
          (case dm_get (sr_services r) sid of
             None \<Rightarrow> r
           | Some svc \<Rightarrow> r\<lparr>sr_services := dm_insert sid (svc\<lparr>rs_token_hash := tok\<rparr>) (sr_services r)\<rparr>))"

lemma reg_step_services: "fst (snd (reg_step enc h op (r, s, w))) = reg_services op r"
  by (cases op) (auto simp: reg_step_def reg_services_def registry_register_def registry_deregister_def
      registry_update_token_def Let_def split: prod.splits result.splits option.splits)

lemma reg_services_ok: "registry_ok r \<Longrightarrow> registry_ok (reg_services op r)"
  by (cases op) (auto simp: reg_services_def registry_ok_insert registry_ok_remove registry_ok_get
      split: option.splits)

lemma reg_services_fields [simp]:
  "sr_config_path (reg_services op r) = sr_config_path r"
  "sr_server_bind (reg_services op r) = sr_server_bind r"
  by (cases op; simp add: reg_services_def split: option.split)+

lemma reg_run_ok:
  "registry_ok r \<Longrightarrow> reg_run enc h ops (r, s, w) = (r', s', w') \<Longrightarrow>
     registry_ok r' \<and> sr_config_path r' = sr_config_path r"
proof (induction ops arbitrary: r s w)
  case (Cons op ops)
  obtain r1 s1 w1 where st: "snd (reg_step enc h op (r, s, w)) = (r1, s1, w1)" by (metis prod_cases3)
  then have "r1 = reg_services op r" using reg_step_services [of enc h op r s w] by simp
  with Cons.IH [of r1 s1 w1] Cons.prems st show ?case by (simp add: reg_run_def reg_services_ok)
qed (simp add: reg_run_def)

lemma trigger_reload_nodes: "trigger_reload h (s, w) = (r, s', w') \<Longrightarrow> nodes s' = nodes s"
  by (auto simp: trigger_reload_def reload_via_pid_file_def sys_read_to_string_def dest!: next_fault_nodes
      split: option.splits prod.splits result.splits if_splits fault.splits node.splits)

text \<open>A successful write leaves the rendered services in the file.\<close>

lemma persist_and_reload_Ok:
  assumes "persist_and_reload enc h r (s, w) = (Ok (), s', w')" and "sr_config_path r \<noteq> []"
  shows "\<exists>toml. render_toml enc (sr_server_bind r) (registry_list r) = Ok toml
           \<and> fs_at s' (sr_config_path r) = Some (File toml)"
proof -
  obtain toml s1 where t: "render_toml enc (sr_server_bind r) (registry_list r) = Ok toml"
    and c: "config_atomic_write (sr_config_path r) toml s = (Ok (), s1)"
    and n: "nodes s' = nodes s1"
    using assms(1) trigger_reload_nodes
    by (fastforce simp: persist_and_reload_def registry_list_def Let_def
        split: prod.splits result.splits)
  have "write_tmp_and_rename (sr_config_path r) toml s = (Ok (), s1)"
    using c assms(2)
    by (auto simp: config_atomic_write_def path_parent_def file_name_def split: prod.splits)
  from triple_Ok [OF write_tmp_and_rename_triple [OF assms(2)] _ this] t n show ?thesis by auto
qed

section \<open>Properties\<close>

text \<open>C24 The configuration file follows the registry: after any sequence of changes, a change that
  reports that it wrote leaves in the file the rendering of exactly the services then registered,
  whatever the order in which the map is iterated, and whatever becomes of the reload.\<close>

theorem registry_file_in_sync:
  assumes "reg_run enc h ops (registry_new h p, s0, w0) = (r, s, w)" and "p \<noteq> []"
    and "reg_step enc h op (r, s, w) = (Ok True, r', s', w')"
    and "set svcs = set (registry_list r')" and "distinct (map rs_name svcs)"
  shows "\<exists>toml. render_toml enc (sr_server_bind r') svcs = Ok toml \<and> fs_at s' p = Some (File toml)"
proof -
  have ok: "registry_ok r" and p: "sr_config_path r = p"
    using reg_run_ok [OF _ assms(1)] by (auto simp: registry_new_def registry_ok_def)
  have r': "r' = reg_services op r"
    using reg_step_services [of enc h op r s w] assms(3) by simp
  have "persist_and_reload enc h r' (s, w) = (Ok (), s', w')"
    using assms(3)
    by (cases op) (auto simp: reg_step_def registry_register_def registry_deregister_def
        registry_update_token_def Let_def split: prod.splits result.splits option.splits)
  from persist_and_reload_Ok [OF this] p assms(2) r'
  obtain toml where t: "render_toml enc (sr_server_bind r') (registry_list r') = Ok toml"
    "fs_at s' p = Some (File toml)" by auto
  have "render_toml enc (sr_server_bind r') svcs = render_toml enc (sr_server_bind r') (registry_list r')"
    by (rule render_toml_perm) (use assms(4,5) registry_ok_names [OF reg_services_ok [OF ok]] r' in auto)
  with t show ?thesis by auto
qed

definition demo_enc :: toml_enc where
  "demo_enc cfg = Ok (concat (map (\<lambda>(k, e). k @ ''='' @ se_token e @ '';'') (sc_services (rc_server cfg))))"

definition quiet_host :: "unit host" where
  "quiet_host = \<lparr>h_env = (\<lambda>_. None), h_kill = (\<lambda>_ w. (True, w)), h_exec = (\<lambda>_ _ w. (Ok True, w))\<rparr>"

definition demo_service :: "string \<Rightarrow> string \<Rightarrow> rathole_service" where
  "demo_service n t = \<lparr>rs_name = n, rs_token_hash = t, rs_bind_addr = ''0.0.0.0:11000'', rs_transport = None\<rparr>"

lemma registry_file_in_sync_witness:
  "\<exists>r s w r' s' w'. reg_run demo_enc quiet_host [Register (demo_service ''b'' ''1''), Register (demo_service ''a'' ''2'')]
       (registry_new quiet_host [''r.toml''], \<lparr>nodes = [([], Dir)], faults = []\<rparr>, ()) = (r, s, w)
     \<and> reg_step demo_enc quiet_host (UpdateToken ''b'' ''3'') (r, s, w) = (Ok True, r', s', w')
     \<and> fs_at s' [''r.toml''] = Some (File ''a=2;b=3;'')"
proof -
  let ?svcs = "[demo_service ''a'' ''2'', demo_service ''b'' ''3'']"
  note defs = reg_run_def reg_step_def registry_register_def registry_update_token_def
    persist_and_reload_def registry_new_def config_atomic_write_def path_parent_def file_name_def
    write_tmp_and_rename_def then_io_def remove_if_exists_def fs_defs tmp_path_def trigger_reload_def
    render_toml_def demo_enc_def quiet_host_def demo_service_def service_entry_of_def btree_def
    registry_list_def
  obtain r s w where 1: "reg_run demo_enc quiet_host
       [Register (demo_service ''b'' ''1''), Register (demo_service ''a'' ''2'')]
       (registry_new quiet_host [''r.toml''], \<lparr>nodes = [([], Dir)], faults = []\<rparr>, ()) = (r, s, w)"
    by (metis prod_cases3)
  then have rs: "(r, s, w) = (\<lparr>sr_services = [(''b'', demo_service ''b'' ''1''), (''a'', demo_service ''a'' ''2'')],
       sr_config_path = [''r.toml''], sr_server_bind = default_server_bind\<rparr>,
       \<lparr>nodes = [([], Dir), ([''r.toml''], File ''a=2;b=1;'')], faults = []\<rparr>, ())"
    by (simp add: defs)
  obtain r' s' w' where 2: "reg_step demo_enc quiet_host (UpdateToken ''b'' ''3'') (r, s, w) = (Ok True, r', s', w')"
    and l: "set ?svcs = set (registry_list r')"
    unfolding rs by (simp add: defs) blast
  have "render_toml demo_enc (sr_server_bind r') ?svcs = Ok ''a=2;b=3;''"
    by (simp add: defs)
  with registry_file_in_sync [OF 1 _ 2 l] 1 2 show ?thesis
    by (simp add: demo_service_def)
qed

text \<open>Rotating a token changes the token of that one service and nothing else; for a session that is
  not registered it reports so and neither writes the file nor reloads.\<close>

lemma update_token_exact:
  "case reg_step enc h (UpdateToken sid tok) (r, s, w) of (res, r', s', w') \<Rightarrow>
     (case dm_get (sr_services r) sid of
        None \<Rightarrow> res = Ok False \<and> r' = r \<and> s' = s \<and> w' = w
      | Some svc \<Rightarrow> res \<noteq> Ok False
          \<and> (\<forall>k. dm_get (sr_services r') k =
                (if k = sid then Some (svc\<lparr>rs_token_hash := tok\<rparr>) else dm_get (sr_services r) k)))"
  by (auto simp: reg_step_def registry_update_token_def Let_def split: option.splits prod.splits result.splits)

end
