(* ===== verification/SfuTransport.thy ===== *)
theory SfuTransport
  imports RustStr
begin

text \<open>
  \<open>edge-sfu/src/transport.rs\<close>: the listen configuration of the SFU from its environment, the
  options of the transports, and the RTP parameters of the two producers. \<open>IpAddr\<close>'s parser is
  the parameter \<open>parse_ip\<close>, an address being its canonical text.
\<close>

definition default_rtc_min_port :: u16 where "default_rtc_min_port = 50000"
definition default_rtc_max_port :: u16 where "default_rtc_max_port = 60000"
definition default_plain_rtp_min_port :: u16 where "default_plain_rtp_min_port = 5000"
definition default_plain_rtp_max_port :: u16 where "default_plain_rtp_max_port = 9999"

definition plain_payload_type :: u8 where "plain_payload_type = 96"
definition plain_clock_rate :: u32 where "plain_clock_rate = 90000"
definition plain_low_ssrc :: u32 where "plain_low_ssrc = 22222220"
definition plain_mid_ssrc :: u32 where "plain_mid_ssrc = 22222221"
definition plain_high_ssrc :: u32 where "plain_high_ssrc = 22222222"
definition plain_ssrc :: u32 where "plain_ssrc = plain_high_ssrc"
definition plain_low_max_bitrate :: u32 where "plain_low_max_bitrate = 1000000"
definition plain_mid_max_bitrate :: u32 where "plain_mid_max_bitrate = 2500000"
definition plain_high_max_bitrate :: u32 where "plain_high_max_bitrate = 4000000"
definition plain_audio_payload_type :: u8 where "plain_audio_payload_type = 111"
definition plain_audio_clock_rate :: u32 where "plain_audio_clock_rate = 48000"
definition plain_audio_ssrc :: u32 where "plain_audio_ssrc = 22222223"

section \<open>The listen configuration\<close>

type_synonym ip = string

record router_listen_info =
  li_listen_ip :: ip
  li_announced_ip :: ip
  li_lan_announced_ip :: "ip option"
  li_rtc_min_port :: u16
  li_rtc_max_port :: u16
  li_plain_rtp_min_port :: u16
  li_plain_rtp_max_port :: u16

type_synonym env = "string \<Rightarrow> string option"

definition env_ip :: "(string \<Rightarrow> ip option) \<Rightarrow> env \<Rightarrow> string \<Rightarrow> string \<Rightarrow> (ip, string) result" where
  "env_ip parse_ip env name dflt =
     ok_or (parse_ip (case env name of Some s \<Rightarrow> s | None \<Rightarrow> dflt)) (name @ '': invalid IP'')"

definition parse_u16 :: "string \<Rightarrow> u16 option" where
  "parse_u16 s = map_option word_of_nat (parse_uint (2 ^ 16 - 1) s)"

definition env_u16 :: "env \<Rightarrow> string \<Rightarrow> u16 \<Rightarrow> (u16, string) result" where
  "env_u16 env name dflt =
     (case env name of
        None \<Rightarrow> Ok dflt
      | Some s \<Rightarrow> ok_or (parse_u16 s) (name @ '': invalid port''))"

definition res_bind :: "('a, 'e) result \<Rightarrow> ('a \<Rightarrow> ('b, 'e) result) \<Rightarrow> ('b, 'e) result" where
  "res_bind r f = (case r of Ok x \<Rightarrow> f x | Err e \<Rightarrow> Err e)"

lemma res_bind_Ok_iff: "res_bind r f = Ok y \<longleftrightarrow> (\<exists>x. r = Ok x \<and> f x = Ok y)"
  by (auto simp: res_bind_def split: result.splits)

definition listen_from_env :: "(string \<Rightarrow> ip option) \<Rightarrow> env \<Rightarrow> (router_listen_info, string) result" where
  "listen_from_env parse_ip env =
     res_bind (env_ip parse_ip env ''SFU_LISTEN_IP'' ''0.0.0.0'') (\<lambda>listen_ip.
     res_bind (env_ip parse_ip env ''SFU_ANNOUNCED_IP'' ''127.0.0.1'') (\<lambda>announced_ip.
     res_bind (case env ''SFU_ANNOUNCED_IP_LAN'' of
         Some s \<Rightarrow> if trim s \<noteq> []
                    then map_err (\<lambda>_. ''invalid SFU_ANNOUNCED_IP_LAN '' @ s)
                           (case parse_ip (trim s) of Some ip \<Rightarrow> Ok (Some ip) | None \<Rightarrow> Err ())
                    else Ok None
       | None \<Rightarrow> Ok None) (\<lambda>lan_announced_ip.
     res_bind (env_u16 env ''SFU_RTC_MIN_PORT'' default_rtc_min_port) (\<lambda>rtc_min_port.
     res_bind (env_u16 env ''SFU_RTC_MAX_PORT'' default_rtc_max_port) (\<lambda>rtc_max_port.
     res_bind (env_u16 env ''SFU_PLAIN_RTP_MIN_PORT'' default_plain_rtp_min_port) (\<lambda>plain_rtp_min_port.
     res_bind (env_u16 env ''SFU_PLAIN_RTP_MAX_PORT'' default_plain_rtp_max_port) (\<lambda>plain_rtp_max_port.
     if rtc_min_port \<ge> rtc_max_port then Err ''SFU_RTC_MIN_PORT must be < SFU_RTC_MAX_PORT''
     else if plain_rtp_min_port \<ge> plain_rtp_max_port
     then Err ''SFU_PLAIN_RTP_MIN_PORT must be < SFU_PLAIN_RTP_MAX_PORT''
     else Ok \<lparr>li_listen_ip = listen_ip, li_announced_ip = announced_ip,
               li_lan_announced_ip = lan_announced_ip, li_rtc_min_port = rtc_min_port,
               li_rtc_max_port = rtc_max_port, li_plain_rtp_min_port = plain_rtp_min_port,
               li_plain_rtp_max_port = plain_rtp_max_port\<rparr>)))))))"

section \<open>Transport options\<close>

record listen_opts =
  lo_ip :: ip
  lo_announced_address :: "ip option"
  lo_expose_internal_ip :: bool
  lo_port :: "u16 option"
  lo_port_range :: "(u16 \<times> u16) option"

record plain_transport_options =
  po_listen :: listen_opts
  po_comedia :: bool

definition create_plain_transport_options :: "router_listen_info \<Rightarrow> plain_transport_options" where
  "create_plain_transport_options li =
     \<lparr>po_listen = \<lparr>lo_ip = li_listen_ip li, lo_announced_address = Some (li_announced_ip li),
        lo_expose_internal_ip = False, lo_port = None,
        lo_port_range = Some (li_plain_rtp_min_port li, li_plain_rtp_max_port li)\<rparr>,
      po_comedia = True\<rparr>"

definition create_plain_transport_options_on_port ::
  "router_listen_info \<Rightarrow> u16 \<Rightarrow> plain_transport_options" where
  "create_plain_transport_options_on_port li port =
     \<lparr>po_listen = \<lparr>lo_ip = li_listen_ip li, lo_announced_address = Some (li_announced_ip li),
        lo_expose_internal_ip = False, lo_port = Some port, lo_port_range = None\<rparr>,
      po_comedia = True\<rparr>"

definition lan_mux_port_offset :: u16 where "lan_mux_port_offset = 1000"

definition create_webrtc_server_options :: "router_listen_info \<Rightarrow> u16 \<Rightarrow> listen_opts list" where
  "create_webrtc_server_options li port =
     (let pub = \<lparr>lo_ip = li_listen_ip li, lo_announced_address = Some (li_announced_ip li),
                  lo_expose_internal_ip = False, lo_port = Some port, lo_port_range = None\<rparr>
      in pub # (case li_lan_announced_ip li of
                  Some lan_ip \<Rightarrow>
                    [\<lparr>lo_ip = li_listen_ip li, lo_announced_address = Some lan_ip,
                      lo_expose_internal_ip = False,
                      lo_port = Some (saturating_add port lan_mux_port_offset), lo_port_range = None\<rparr>]
                | None \<Rightarrow> []))"

record consumer_transport_options =
  co_server :: string
  co_enable_sctp :: bool
  co_max_send_message_size :: u32
  co_initial_available_outgoing_bitrate :: u32

definition create_consumer_transport_options_with_server :: "string \<Rightarrow> consumer_transport_options" where
  "create_consumer_transport_options_with_server server =
     \<lparr>co_server = server, co_enable_sctp = True, co_max_send_message_size = 262144,
      co_initial_available_outgoing_bitrate = 5000000\<rparr>"

section \<open>RTP parameters\<close>

datatype rtcp_feedback = Nack | NackPli | CcmFir | GoogRemb | TransportCc

datatype mime = Vp8 | Opus

record rtp_codec =
  co_mime :: mime
  co_payload_type :: u8
  co_clock_rate :: u32
  co_channels :: "u8 option"
  co_parameters :: "(string \<times> u32) list"
  co_feedback :: "rtcp_feedback list"

record rtp_encoding =
  en_ssrc :: "u32 option"
  en_codec_payload_type :: "u8 option"
  en_max_bitrate :: "u32 option"

record rtp_parameters =
  rp_codecs :: "rtp_codec list"
  rp_encodings :: "rtp_encoding list"

definition video_encoding :: "u32 \<Rightarrow> u32 \<Rightarrow> rtp_encoding" where
  "video_encoding ssrc max_bitrate =
     \<lparr>en_ssrc = Some ssrc, en_codec_payload_type = Some plain_payload_type, en_max_bitrate = Some max_bitrate\<rparr>"

definition plain_producer_rtp_parameters :: rtp_parameters where
  "plain_producer_rtp_parameters =
     \<lparr>rp_codecs = [\<lparr>co_mime = Vp8, co_payload_type = plain_payload_type, co_clock_rate = plain_clock_rate,
         co_channels = None, co_parameters = [], co_feedback = []\<rparr>],
      rp_encodings = [video_encoding plain_low_ssrc plain_low_max_bitrate,
                      video_encoding plain_mid_ssrc plain_mid_max_bitrate,
                      video_encoding plain_high_ssrc plain_high_max_bitrate]\<rparr>"

definition plain_audio_producer_rtp_parameters :: rtp_parameters where
  "plain_audio_producer_rtp_parameters =
     \<lparr>rp_codecs = [\<lparr>co_mime = Opus, co_payload_type = plain_audio_payload_type,
         co_clock_rate = plain_audio_clock_rate, co_channels = Some 2,
         co_parameters = [(''useinbandfec'', 1)], co_feedback = []\<rparr>],
      rp_encodings = [\<lparr>en_ssrc = Some plain_audio_ssrc, en_codec_payload_type = None, en_max_bitrate = None\<rparr>]\<rparr>"

section \<open>Properties\<close>

text \<open>A configuration that is accepted has non-empty port ranges, whatever the environment.\<close>

lemma listen_ranges_ordered:
  assumes "listen_from_env parse_ip env = Ok li"
  shows "li_rtc_min_port li < li_rtc_max_port li \<and> li_plain_rtp_min_port li < li_plain_rtp_max_port li"
  using assms by (auto simp: listen_from_env_def res_bind_Ok_iff split: if_splits)

lemma listen_ranges_ordered_witness:
  "\<exists>li. listen_from_env Some (\<lambda>n. if n = ''SFU_RTC_MIN_PORT'' then Some ''50010'' else None) = Ok li
     \<and> li_rtc_min_port li < li_rtc_max_port li \<and> li_plain_rtp_min_port li < li_plain_rtp_max_port li"
proof -
  have "parse_u16 ''50010'' = Some 50010"
    by (simp add: parse_u16_def parse_uint_def is_digit_def digit_val_def less_eq_char_def)
  then obtain li where li: "listen_from_env Some
      (\<lambda>n. if n = ''SFU_RTC_MIN_PORT'' then Some ''50010'' else None) = Ok li"
    by (simp add: listen_from_env_def res_bind_def env_ip_def env_u16_def default_rtc_min_port_def
        default_rtc_max_port_def default_plain_rtp_min_port_def default_plain_rtp_max_port_def)
  with listen_ranges_ordered [OF li] show ?thesis by blast
qed

text \<open>The streams on the one port of a session can be told apart: the video and audio producers
  have different payload types, the four SSRCs are distinct, every video encoding carries the
  video payload type, and neither producer asks for retransmissions.\<close>

lemma plain_streams_demux:
  "distinct (map en_ssrc (rp_encodings plain_producer_rtp_parameters
       @ rp_encodings plain_audio_producer_rtp_parameters))
   \<and> distinct (map co_payload_type (rp_codecs plain_producer_rtp_parameters
       @ rp_codecs plain_audio_producer_rtp_parameters))
   \<and> list_all (\<lambda>e. en_codec_payload_type e = Some (co_payload_type (hd (rp_codecs plain_producer_rtp_parameters))))
       (rp_encodings plain_producer_rtp_parameters)
   \<and> list_all (\<lambda>c. co_feedback c = [])
       (rp_codecs plain_producer_rtp_parameters @ rp_codecs plain_audio_producer_rtp_parameters)"
  by code_simp

end
