(* ===== verification/InputBridge.thy ===== *)
theory InputBridge
  imports SharedTypes
begin

text \<open>
  \<open>edge-sfu/src/input_envelope.rs\<close> and \<open>neko_input_bridge.rs\<close>: the input events of a viewer, the
  admin events they become, the rate limiter, the single claim of control, and the registry of
  bridges. The WebSocket (connect and send of one text frame) and serde_json's text form are
  parameters; times are nanoseconds.
\<close>

section \<open>Envelopes\<close>

datatype input_envelope =
    Move u16 u16 u64
  | Scroll "16 word" "16 word" u64
  | KeyDown u64 u64
  | KeyUp u64 u64
  | Clipboard string u64

text \<open>serde's decoding of a number into an unsigned or signed type of \<open>n\<close> bits.\<close>

definition de_uint :: "nat \<Rightarrow> json option \<Rightarrow> int option" where
  "de_uint n j = (case j of Some (JInt i) \<Rightarrow> if 0 \<le> i \<and> i < 2 ^ n then Some i else None | _ \<Rightarrow> None)"

definition de_sint :: "nat \<Rightarrow> json option \<Rightarrow> int option" where
  "de_sint n j = (case j of Some (JInt i) \<Rightarrow> if - (2 ^ (n - 1)) \<le> i \<and> i < 2 ^ (n - 1) then Some i else None
                  | _ \<Rightarrow> None)"

definition envelope_of_json :: "json \<Rightarrow> input_envelope option" where
  "envelope_of_json j =
     (case j_get ''type'' j of
        Some (JStr t) \<Rightarrow>
          Option.bind (de_uint 64 (j_get ''ts'' j)) (\<lambda>ts.
            if t = ''move'' then
              Option.bind (de_uint 16 (j_get ''x'' j)) (\<lambda>x. Option.bind (de_uint 16 (j_get ''y'' j)) (\<lambda>y.
                Some (Move (word_of_int x) (word_of_int y) (word_of_int ts))))
            else if t = ''scroll'' then
              Option.bind (de_sint 16 (j_get ''dx'' j)) (\<lambda>x. Option.bind (de_sint 16 (j_get ''dy'' j)) (\<lambda>y.
                Some (Scroll (word_of_int x) (word_of_int y) (word_of_int ts))))
            else if t = ''key_down'' then
              map_option (\<lambda>k. KeyDown (word_of_int k) (word_of_int ts)) (de_uint 64 (j_get ''key'' j))
            else if t = ''key_up'' then
              map_option (\<lambda>k. KeyUp (word_of_int k) (word_of_int ts)) (de_uint 64 (j_get ''key'' j))
            else if t = ''clipboard'' then
              Option.bind (j_get ''text'' j) (\<lambda>v. map_option (\<lambda>s. Clipboard s (word_of_int ts)) (j_str v))
            else None)
      | _ \<Rightarrow> None)"

section \<open>Truncation of the clipboard\<close>

definition max_clipboard_bytes :: nat where "max_clipboard_bytes = 8192"

definition is_char_boundary :: "string \<Rightarrow> nat \<Rightarrow> bool" where
  "is_char_boundary s i \<longleftrightarrow> i = 0 \<or> i = length s \<or> i < length s \<and> \<not> is_cont (s ! i)"

fun walk_back :: "string \<Rightarrow> nat \<Rightarrow> nat" where
  "walk_back s 0 = 0"
| "walk_back s (Suc e) = (if is_char_boundary s (Suc e) then Suc e else walk_back s e)"

definition truncate_clipboard :: "string \<Rightarrow> string" where
  "truncate_clipboard text =
     (if length text \<le> max_clipboard_bytes then text
      else take (walk_back text max_clipboard_bytes) text)"

lemma walk_back_le: "walk_back s n \<le> n"
  by (induction n) auto

lemma walk_back_boundary: "is_char_boundary s (walk_back s n)"
  by (induction n) (auto simp: is_char_boundary_def)

lemma walk_back_greatest: "is_char_boundary s i \<Longrightarrow> i \<le> n \<Longrightarrow> i \<le> walk_back s n"
  by (induction n) (auto simp: le_Suc_eq)

text \<open>Valid UTF-8 is a sequence of encoded characters; cutting it at a boundary keeps it valid.\<close>

lemma utf8_first_char:
  assumes "utf8_valid (a # s)"
  obtains u r where "a # s = u @ r" "u \<noteq> []" "utf8_valid r"
    "\<And>k. 0 < k \<Longrightarrow> k < length u \<Longrightarrow> is_cont (u ! k)" "\<And>t. utf8_valid t \<Longrightarrow> utf8_valid (u @ t)"
proof -
  let ?n = "of_char a :: nat"
  consider "?n < 128" | "194 \<le> ?n \<and> ?n < 224" | "224 \<le> ?n \<and> ?n < 240" | "240 \<le> ?n \<and> ?n < 245"
    using assms by (force simp: Let_def split: if_splits)
  then show thesis
  proof cases
    case 1
    with assms show thesis by (intro that [of "[a]" s]) auto
  next
    case 2
    with assms obtain b r where "s = b # r" "is_cont b" "utf8_valid r"
      by (cases s) (auto simp: Let_def)
    with 2 show thesis by (intro that [of "[a, b]" r]) (auto simp: Let_def nth_Cons split: nat.splits)
  next
    case 3
    with assms obtain b c r where r: "s = b # c # r" "is_cont b" "is_cont c" "utf8_valid r"
      "?n = 224 \<longrightarrow> 160 \<le> (of_char b :: nat)" "?n = 237 \<longrightarrow> (of_char b :: nat) < 160"
      by (cases s; cases "tl s") (auto simp: Let_def)
    with 3 show thesis by (intro that [of "[a, b, c]" r]) (auto simp: Let_def nth_Cons split: nat.splits)
  next
    case 4
    with assms obtain b c d r where r: "s = b # c # d # r" "is_cont b" "is_cont c" "is_cont d" "utf8_valid r"
      "?n = 240 \<longrightarrow> 144 \<le> (of_char b :: nat)" "?n = 244 \<longrightarrow> (of_char b :: nat) < 144"
      by (cases s; cases "tl s"; cases "tl (tl s)") (auto simp: Let_def)
    with 4 show thesis by (intro that [of "[a, b, c, d]" r]) (auto simp: Let_def nth_Cons split: nat.splits)
  qed
qed

lemma utf8_take_boundary: "utf8_valid s \<Longrightarrow> is_char_boundary s i \<Longrightarrow> utf8_valid (take i s)"
proof (induction "length s" arbitrary: s i rule: less_induct)
  case less
  show ?case
  proof (cases "s = [] \<or> i = 0")
    case False
    then obtain a s' where "s = a # s'" by (cases s) auto
    with less.prems(1) obtain u r where u: "s = u @ r" "u \<noteq> []" "utf8_valid r"
      "\<And>k. 0 < k \<Longrightarrow> k < length u \<Longrightarrow> is_cont (u ! k)" "\<And>t. utf8_valid t \<Longrightarrow> utf8_valid (u @ t)"
      by (metis utf8_first_char)
    have "length u \<le> i"
    proof (rule ccontr)
      assume "\<not> length u \<le> i"
      then have "is_cont (s ! i)" "i < length s"
        using u(1) u(4) [of i] False by (auto simp: nth_append)
      with less.prems(2) False show False by (simp add: is_char_boundary_def)
    qed
    then have "is_char_boundary r (i - length u)"
      using less.prems(2) u(1,2) by (auto simp: is_char_boundary_def nth_append)
    then have "utf8_valid (take (i - length u) r)"
      using less.hyps [of r] u by simp
    with u(5) \<open>length u \<le> i\<close> show ?thesis by (simp add: u(1))
  qed auto
qed

section \<open>Admin events\<close>

definition envelope_to_event :: "input_envelope \<Rightarrow> json" where
  "envelope_to_event ev =
     (case ev of
        Move x y _ \<Rightarrow> mk_obj [(''event'', JStr ''control/mouse''), (''x'', JInt (uint x)), (''y'', JInt (uint y))]
      | Scroll dx dy _ \<Rightarrow>
          mk_obj [(''event'', JStr ''control/scroll''), (''x'', JInt (sint dx)), (''y'', JInt (sint dy))]
      | KeyDown key _ \<Rightarrow>
          mk_obj [(''event'', JStr ''control/keyboard''), (''key'', JInt (uint key)), (''pressed'', JBool True)]
      | KeyUp key _ \<Rightarrow>
          mk_obj [(''event'', JStr ''control/keyboard''), (''key'', JInt (uint key)), (''pressed'', JBool False)]
      | Clipboard text _ \<Rightarrow>
          mk_obj [(''event'', JStr ''control/clipboard''), (''text'', JStr (truncate_clipboard text))])"

definition control_request :: json where
  "control_request = mk_obj [(''event'', JStr ''control/request'')]"

section \<open>The rate limiter\<close>

definition max_events_per_second :: nat where "max_events_per_second = 60"

definition rate_window :: nat where "rate_window = 1000000000"

type_synonym rate_limiter = "nat list"

definition allow :: "nat \<Rightarrow> rate_limiter \<Rightarrow> bool \<times> rate_limiter" where
  "allow now window =
     (let w = dropWhile (\<lambda>front. now - front \<ge> rate_window) window
      in if length w < max_events_per_second then (True, w @ [now]) else (False, w))"

text \<open>The times that are admitted out of a sequence of calls.\<close>

fun admitted :: "nat list \<Rightarrow> rate_limiter \<Rightarrow> nat list" where
  "admitted [] w = []"
| "admitted (t # ts) w = (case allow t w of (ok, w') \<Rightarrow> if ok then t # admitted ts w' else admitted ts w')"

definition spaced :: "nat list \<Rightarrow> bool" where
  "spaced a \<longleftrightarrow> (\<forall>i. i + max_events_per_second < length a \<longrightarrow>
     a ! i + rate_window \<le> a ! (i + max_events_per_second))"

lemma spaced_snoc:
  assumes "spaced (P @ W)" and "length W < max_events_per_second" and "\<forall>x \<in> set P. x + rate_window \<le> t"
  shows "spaced ((P @ W) @ [t])"
  unfolding spaced_def
proof (intro allI impI)
  fix i assume i: "i + max_events_per_second < length ((P @ W) @ [t])"
  show "((P @ W) @ [t]) ! i + rate_window \<le> ((P @ W) @ [t]) ! (i + max_events_per_second)"
  proof (cases "i + max_events_per_second < length (P @ W)")
    case True
    then have "i < length (P @ W)" by linarith
    with True assms(1) show ?thesis
      unfolding spaced_def nth_append [of "P @ W"] by (simp only: if_True)
  next
    case False
    with i have e: "i + max_events_per_second = length (P @ W)" by simp
    with assms(2) have "i < length P" by simp
    then have "((P @ W) @ [t]) ! i = P ! i" and "P ! i \<in> set P"
      by (simp_all add: nth_append)
    moreover have "((P @ W) @ [t]) ! (i + max_events_per_second) = t"
      unfolding e by (rule nth_append_length)
    ultimately show ?thesis using assms(3) by simp
  qed
qed

lemma admitted_spaced:
  assumes "sorted ts" and "spaced (P @ W)" and "\<forall>x \<in> set P. \<forall>t \<in> set ts. x + rate_window \<le> t"
  shows "spaced ((P @ W) @ admitted ts W)"
  using assms
proof (induction ts arbitrary: P W)
  case (Cons t ts)
  let ?drop = "takeWhile (\<lambda>front. t - front \<ge> rate_window) W"
  let ?w = "dropWhile (\<lambda>front. t - front \<ge> rate_window) W"
  have split: "P @ W = (P @ ?drop) @ ?w" by simp
  have tw: "?drop @ ?w @ X = W @ X" for X by (metis append_assoc takeWhile_dropWhile_id)
  have "x + rate_window \<le> u" if "x \<in> set ?drop" "u \<in> set (t # ts)" for x u
  proof -
    have "t - x \<ge> rate_window" using that(1) by (auto dest: set_takeWhileD)
    moreover have "t \<le> u" using that(2) Cons.prems(1) by auto
    moreover have "rate_window > 0" by (simp add: rate_window_def)
    ultimately show ?thesis by linarith
  qed
  then have p: "\<forall>x \<in> set (P @ ?drop). \<forall>u \<in> set (t # ts). x + rate_window \<le> u"
    using Cons.prems(3) by auto
  have sp: "spaced ((P @ ?drop) @ ?w)" using Cons.prems(2) split by metis
  have srt: "sorted ts" using Cons.prems(1) by simp
  show ?case
  proof (cases "length ?w < max_events_per_second")
    case True
    have "\<forall>x \<in> set (P @ ?drop). x + rate_window \<le> t" using p by simp
    from spaced_snoc [OF sp True this] have "spaced ((P @ ?drop) @ (?w @ [t]))" by (simp only: append_assoc)
    from Cons.IH [OF srt this] p have "spaced (((P @ ?drop) @ (?w @ [t])) @ admitted ts (?w @ [t]))" by simp
    then have "spaced ((P @ W) @ t # admitted ts (?w @ [t]))" by (simp add: tw)
    with True show ?thesis by (simp add: allow_def Let_def)
  next
    case False
    from Cons.IH [OF srt sp] p have "spaced (((P @ ?drop) @ ?w) @ admitted ts ?w)" by simp
    then have "spaced ((P @ W) @ admitted ts ?w)" by (simp add: tw)
    with False show ?thesis by (simp add: allow_def Let_def)
  qed
qed simp

section \<open>The bridge\<close>

text \<open>
  Bridges are shared (\<open>Arc\<close>), so the registry holds references into a store of bridges. \<open>ws\<close> is
  the WebSocket client: whether a request can be built from a url and a token, opening a
  connection, and sending a frame over it.
\<close>

record bridge =
  br_session_id :: string
  br_conn :: nat
  br_control_held :: bool
  br_rate_limiter :: rate_limiter
  br_reading :: bool

record bridges =
  bs_registry :: "(string, nat) dashmap"
  bs_store :: "(nat, bridge) dashmap"
  bs_next :: nat

record 'w ws =
  ws_request :: "string \<Rightarrow> string \<Rightarrow> (unit, string) result"
  ws_connect :: "string \<Rightarrow> string \<Rightarrow> ('w, (nat, string) result) io"
  ws_send :: "nat \<Rightarrow> json \<Rightarrow> ('w, (unit, string) result) io"
  ws_close :: "nat \<Rightarrow> 'w \<Rightarrow> 'w"

definition bridge_connect ::
  "'w ws \<Rightarrow> string \<Rightarrow> string \<Rightarrow> string \<Rightarrow> bridges \<times> 'w \<Rightarrow> (nat, string) result \<times> bridges \<times> 'w" where
  "bridge_connect ws sid url token = (\<lambda>(bs, w).
     case dm_get (bs_registry bs) sid of
       Some existing \<Rightarrow> (Ok existing, bs, w)
     | None \<Rightarrow>
         (case ws_request ws url token of
            Err e \<Rightarrow> (Err e, bs, w)
          | Ok _ \<Rightarrow>
              (case ws_connect ws url token w of
                 (Err e, w) \<Rightarrow> (Err (''neko admin ws connect failed: '' @ e), bs, w)
               | (Ok conn, w) \<Rightarrow>
                   let b = bs_next bs;
                       br = \<lparr>br_session_id = sid, br_conn = conn, br_control_held = False,
                             br_rate_limiter = [], br_reading = True\<rparr>
                   in (Ok b, bs\<lparr>bs_registry := dm_insert sid b (bs_registry bs),
                                bs_store := dm_insert b br (bs_store bs), bs_next := Suc b\<rparr>, w))))"

definition send_event :: "'w ws \<Rightarrow> bridge \<Rightarrow> json \<Rightarrow> ('w, (unit, string) result) io" where
  "send_event ws br payload w =
     (case ws_send ws (br_conn br) payload w of
        (r, w) \<Rightarrow> (map_err (\<lambda>e. ''send neko admin event: '' @ e) r, w))"

text \<open>\<open>compare_exchange(false, true)\<close>: only the call that sets the flag wins.\<close>

definition should_send_control_request :: "bool \<Rightarrow> bool \<times> bool" where
  "should_send_control_request held = (\<not> held, True)"

definition claim_control :: "'w ws \<Rightarrow> bridge \<Rightarrow> 'w \<Rightarrow> (unit, string) result \<times> bridge \<times> 'w" where
  "claim_control ws br w =
     (case should_send_control_request (br_control_held br) of
        (send, held) \<Rightarrow>
          let br = br\<lparr>br_control_held := held\<rparr> in
          if send then (case send_event ws br control_request w of
                          (r, w) \<Rightarrow> (map_err (\<lambda>e. ''send control/request: '' @ e) r, br, w))
          else (Ok (), br, w))"

definition bridge_forward ::
  "'w ws \<Rightarrow> nat \<Rightarrow> input_envelope \<Rightarrow> bridge \<times> 'w \<Rightarrow> (unit, string) result \<times> bridge \<times> 'w" where
  "bridge_forward ws now ev = (\<lambda>(br, w).
     case allow now (br_rate_limiter br) of
       (ok, rl) \<Rightarrow>
         let br = br\<lparr>br_rate_limiter := rl\<rparr> in
         if \<not> ok then (Ok (), br, w)
         else (case claim_control ws br w of
                 (Err e, br, w) \<Rightarrow> (Err e, br, w)
               | (Ok _, br, w) \<Rightarrow>
                   (case send_event ws br (envelope_to_event ev) w of (r, w) \<Rightarrow> (r, br, w))))"

definition bridge_shutdown :: "'w ws \<Rightarrow> nat \<Rightarrow> bridges \<times> 'w \<Rightarrow> bridges \<times> 'w" where
  "bridge_shutdown ws b = (\<lambda>(bs, w).
     case dm_get (bs_store bs) b of
       None \<Rightarrow> (bs, w)
     | Some br \<Rightarrow>
         (bs\<lparr>bs_registry := dm_remove (br_session_id br) (bs_registry bs),
             bs_store := dm_insert b (br\<lparr>br_reading := False\<rparr>) (bs_store bs)\<rparr>,
          ws_close ws (br_conn br) w))"

text \<open>A sequence of envelopes at their times, over a WebSocket that records every frame it is given.\<close>

definition ws_recorded :: "'w ws \<Rightarrow> ('w \<times> json list) ws" where
  "ws_recorded ws =
     \<lparr>ws_request = ws_request ws,
      ws_connect = (\<lambda>u t (w, l). case ws_connect ws u t w of (r, w) \<Rightarrow> (r, w, l)),
      ws_send = (\<lambda>c j (w, l). case ws_send ws c j w of (r, w) \<Rightarrow> (r, w, l @ [j])),
      ws_close = (\<lambda>c (w, l). (ws_close ws c w, l))\<rparr>"

fun forward_all ::
  "'w ws \<Rightarrow> (nat \<times> input_envelope) list \<Rightarrow> bridge \<times> 'w \<times> json list \<Rightarrow> bridge \<times> 'w \<times> json list" where
  "forward_all ws [] x = x"
| "forward_all ws ((now, ev) # evs) x =
     forward_all ws evs (snd (bridge_forward (ws_recorded ws) now ev x))"

fun admitted_events :: "(nat \<times> input_envelope) list \<Rightarrow> rate_limiter \<Rightarrow> (nat \<times> input_envelope) list" where
  "admitted_events [] w = []"
| "admitted_events (e # es) w =
     (case allow (fst e) w of (ok, w') \<Rightarrow> if ok then e # admitted_events es w' else admitted_events es w')"

lemma admitted_events_times: "map fst (admitted_events evs w) = admitted (map fst evs) w"
  by (induction evs arbitrary: w) (auto split: prod.splits)

lemma event_not_request: "envelope_to_event ev \<noteq> control_request"
proof
  assume "envelope_to_event ev = control_request"
  then have "j_get ''event'' (envelope_to_event ev) = j_get ''event'' control_request" by simp
  then show False by (cases ev) (auto simp: envelope_to_event_def control_request_def)
qed

definition ws_reliable :: "'w ws \<Rightarrow> bool" where
  "ws_reliable ws \<longleftrightarrow> (\<forall>c j w. fst (ws_send ws c j w) = Ok ())"

lemma forward_reliable:
  assumes "ws_reliable ws"
  shows "\<exists>w'. bridge_forward (ws_recorded ws) now ev (br, w, l) =
     (Ok (), br\<lparr>br_rate_limiter := snd (allow now (br_rate_limiter br)),
                br_control_held := br_control_held br \<or> fst (allow now (br_rate_limiter br))\<rparr>,
      w', l @ (if \<not> fst (allow now (br_rate_limiter br)) then []
               else (if br_control_held br then [] else [control_request]) @ [envelope_to_event ev]))"
proof -
  have send: "\<exists>w'. ws_send ws c j w = (Ok (), w')" for c j w
    using assms unfolding ws_reliable_def by (metis prod.collapse)
  obtain w1 where 1: "ws_send ws (br_conn br) control_request w = (Ok (), w1)" using send by blast
  obtain w2 where 2: "ws_send ws (br_conn br) (envelope_to_event ev) w = (Ok (), w2)" using send by blast
  obtain w3 where 3: "ws_send ws (br_conn br) (envelope_to_event ev) w1 = (Ok (), w3)" using send by blast
  show ?thesis
    using 1 2 3
    by (cases "allow now (br_rate_limiter br)"; cases "br_control_held br")
      (auto simp: bridge_forward_def Let_def claim_control_def should_send_control_request_def
        send_event_def ws_recorded_def)
qed

lemma forward_all_reliable:
  assumes "ws_reliable ws" and "forward_all ws evs (br, w, l) = (br', w', l')"
  shows "l' = l @ (if br_control_held br \<or> admitted_events evs (br_rate_limiter br) = [] then [] else [control_request])
           @ map (envelope_to_event \<circ> snd) (admitted_events evs (br_rate_limiter br))"
  using assms(2)
proof (induction evs arbitrary: br w l)
  case (Cons e evs)
  obtain now ev where e: "e = (now, ev)" by force
  obtain ok rl where a: "allow now (br_rate_limiter br) = (ok, rl)" by force
  from forward_reliable [OF assms(1), of now ev br w l] a
  obtain w1 where f: "bridge_forward (ws_recorded ws) now ev (br, w, l) =
     (Ok (), br\<lparr>br_rate_limiter := rl, br_control_held := br_control_held br \<or> ok\<rparr>,
      w1, l @ (if \<not> ok then [] else (if br_control_held br then [] else [control_request]) @ [envelope_to_event ev]))"
    by auto
  from Cons.prems f have "forward_all ws evs (br\<lparr>br_rate_limiter := rl, br_control_held := br_control_held br \<or> ok\<rparr>,
      w1, l @ (if \<not> ok then [] else (if br_control_held br then [] else [control_request]) @ [envelope_to_event ev]))
      = (br', w', l')" by (simp add: e)
  from Cons.IH [OF this] a show ?case by (simp add: e)
qed simp

text \<open>Whatever the sends do, the flag only goes up and the request is sent only by the call that sets it.\<close>

lemma forward_request_count:
  assumes "bridge_forward (ws_recorded ws) now ev (br, w, l) = (r, br', w', l')"
  shows "(br_control_held br \<longrightarrow> br_control_held br')
    \<and> count_list l' control_request + (if br_control_held br' then 0 else 1)
        \<le> count_list l control_request + (if br_control_held br then 0 else 1)"
proof -
  obtain ok rl where a: "allow now (br_rate_limiter br) = (ok, rl)" by force
  obtain r1 w1 where 1: "ws_send ws (br_conn br) control_request w = (r1, w1)" by force
  obtain r2 w2 where 2: "ws_send ws (br_conn br) (envelope_to_event ev) w = (r2, w2)" by force
  obtain r3 w3 where 3: "ws_send ws (br_conn br) (envelope_to_event ev) w1 = (r3, w3)" by force
  show ?thesis
    using assms a 1 2 3 event_not_request [of ev]
    by (cases r1; cases ok; cases "br_control_held br")
      (auto simp: bridge_forward_def Let_def claim_control_def should_send_control_request_def
        send_event_def ws_recorded_def)
qed

lemma forward_all_request_count:
  "forward_all ws evs (br, w, l) = (br', w', l') \<Longrightarrow>
     count_list l' control_request + (if br_control_held br' then 0 else 1)
        \<le> count_list l control_request + (if br_control_held br then 0 else 1)"
proof (induction evs arbitrary: br w l)
  case (Cons e evs)
  obtain now ev where e: "e = (now, ev)" by force
  obtain r br1 w1 l1 where f: "bridge_forward (ws_recorded ws) now ev (br, w, l) = (r, br1, w1, l1)"
    by (metis prod_cases4)
  from Cons.IH [of br1 w1 l1] Cons.prems f forward_request_count [OF f] show ?case by (simp add: e)
qed simp

section \<open>Properties\<close>


definition null_ws :: "unit ws" where
  "null_ws = \<lparr>ws_request = (\<lambda>_ _. Ok ()), ws_connect = (\<lambda>_ _ w. (Ok 0, w)), ws_send = (\<lambda>_ _ w. (Ok (), w)),
     ws_close = (\<lambda>_ w. w)\<rparr>"


text \<open>Control is claimed at most once in the life of a bridge, even when sends fail: whatever the
  connection answers, at most one \<open>control/request\<close> is ever handed to it. (So a claim whose send
  fails is not repeated.)\<close>

lemma control_requested_at_most_once:
  "case forward_all ws evs (br, w, []) of
     (br', w', frames) \<Rightarrow> count_list frames control_request \<le> (if br_control_held br then 0 else 1)"
proof -
  obtain br' w' l' where "forward_all ws evs (br, w, []) = (br', w', l')" by (metis prod_cases3)
  with forward_all_request_count [OF this] show ?thesis by (simp split: if_splits)
qed

text \<open>The clipboard text that is forwarded is the longest prefix of the viewer's text that ends at a
  character boundary within 8192 bytes, so it stays valid UTF-8 and a short text is unchanged.\<close>

lemma truncate_clipboard_longest:
  assumes "utf8_valid text"
  shows "prefix (truncate_clipboard text) text \<and> length (truncate_clipboard text) \<le> 8192
    \<and> utf8_valid (truncate_clipboard text)
    \<and> (\<forall>i. i \<le> 8192 \<and> i \<le> length text \<and> is_char_boundary text i \<longrightarrow> i \<le> length (truncate_clipboard text))"
proof (cases "length text \<le> 8192")
  case True
  with assms show ?thesis by (simp add: truncate_clipboard_def max_clipboard_bytes_def)
next
  case False
  let ?e = "walk_back text 8192"
  have e: "?e \<le> 8192" "is_char_boundary text ?e"
    "\<And>i. is_char_boundary text i \<Longrightarrow> i \<le> 8192 \<Longrightarrow> i \<le> ?e"
    using walk_back_le [of "text" "8192"] walk_back_boundary walk_back_greatest [of "text" _ "8192"] by blast+
  have t: "truncate_clipboard text = take ?e text"
    using False by (simp add: truncate_clipboard_def max_clipboard_bytes_def)
  have "length (take ?e text) = ?e" using False e(1) by simp
  then show ?thesis
    unfolding t using e utf8_take_boundary [OF assms e(2)] take_is_prefix [of ?e "text"] by auto
qed

lemma utf8_valid_replicate: "utf8_valid (replicate n CHR ''a'' @ s) = utf8_valid s"
  by (induction n) auto

lemma truncate_clipboard_longest_witness:
  "length (truncate_clipboard (replicate 8191 CHR ''a'' @ [CHR 0xC3, CHR 0xA9])) = 8191"
proof -
  let ?t = "replicate 8191 CHR ''a'' @ [CHR 0xC3, CHR 0xA9]"
  have v: "utf8_valid ?t" by (simp add: utf8_valid_replicate is_cont_def)
  note spec = truncate_clipboard_longest [OF v]
  have "is_char_boundary ?t 8191" by (simp add: is_char_boundary_def nth_append is_cont_def)
  with spec have "8191 \<le> length (truncate_clipboard ?t)" by simp
  moreover have "truncate_clipboard ?t = take (length (truncate_clipboard ?t)) ?t"
    using spec by (metis prefix_def append_eq_conv_conj)
  moreover have "\<not> is_char_boundary ?t 8192"
    by (simp add: is_char_boundary_def nth_append is_cont_def)
  then have "walk_back ?t 8192 \<noteq> 8192" using walk_back_boundary [of ?t "8192"] by metis
  then have "length (truncate_clipboard ?t) \<noteq> 8192"
    by (simp add: truncate_clipboard_def max_clipboard_bytes_def)
  ultimately show ?thesis using spec by linarith
qed

text \<open>A session has one bridge: connecting again, with any url and token, hands back the same bridge
  without opening a connection and without changing anything.\<close>

lemma bridge_connect_idempotent:
  assumes "bridge_connect ws sid url token (bs, w) = (Ok b, bs', w')"
  shows "bridge_connect ws sid url' token' (bs', w2) = (Ok b, bs', w2)"
  using assms by (auto simp: bridge_connect_def Let_def split: option.splits result.splits prod.splits)

lemma bridge_connect_idempotent_witness:
  "\<exists>bs'. bridge_connect null_ws ''s'' ''ws://n'' ''t'' (\<lparr>bs_registry = [], bs_store = [], bs_next = 0\<rparr>, ()) = (Ok 0, bs', ())
     \<and> bridge_connect null_ws ''s'' ''ws://other'' ''u'' (bs', ()) = (Ok 0, bs', ())"
proof -
  obtain bs' where c: "bridge_connect null_ws ''s'' ''ws://n'' ''t''
      (\<lparr>bs_registry = [], bs_store = [], bs_next = 0\<rparr>, ()) = (Ok 0, bs', ())"
    by (simp add: bridge_connect_def null_ws_def)
  with bridge_connect_idempotent [OF c] show ?thesis by blast
qed

end
