(* ===== verification/RouterManager.thy ===== *)
theory RouterManager
  imports SfuTransport InputBridge
begin

text \<open>
  \<open>edge-sfu/src/router_manager.rs\<close> and \<open>viewer_cap.rs\<close>: the sessions of the SFU, each with its
  router, the plain transport and producers fed by the owner, and its viewers. mediasoup is a
  parameter, the record \<open>engine\<close>: every call may fail and changes the world; a resource is
  known by its id, and \<open>ms_drop\<close> is what dropping the handles of some resources does. A panic is
  an error of its own.
\<close>

definition viewer_cap_per_session :: u32 where "viewer_cap_per_session = 30"

definition can_accept_viewer :: "u32 \<Rightarrow> bool" where
  "can_accept_viewer current_count \<longleftrightarrow> current_count < viewer_cap_per_session"

section \<open>mediasoup\<close>

record codec_capability =
  cap_mime :: mime
  cap_clock_rate :: u32
  cap_channels :: "u8 option"
  cap_parameters :: "(string \<times> u32) list"
  cap_feedback :: "rtcp_feedback list"

record plain_transport =
  pt_id :: string
  pt_rtp_port :: u16
  pt_rtcp_port :: "u16 option"

record webrtc_transport =
  wt_id :: string
  wt_ice_parameters :: json
  wt_ice_candidates :: json
  wt_dtls_parameters :: json
  wt_sctp_parameters :: "json option"

record consumer =
  cs_id :: string
  cs_producer_id :: string
  cs_kind :: string
  cs_rtp_parameters :: json

record producer_stat =
  st_byte_count :: u64
  st_packets_lost :: int
  st_fraction_lost :: u8
  st_score :: u8
  st_bitrate :: u32

datatype media_kind = Video | Audio

record 'w engine =
  ms_create_worker :: "('w, (unit, string) result) io"
  ms_create_server :: "nat \<Rightarrow> listen_opts list \<Rightarrow> ('w, (string, string) result) io"
  ms_create_router :: "nat \<Rightarrow> codec_capability list \<Rightarrow> ('w, (string, string) result) io"
  ms_caps :: "string \<Rightarrow> json"
  ms_create_plain :: "string \<Rightarrow> plain_transport_options \<Rightarrow> ('w, (plain_transport, string) result) io"
  ms_produce :: "string \<Rightarrow> media_kind \<Rightarrow> rtp_parameters \<Rightarrow> ('w, (string, string) result) io"
  ms_create_webrtc :: "string \<Rightarrow> consumer_transport_options \<Rightarrow> ('w, (webrtc_transport, string) result) io"
  ms_connect :: "string \<Rightarrow> json \<Rightarrow> ('w, (unit, string) result) io"
  ms_produce_data :: "string \<Rightarrow> json \<Rightarrow> ('w, (string, string) result) io"
  ms_create_direct :: "string \<Rightarrow> ('w, (string, string) result) io"
  ms_consume_data :: "string \<Rightarrow> string \<Rightarrow> ('w, (string, string) result) io"
  ms_consume :: "string \<Rightarrow> string \<Rightarrow> json \<Rightarrow> bool \<Rightarrow> ('w, (consumer, string) result) io"
  ms_resume :: "string \<Rightarrow> ('w, (unit, string) result) io"
  ms_set_layers :: "string \<Rightarrow> u8 \<Rightarrow> u8 option \<Rightarrow> ('w, (unit, string) result) io"
  ms_transport_stats :: "string \<Rightarrow> ('w, ((u64 \<times> u64) list, string) result) io"
  ms_producer_stats :: "string \<Rightarrow> ('w, (producer_stat list, string) result) io"
  ms_drop :: "string list \<Rightarrow> 'w \<Rightarrow> 'w"
  ms_sleep :: "nat \<Rightarrow> 'w \<Rightarrow> 'w"

datatype rm_error = Fail string | Panic string

type_synonym ('w, 'a) rm_io = "('w, ('a, rm_error) result) io"

text \<open>\<open>.context(msg)\<close>, after which the error displays as \<open>msg\<close>, and the drop of the local handles when an error leaves the function.\<close>

definition io_ctx :: "string \<Rightarrow> ('w, ('a, string) result) io \<Rightarrow> ('w, 'a) rm_io" where
  "io_ctx msg m w = (case m w of (r, w) \<Rightarrow> (map_err (\<lambda>_. Fail msg) r, w))"

definition or_drop :: "'w engine \<Rightarrow> string list \<Rightarrow> ('w, 'a) rm_io \<Rightarrow> ('w, 'a) rm_io" where
  "or_drop eng ids m w = (case m w of (Ok x, w) \<Rightarrow> (Ok x, w) | (Err e, w) \<Rightarrow> (Err e, ms_drop eng ids w))"

section \<open>Sessions\<close>

record viewer_slot =
  vs_viewer_id :: string
  vs_recv_transport :: webrtc_transport
  vs_send_transport :: "webrtc_transport option"
  vs_consumers :: "consumer list"
  vs_input_data_producer :: "string option"
  vs_input_data_consumer :: "string option"

record sfu_session =
  ss_session_id :: session_id
  ss_router :: string
  ss_plain_producer :: "string option"
  ss_plain_audio_producer :: "string option"
  ss_plain_transport :: "plain_transport option"
  ss_viewers :: "(string, viewer_slot) dashmap"
  ss_direct_transport :: "string option"
  ss_input_bridge :: "nat option"
  ss_webrtc_server :: string

record consumer_transport_info =
  ct_viewer_id :: string
  ct_transport_id :: string
  ct_ice_parameters :: json
  ct_ice_candidates :: json
  ct_dtls_parameters :: json
  ct_sctp_parameters :: "json option"

record consumed_info =
  ci_id :: string
  ci_producer_id :: string
  ci_kind :: string
  ci_rtp_parameters :: json
  ci_paused :: bool

record provisioned_router =
  pr_router_id :: string
  pr_plain_rtp_port :: u16
  pr_plain_rtcp_port :: u16
  pr_producer_id :: string
  pr_audio_producer_id :: "string option"
  pr_rtp_capabilities :: json

record router_manager =
  rm_workers :: nat
  rm_webrtc_servers :: "string list"
  rm_worker_cursor :: nat
  rm_sessions :: "(session_id, sfu_session) dashmap"
  rm_listen :: router_listen_info

definition default_media_codecs :: "codec_capability list" where
  "default_media_codecs =
     [\<lparr>cap_mime = Opus, cap_clock_rate = 48000, cap_channels = Some 2,
        cap_parameters = [(''useinbandfec'', 1)], cap_feedback = [TransportCc]\<rparr>,
      \<lparr>cap_mime = Vp8, cap_clock_rate = 90000, cap_channels = None, cap_parameters = [],
        cap_feedback = [NackPli, CcmFir, GoogRemb, TransportCc]\<rparr>]"

text \<open>The start: one worker and one WebRTC server per index, on consecutive ports.\<close>

fun create_pool ::
  "'w engine \<Rightarrow> router_listen_info \<Rightarrow> nat \<Rightarrow> nat \<Rightarrow> ('w, string list) rm_io" where
  "create_pool eng li idx 0 w = (Ok [], w)"
| "create_pool eng li idx (Suc n) w =
     rbind (io_ctx ''create mediasoup worker'' (ms_create_worker eng)) (\<lambda>_.
     rbind (io_ctx ''create webrtc server''
              (ms_create_server eng idx (create_webrtc_server_options li (li_rtc_min_port li + word_of_nat idx)))) (\<lambda>server.
     rbind (create_pool eng li (Suc idx) n) (\<lambda>servers w. (Ok (server # servers), w)))) w"

definition rm_new :: "'w engine \<Rightarrow> nat \<Rightarrow> router_listen_info \<Rightarrow> ('w, router_manager) rm_io" where
  "rm_new eng workers li w =
     (if workers = 0 then (Err (Fail ''router-manager: workers must be > 0''), w)
      else rbind (create_pool eng li 0 workers) (\<lambda>servers w.
             (Ok \<lparr>rm_workers = workers, rm_webrtc_servers = servers, rm_worker_cursor = 0,
                  rm_sessions = [], rm_listen = li\<rparr>, w)) w)"

definition media_lan_host :: "router_manager \<Rightarrow> string option" where
  "media_lan_host rm = li_lan_announced_ip (rm_listen rm)"

definition pick_worker_index :: "router_manager \<Rightarrow> nat \<times> router_manager" where
  "pick_worker_index rm =
     (rm_worker_cursor rm mod rm_workers rm,
      rm\<lparr>rm_worker_cursor := (rm_worker_cursor rm + 1) mod 2 ^ 64\<rparr>)"

definition sfu_snapshot :: "'w engine \<Rightarrow> sfu_session \<Rightarrow> (provisioned_router, rm_error) result" where
  "sfu_snapshot eng s =
     (case ss_plain_producer s of
        None \<Rightarrow> Err (Panic ''plain_producer absent on snapshot'')
      | Some producer \<Rightarrow>
          let rtp_port = (case ss_plain_transport s of Some t \<Rightarrow> pt_rtp_port t | None \<Rightarrow> 0);
              rtcp_port = (case Option.bind (ss_plain_transport s) pt_rtcp_port of Some p \<Rightarrow> p | None \<Rightarrow> rtp_port)
          in Ok \<lparr>pr_router_id = ss_router s, pr_plain_rtp_port = rtp_port, pr_plain_rtcp_port = rtcp_port,
                 pr_producer_id = producer, pr_audio_producer_id = ss_plain_audio_producer s,
                 pr_rtp_capabilities = ms_caps eng (ss_router s)\<rparr>)"

text \<open>The resources of a new session, made without holding a lock.\<close>

definition build_session ::
  "'w engine \<Rightarrow> router_listen_info \<Rightarrow> nat \<Rightarrow> string \<Rightarrow> session_id \<Rightarrow> ('w, sfu_session \<times> provisioned_router) rm_io" where
  "build_session eng li worker_index server sid =
     rbind (io_ctx ''create router'' (ms_create_router eng worker_index default_media_codecs)) (\<lambda>router.
     rbind (or_drop eng [router]
              (io_ctx ''create plain transport'' (ms_create_plain eng router (create_plain_transport_options li)))) (\<lambda>pt.
     rbind (or_drop eng [pt_id pt, router]
              (io_ctx ''produce on plain transport''
                (ms_produce eng (pt_id pt) Video plain_producer_rtp_parameters))) (\<lambda>producer.
     rbind (or_drop eng [producer, pt_id pt, router]
              (io_ctx ''produce audio on plain transport''
                (ms_produce eng (pt_id pt) Audio plain_audio_producer_rtp_parameters))) (\<lambda>audio w.
       (Ok (\<lparr>ss_session_id = sid, ss_router = router, ss_plain_producer = Some producer,
              ss_plain_audio_producer = Some audio, ss_plain_transport = Some pt, ss_viewers = [],
              ss_direct_transport = None, ss_input_bridge = None, ss_webrtc_server = server\<rparr>,
            \<lparr>pr_router_id = router, pr_plain_rtp_port = pt_rtp_port pt,
             pr_plain_rtcp_port = (case pt_rtcp_port pt of Some p \<Rightarrow> p | None \<Rightarrow> pt_rtp_port pt),
             pr_producer_id = producer, pr_audio_producer_id = Some audio,
             pr_rtp_capabilities = ms_caps eng router\<rparr>), w)))))"

text \<open>The handles that a slot and a session own.\<close>

definition slot_ids :: "viewer_slot \<Rightarrow> string list" where
  "slot_ids v = wt_id (vs_recv_transport v) # map wt_id (case vs_send_transport v of Some t \<Rightarrow> [t] | None \<Rightarrow> [])
     @ map cs_id (vs_consumers v)
     @ (case vs_input_data_producer v of Some p \<Rightarrow> [p] | None \<Rightarrow> [])
     @ (case vs_input_data_consumer v of Some p \<Rightarrow> [p] | None \<Rightarrow> [])"

definition session_ids :: "sfu_session \<Rightarrow> string list" where
  "session_ids s = ss_router s # (case ss_plain_producer s of Some p \<Rightarrow> [p] | None \<Rightarrow> [])
     @ (case ss_plain_audio_producer s of Some p \<Rightarrow> [p] | None \<Rightarrow> [])
     @ (case ss_plain_transport s of Some t \<Rightarrow> [pt_id t] | None \<Rightarrow> [])
     @ concat (map (\<lambda>(_, v). slot_ids v) (ss_viewers s))
     @ (case ss_direct_transport s of Some d \<Rightarrow> [d] | None \<Rightarrow> [])"

text \<open>\<open>sessions.insert\<close>: a state that was there is dropped.\<close>

definition commit_session ::
  "'w engine \<Rightarrow> session_id \<Rightarrow> sfu_session \<Rightarrow> router_manager \<times> 'w \<Rightarrow> router_manager \<times> 'w" where
  "commit_session eng sid s = (\<lambda>(rm, w).
     (rm\<lparr>rm_sessions := dm_insert sid s (rm_sessions rm)\<rparr>,
      case dm_get (rm_sessions rm) sid of Some old \<Rightarrow> ms_drop eng (session_ids old) w | None \<Rightarrow> w))"

definition provision_session ::
  "'w engine \<Rightarrow> session_id \<Rightarrow> router_manager \<times> 'w
   \<Rightarrow> (provisioned_router, rm_error) result \<times> router_manager \<times> 'w" where
  "provision_session eng sid = (\<lambda>(rm, w).
     case dm_get (rm_sessions rm) sid of
       Some existing \<Rightarrow> (sfu_snapshot eng existing, rm, w)
     | None \<Rightarrow>
         (case pick_worker_index rm of
            (worker_index, rm) \<Rightarrow>
              (case build_session eng (rm_listen rm) worker_index
                      (rm_webrtc_servers rm ! worker_index) sid w of
                 (Err e, w) \<Rightarrow> (Err e, rm, w)
               | (Ok (s, provisioned), w) \<Rightarrow>
                   (case commit_session eng sid s (rm, w) of (rm, w) \<Rightarrow> (Ok provisioned, rm, w)))))"

definition close_session :: "'w engine \<Rightarrow> session_id \<Rightarrow> router_manager \<times> 'w \<Rightarrow> router_manager \<times> 'w" where
  "close_session eng sid = (\<lambda>(rm, w).
     case dm_get (rm_sessions rm) sid of
       None \<Rightarrow> (rm, w)
     | Some s \<Rightarrow> (rm\<lparr>rm_sessions := dm_remove sid (rm_sessions rm)\<rparr>, ms_drop eng (session_ids s) w))"

section \<open>Viewers\<close>

definition put_session :: "session_id \<Rightarrow> sfu_session \<Rightarrow> router_manager \<Rightarrow> router_manager" where
  "put_session sid s rm = rm\<lparr>rm_sessions := dm_insert sid s (rm_sessions rm)\<rparr>"

definition transport_info :: "string \<Rightarrow> webrtc_transport \<Rightarrow> consumer_transport_info" where
  "transport_info viewer_id t =
     \<lparr>ct_viewer_id = viewer_id, ct_transport_id = wt_id t, ct_ice_parameters = wt_ice_parameters t,
      ct_ice_candidates = wt_ice_candidates t, ct_dtls_parameters = wt_dtls_parameters t,
      ct_sctp_parameters = wt_sctp_parameters t\<rparr>"

definition create_consumer_transports ::
  "'w engine \<Rightarrow> session_id \<Rightarrow> string \<Rightarrow> router_manager \<times> 'w
   \<Rightarrow> (consumer_transport_info \<times> consumer_transport_info, rm_error) result \<times> router_manager \<times> 'w" where
  "create_consumer_transports eng sid viewer_id = (\<lambda>(rm, w).
     case dm_get (rm_sessions rm) sid of
       None \<Rightarrow> (Err (Fail ''session not found''), rm, w)
     | Some s \<Rightarrow>
         if (word_of_nat (length (ss_viewers s)) :: u32) \<ge> viewer_cap_per_session
         then (Err (Fail ''viewer cap reached''), rm, w)
         else
           let opts = create_consumer_transport_options_with_server (ss_webrtc_server s) in
           (case rbind (io_ctx ''create recv transport'' (ms_create_webrtc eng (ss_router s) opts)) (\<lambda>recv.
                 rbind (or_drop eng [wt_id recv]
                          (io_ctx ''create send transport'' (ms_create_webrtc eng (ss_router s) opts))) (\<lambda>send w.
                   (Ok (recv, send), w))) w of
              (Err e, w) \<Rightarrow> (Err e, rm, w)
            | (Ok (recv, send), w) \<Rightarrow>
                let slot = \<lparr>vs_viewer_id = viewer_id, vs_recv_transport = recv, vs_send_transport = Some send,
                            vs_consumers = [], vs_input_data_producer = None, vs_input_data_consumer = None\<rparr>;
                    w = (case dm_get (ss_viewers s) viewer_id of Some old \<Rightarrow> ms_drop eng (slot_ids old) w | None \<Rightarrow> w)
                in (Ok (transport_info viewer_id recv, transport_info viewer_id send),
                    put_session sid (s\<lparr>ss_viewers := dm_insert viewer_id slot (ss_viewers s)\<rparr>) rm, w)))"

definition remove_viewer ::
  "'w engine \<Rightarrow> session_id \<Rightarrow> string \<Rightarrow> router_manager \<times> 'w \<Rightarrow> router_manager \<times> 'w" where
  "remove_viewer eng sid viewer_id = (\<lambda>(rm, w).
     case dm_get (rm_sessions rm) sid of
       None \<Rightarrow> (rm, w)
     | Some s \<Rightarrow>
         (put_session sid (s\<lparr>ss_viewers := dm_remove viewer_id (ss_viewers s)\<rparr>) rm,
          case dm_get (ss_viewers s) viewer_id of Some old \<Rightarrow> ms_drop eng (slot_ids old) w | None \<Rightarrow> w))"

definition list_active_sessions :: "router_manager \<Rightarrow> session_id list" where
  "list_active_sessions rm = map fst (rm_sessions rm)"

definition viewer_count :: "router_manager \<Rightarrow> session_id \<Rightarrow> u32" where
  "viewer_count rm sid =
     (case dm_get (rm_sessions rm) sid of Some s \<Rightarrow> word_of_nat (length (ss_viewers s)) | None \<Rightarrow> 0)"

text \<open>The bytes of a session, added up over the transports of its viewers.\<close>

definition add_stats :: "(u64 \<times> u64) list \<Rightarrow> u64 \<Rightarrow> u64" where
  "add_stats stats acc =
     fold (\<lambda>(received, sent) t. saturating_add (saturating_add t received) sent) stats acc"

fun sum_viewer_bytes :: "'w engine \<Rightarrow> viewer_slot list \<Rightarrow> u64 \<Rightarrow> ('w, u64) rm_io" where
  "sum_viewer_bytes eng [] acc w = (Ok acc, w)"
| "sum_viewer_bytes eng (v # vs) acc w =
     rbind (io_ctx ''recv transport stats'' (ms_transport_stats eng (wt_id (vs_recv_transport v)))) (\<lambda>stats.
       let acc = add_stats stats acc in
       (case vs_send_transport v of
          None \<Rightarrow> sum_viewer_bytes eng vs acc
        | Some send \<Rightarrow>
            rbind (io_ctx ''send transport stats'' (ms_transport_stats eng (wt_id send))) (\<lambda>stats.
              sum_viewer_bytes eng vs (add_stats stats acc)))) w"

definition get_session_bytes :: "'w engine \<Rightarrow> router_manager \<Rightarrow> session_id \<Rightarrow> ('w, u64) rm_io" where
  "get_session_bytes eng rm sid w =
     (case dm_get (rm_sessions rm) sid of
        None \<Rightarrow> (Ok 0, w)
      | Some s \<Rightarrow> sum_viewer_bytes eng (map snd (ss_viewers s)) 0 w)"

definition session_producer_info ::
  "'w engine \<Rightarrow> router_manager \<Rightarrow> session_id \<Rightarrow> (string \<times> string option \<times> json, rm_error) result" where
  "session_producer_info eng rm sid =
     (case dm_get (rm_sessions rm) sid of
        None \<Rightarrow> Err (Fail ''session not found'')
      | Some s \<Rightarrow>
          (case ss_plain_producer s of
             None \<Rightarrow> Err (Fail ''plain producer absent'')
           | Some p \<Rightarrow> Ok (p, ss_plain_audio_producer s, ms_caps eng (ss_router s))))"

text \<open>The slot of a viewer, or which part is missing.\<close>

definition find_slot :: "router_manager \<Rightarrow> session_id \<Rightarrow> string \<Rightarrow> (viewer_slot, rm_error) result" where
  "find_slot rm sid viewer_id =
     (case dm_get (rm_sessions rm) sid of
        None \<Rightarrow> Err (Fail ''session not found'')
      | Some s \<Rightarrow> ok_or (dm_get (ss_viewers s) viewer_id) (Fail ''viewer not found''))"

definition connect_recv_transport ::
  "'w engine \<Rightarrow> router_manager \<Rightarrow> session_id \<Rightarrow> string \<Rightarrow> json \<Rightarrow> ('w, unit) rm_io" where
  "connect_recv_transport eng rm sid viewer_id dtls w =
     (case find_slot rm sid viewer_id of
        Err e \<Rightarrow> (Err e, w)
      | Ok v \<Rightarrow> io_ctx ''connect recv transport'' (ms_connect eng (wt_id (vs_recv_transport v)) dtls) w)"

definition connect_send_transport ::
  "'w engine \<Rightarrow> router_manager \<Rightarrow> session_id \<Rightarrow> string \<Rightarrow> json \<Rightarrow> ('w, unit) rm_io" where
  "connect_send_transport eng rm sid viewer_id dtls w =
     (case find_slot rm sid viewer_id of
        Err e \<Rightarrow> (Err e, w)
      | Ok v \<Rightarrow>
          (case vs_send_transport v of
             None \<Rightarrow> (Err (Fail ''send transport absent''), w)
           | Some t \<Rightarrow> io_ctx ''connect send transport'' (ms_connect eng (wt_id t) dtls) w))"

section \<open>Consumers\<close>

text \<open>
  \<open>consume\<close> releases the session's lock while mediasoup works: \<open>consume_begin\<close> is the part up to
  the answer of the worker, \<open>consume_commit\<close> stores the consumer in the slot, if it still exists.
\<close>

definition consume_begin ::
  "'w engine \<Rightarrow> router_manager \<Rightarrow> session_id \<Rightarrow> string \<Rightarrow> string \<Rightarrow> json \<Rightarrow> ('w, consumer) rm_io" where
  "consume_begin eng rm sid viewer_id producer_id caps w =
     (case find_slot rm sid viewer_id of
        Err e \<Rightarrow> (Err e, w)
      | Ok v \<Rightarrow> io_ctx ''create consumer'' (ms_consume eng (wt_id (vs_recv_transport v)) producer_id caps True) w)"

definition put_slot :: "session_id \<Rightarrow> sfu_session \<Rightarrow> string \<Rightarrow> viewer_slot \<Rightarrow> router_manager \<Rightarrow> router_manager" where
  "put_slot sid s viewer_id slot rm =
     put_session sid (s\<lparr>ss_viewers := dm_insert viewer_id slot (ss_viewers s)\<rparr>) rm"

definition consume_commit ::
  "'w engine \<Rightarrow> session_id \<Rightarrow> string \<Rightarrow> consumer \<Rightarrow> router_manager \<times> 'w
   \<Rightarrow> (consumed_info, rm_error) result \<times> router_manager \<times> 'w" where
  "consume_commit eng sid viewer_id c = (\<lambda>(rm, w).
     case dm_get (rm_sessions rm) sid of
       None \<Rightarrow> (Err (Fail ''session not found''), rm, ms_drop eng [cs_id c] w)
     | Some s \<Rightarrow>
         (case dm_get (ss_viewers s) viewer_id of
            None \<Rightarrow> (Err (Fail ''viewer disappeared during consume''), rm, ms_drop eng [cs_id c] w)
          | Some slot \<Rightarrow>
              (Ok \<lparr>ci_id = cs_id c, ci_producer_id = cs_producer_id c, ci_kind = cs_kind c,
                   ci_rtp_parameters = cs_rtp_parameters c, ci_paused = True\<rparr>,
               put_slot sid s viewer_id (slot\<lparr>vs_consumers := vs_consumers slot @ [c]\<rparr>) rm, w)))"

definition sfu_consume ::
  "'w engine \<Rightarrow> session_id \<Rightarrow> string \<Rightarrow> string \<Rightarrow> json \<Rightarrow> router_manager \<times> 'w
   \<Rightarrow> (consumed_info, rm_error) result \<times> router_manager \<times> 'w" where
  "sfu_consume eng sid viewer_id producer_id caps = (\<lambda>(rm, w).
     case consume_begin eng rm sid viewer_id producer_id caps w of
       (Err e, w) \<Rightarrow> (Err e, rm, w)
     | (Ok c, w) \<Rightarrow> consume_commit eng sid viewer_id c (rm, w))"

definition find_consumer :: "router_manager \<Rightarrow> session_id \<Rightarrow> string \<Rightarrow> string \<Rightarrow> (consumer, rm_error) result" where
  "find_consumer rm sid viewer_id consumer_id =
     (case find_slot rm sid viewer_id of
        Err e \<Rightarrow> Err e
      | Ok v \<Rightarrow> ok_or (find (\<lambda>c. cs_id c = consumer_id) (vs_consumers v)) (Fail ''consumer not found''))"

definition resume_consumer ::
  "'w engine \<Rightarrow> router_manager \<Rightarrow> session_id \<Rightarrow> string \<Rightarrow> string \<Rightarrow> ('w, unit) rm_io" where
  "resume_consumer eng rm sid viewer_id consumer_id w =
     (case find_consumer rm sid viewer_id consumer_id of
        Err e \<Rightarrow> (Err e, w)
      | Ok c \<Rightarrow> io_ctx ''resume consumer'' (ms_resume eng (cs_id c)) w)"

definition set_preferred_layers ::
  "'w engine \<Rightarrow> router_manager \<Rightarrow> session_id \<Rightarrow> string \<Rightarrow> string \<Rightarrow> u8 \<Rightarrow> u8 option \<Rightarrow> ('w, unit) rm_io" where
  "set_preferred_layers eng rm sid viewer_id consumer_id spatial temporal w =
     (if spatial > 2 then (Err (Fail (''invalid simulcast spatial layer: '' @ to_dec (unat spatial))), w)
      else if temporal \<noteq> None then (Err (Fail ''simulcast source does not expose temporal layers''), w)
      else (case find_consumer rm sid viewer_id consumer_id of
              Err e \<Rightarrow> (Err e, w)
            | Ok c \<Rightarrow> io_ctx ''set preferred layers'' (ms_set_layers eng (cs_id c) spatial temporal) w))"

section \<open>The input channel\<close>

datatype idempotent_produce = ReturnExisting string | Proceed

definition idempotent_produce_decision :: "string option \<Rightarrow> idempotent_produce" where
  "idempotent_produce_decision existing =
     (case existing of Some i \<Rightarrow> ReturnExisting i | None \<Rightarrow> Proceed)"

definition neko_admin_endpoint :: "env \<Rightarrow> session_id \<Rightarrow> (string \<times> string) option" where
  "neko_admin_endpoint env sid =
     (case (env ''NEKO_ADMIN_WS_URL'', env ''NEKO_ADMIN_TOKEN'') of
        (Some url_template, Some token) \<Rightarrow>
          if trim url_template = [] \<or> trim token = [] then None
          else Some (str_replace ''{session}'' sid url_template, token)
      | _ \<Rightarrow> None)"

text \<open>
  \<open>produce_input_data\<close> takes the session's lock three times: to look up the slot (\<open>input_begin\<close>),
  to ensure the session's direct transport and bridge (\<open>input_ensure\<close>), and to store the new
  producer and consumer in the slot (\<open>input_commit\<close>).
\<close>

definition input_begin ::
  "router_manager \<Rightarrow> session_id \<Rightarrow> string \<Rightarrow> (string + string, rm_error) result" where
  "input_begin rm sid viewer_id =
     (case find_slot rm sid viewer_id of
        Err e \<Rightarrow> Err e
      | Ok slot \<Rightarrow>
          (case idempotent_produce_decision (vs_input_data_producer slot) of
             ReturnExisting i \<Rightarrow> Ok (Inl i)
           | Proceed \<Rightarrow>
               (case vs_send_transport slot of
                  None \<Rightarrow> Err (Fail ''send transport absent'')
                | Some t \<Rightarrow> Ok (Inr (wt_id t)))))"

definition input_ensure ::
  "'w engine \<Rightarrow> 'w ws \<Rightarrow> env \<Rightarrow> session_id \<Rightarrow> router_manager \<times> bridges \<times> 'w
   \<Rightarrow> (string \<times> nat option, rm_error) result \<times> router_manager \<times> bridges \<times> 'w" where
  "input_ensure eng ws env sid = (\<lambda>(rm, bs, w).
     case dm_get (rm_sessions rm) sid of
       None \<Rightarrow> (Err (Fail ''session not found''), rm, bs, w)
     | Some s \<Rightarrow>
         (case (case ss_direct_transport s of
                  Some dt \<Rightarrow> (Ok dt, w)
                | None \<Rightarrow> io_ctx ''create direct transport'' (ms_create_direct eng (ss_router s)) w) of
            (Err e, w) \<Rightarrow> (Err e, rm, bs, w)
          | (Ok dt, w) \<Rightarrow>
              let s = s\<lparr>ss_direct_transport := Some dt\<rparr> in
              (case ss_input_bridge s of
                 Some b \<Rightarrow> (Ok (dt, Some b), put_session sid s rm, bs, w)
               | None \<Rightarrow>
                   (case neko_admin_endpoint env sid of
                      None \<Rightarrow> (Ok (dt, None), put_session sid s rm, bs, w)
                    | Some (url, token) \<Rightarrow>
                        (case bridge_connect ws sid url token (bs, w) of
                           (Err e, bs, w) \<Rightarrow> (Ok (dt, None), put_session sid s rm, bs, w)
                         | (Ok b, bs, w) \<Rightarrow>
                             (Ok (dt, Some b), put_session sid (s\<lparr>ss_input_bridge := Some b\<rparr>) rm, bs, w))))))"

definition input_commit ::
  "'w engine \<Rightarrow> session_id \<Rightarrow> string \<Rightarrow> string \<Rightarrow> string \<Rightarrow> router_manager \<times> 'w
   \<Rightarrow> (string, rm_error) result \<times> router_manager \<times> 'w" where
  "input_commit eng sid viewer_id producer consumer = (\<lambda>(rm, w).
     case dm_get (rm_sessions rm) sid of
       None \<Rightarrow> (Err (Fail ''session not found''), rm, ms_drop eng [consumer, producer] w)
     | Some s \<Rightarrow>
         (case dm_get (ss_viewers s) viewer_id of
            None \<Rightarrow> (Err (Fail ''viewer disappeared during produce_input_data''), rm,
                      ms_drop eng [consumer, producer] w)
          | Some slot \<Rightarrow>
              (case idempotent_produce_decision (vs_input_data_producer slot) of
                 ReturnExisting i \<Rightarrow> (Ok i, rm, ms_drop eng [consumer, producer] w)
               | Proceed \<Rightarrow>
                   (Ok producer,
                    put_slot sid s viewer_id
                      (slot\<lparr>vs_input_data_producer := Some producer, vs_input_data_consumer := Some consumer\<rparr>) rm,
                    w))))"

definition produce_input_data ::
  "'w engine \<Rightarrow> 'w ws \<Rightarrow> env \<Rightarrow> session_id \<Rightarrow> string \<Rightarrow> json \<Rightarrow> router_manager \<times> bridges \<times> 'w
   \<Rightarrow> (string, rm_error) result \<times> router_manager \<times> bridges \<times> 'w" where
  "produce_input_data eng ws env sid viewer_id options = (\<lambda>(rm, bs, w).
     case input_begin rm sid viewer_id of
       Err e \<Rightarrow> (Err e, rm, bs, w)
     | Ok (Inl i) \<Rightarrow> (Ok i, rm, bs, w)
     | Ok (Inr send_transport) \<Rightarrow>
         (case io_ctx ''produce_data on send transport'' (ms_produce_data eng send_transport options) w of
            (Err e, w) \<Rightarrow> (Err e, rm, bs, w)
          | (Ok producer, w) \<Rightarrow>
              (case input_ensure eng ws env sid (rm, bs, w) of
                 (Err e, rm, bs, w) \<Rightarrow> (Err e, rm, bs, ms_drop eng [producer] w)
               | (Ok (dt, bridge), rm, bs, w) \<Rightarrow>
                   (case io_ctx ''consume_data on direct transport'' (ms_consume_data eng dt producer) w of
                      (Err e, w) \<Rightarrow> (Err e, rm, bs, ms_drop eng [producer] w)
                    | (Ok consumer, w) \<Rightarrow>
                        (case input_commit eng sid viewer_id producer consumer (rm, w) of
                           (r, rm, w) \<Rightarrow> (r, rm, bs, w))))))"

text \<open>The observer of a data consumer; \<open>parse\<close> is serde_json's parser of bytes.\<close>

datatype webrtc_message = MString string | MBinary string | MEmptyString | MEmptyBinary

definition input_on_message ::
  "'w ws \<Rightarrow> (string \<Rightarrow> json option) \<Rightarrow> nat \<Rightarrow> webrtc_message \<Rightarrow> bridge \<times> 'w \<Rightarrow> bridge \<times> 'w" where
  "input_on_message ws parse now msg x =
     (case (case msg of MString s \<Rightarrow> Some s | MBinary b \<Rightarrow> Some b | _ \<Rightarrow> None) of
        None \<Rightarrow> x
      | Some bytes \<Rightarrow>
          (case Option.bind (parse bytes) envelope_of_json of
             None \<Rightarrow> x
           | Some ev \<Rightarrow> snd (bridge_forward ws now ev x)))"

section \<open>The source monitor\<close>

definition source_starve_ms :: nat where "source_starve_ms = 12000"

record activity =
  ac_last_bytes :: u64
  ac_last_change :: nat
  ac_ever_flowed :: bool
  ac_last_packets_lost :: u64

record producer_sample =
  sa_has_viewers :: bool
  sa_rtp_streams :: nat
  sa_byte_count :: u64
  sa_packets_lost :: u64
  sa_fraction_lost :: u8
  sa_score :: u8
  sa_bitrate :: u32

definition add_producer_stat :: "producer_stat \<Rightarrow> producer_sample \<Rightarrow> producer_sample" where
  "add_producer_stat st sample =
     sample\<lparr>sa_rtp_streams := sa_rtp_streams sample + 1,
            sa_byte_count := saturating_add (sa_byte_count sample) (st_byte_count st),
            sa_packets_lost := saturating_add (sa_packets_lost sample) (word_of_int (max 0 (st_packets_lost st))),
            sa_fraction_lost := max (sa_fraction_lost sample) (st_fraction_lost st),
            sa_score := min (sa_score sample) (st_score st),
            sa_bitrate := saturating_add (sa_bitrate sample) (st_bitrate st)\<rparr>"

definition take_producer_sample ::
  "'w engine \<Rightarrow> router_manager \<Rightarrow> session_id \<Rightarrow> ('w, producer_sample option) io" where
  "take_producer_sample eng rm sid w =
     (case dm_get (rm_sessions rm) sid of
        None \<Rightarrow> (None, w)
      | Some s \<Rightarrow>
          (case ss_plain_producer s of
             None \<Rightarrow> (None, w)
           | Some p \<Rightarrow>
               (case ms_producer_stats eng p w of
                  (Err _, w) \<Rightarrow> (None, w)
                | (Ok stats, w) \<Rightarrow>
                    let empty = \<lparr>sa_has_viewers = ss_viewers s \<noteq> [], sa_rtp_streams = 0, sa_byte_count = 0,
                                 sa_packets_lost = 0, sa_fraction_lost = 0, sa_score = 0, sa_bitrate = 0\<rparr>
                    in (Some (if stats = [] then empty
                              else fold add_producer_stat stats (empty\<lparr>sa_score := 10\<rparr>)), w))))"

fun retry_create_plain ::
  "'w engine \<Rightarrow> string \<Rightarrow> plain_transport_options \<Rightarrow> nat \<Rightarrow> string option
   \<Rightarrow> ('w, (plain_transport, string option) result) io" where
  "retry_create_plain eng router opts 0 last_err w = (Err last_err, w)"
| "retry_create_plain eng router opts (Suc n) last_err w =
     (case ms_create_plain eng router opts w of
        (Ok t, w) \<Rightarrow> (Ok t, w)
      | (Err e, w) \<Rightarrow> retry_create_plain eng router opts n (Some e) (ms_sleep eng 300 w))"

definition reprovision_plain_producer ::
  "'w engine \<Rightarrow> session_id \<Rightarrow> router_manager \<times> 'w \<Rightarrow> (unit, rm_error) result \<times> router_manager \<times> 'w" where
  "reprovision_plain_producer eng sid = (\<lambda>(rm, w).
     case dm_get (rm_sessions rm) sid of
       None \<Rightarrow> (Err (Fail ''session not found''), rm, w)
     | Some s \<Rightarrow>
         let router = ss_router s;
             old_port = map_option pt_rtp_port (ss_plain_transport s);
             w = ms_drop eng ((case ss_plain_producer s of Some p \<Rightarrow> [p] | None \<Rightarrow> [])
                   @ (case ss_plain_audio_producer s of Some p \<Rightarrow> [p] | None \<Rightarrow> [])
                   @ (case ss_plain_transport s of Some t \<Rightarrow> [pt_id t] | None \<Rightarrow> [])) w;
             s = s\<lparr>ss_plain_producer := None, ss_plain_audio_producer := None, ss_plain_transport := None\<rparr>;
             opts = (case old_port of
                       Some p \<Rightarrow> create_plain_transport_options_on_port (rm_listen rm) p
                     | None \<Rightarrow> create_plain_transport_options (rm_listen rm))
         in (case retry_create_plain eng router opts 12 None w of
               (Err _, w) \<Rightarrow> (Err (Fail ''recreate plain transport failed''), put_session sid s rm, w)
             | (Ok pt, w) \<Rightarrow>
                 (case rbind (or_drop eng [pt_id pt]
                               (io_ctx ''re-produce video''
                                 (ms_produce eng (pt_id pt) Video plain_producer_rtp_parameters))) (\<lambda>producer.
                       rbind (or_drop eng [producer, pt_id pt]
                               (io_ctx ''re-produce audio''
                                 (ms_produce eng (pt_id pt) Audio plain_audio_producer_rtp_parameters))) (\<lambda>audio w.
                         (Ok (producer, audio), w))) w of
                    (Err e, w) \<Rightarrow> (Err e, put_session sid s rm, w)
                  | (Ok (producer, audio), w) \<Rightarrow>
                      (Ok (), put_session sid (s\<lparr>ss_plain_transport := Some pt, ss_plain_producer := Some producer,
                                ss_plain_audio_producer := Some audio\<rparr>) rm, w))))"

text \<open>
  What one sample does to the tracking entry of a session, and whether it calls for a
  reprovision.
\<close>

definition monitor_decide :: "nat \<Rightarrow> producer_sample \<Rightarrow> activity option \<Rightarrow> activity option \<times> bool" where
  "monitor_decide now sample entry =
     (let bytes = sa_byte_count sample in
      if \<not> sa_has_viewers sample then
        (map_option (\<lambda>e. if bytes > ac_last_bytes e
            then e\<lparr>ac_last_bytes := bytes, ac_last_change := now, ac_ever_flowed := True\<rparr> else e) entry, False)
      else
        let e = (case entry of
                   Some e \<Rightarrow> e
                 | None \<Rightarrow> \<lparr>ac_last_bytes = bytes, ac_last_change = now, ac_ever_flowed = bytes > 0,
                            ac_last_packets_lost = sa_packets_lost sample\<rparr>);
            e = e\<lparr>ac_last_packets_lost := sa_packets_lost sample\<rparr>
        in if bytes > ac_last_bytes e
           then (Some (e\<lparr>ac_last_bytes := bytes, ac_last_change := now, ac_ever_flowed := True\<rparr>), False)
           else (Some e, ac_ever_flowed e \<and> now - ac_last_change e \<ge> source_starve_ms))"

definition set_entry :: "session_id \<Rightarrow> activity option \<Rightarrow> (session_id, activity) dashmap \<Rightarrow> (session_id, activity) dashmap" where
  "set_entry sid e act = (case e of Some e \<Rightarrow> dm_insert sid e act | None \<Rightarrow> act)"

definition monitor_one ::
  "'w engine \<Rightarrow> ('w \<Rightarrow> nat) \<Rightarrow> session_id \<Rightarrow> (session_id, activity) dashmap \<times> router_manager \<times> 'w
   \<Rightarrow> (session_id, activity) dashmap \<times> router_manager \<times> 'w" where
  "monitor_one eng clock sid = (\<lambda>(act, rm, w).
     case take_producer_sample eng rm sid w of
       (None, w) \<Rightarrow> (dm_remove sid act, rm, w)
     | (Some sample, w) \<Rightarrow>
         (case monitor_decide (clock w) sample (dm_get act sid) of
            (entry, False) \<Rightarrow> (set_entry sid entry act, rm, w)
          | (entry, True) \<Rightarrow>
              (case reprovision_plain_producer eng sid (rm, w) of
                 (Ok _, rm, w) \<Rightarrow>
                   (dm_insert sid \<lparr>ac_last_bytes = 0, ac_last_change = clock w, ac_ever_flowed = False,
                                   ac_last_packets_lost = 0\<rparr> act, rm, w)
               | (Err _, rm, w) \<Rightarrow>
                   (set_entry sid (map_option (\<lambda>e. e\<lparr>ac_last_change := clock w\<rparr>) entry) act, rm, w))))"

definition monitor_tick ::
  "'w engine \<Rightarrow> ('w \<Rightarrow> nat) \<Rightarrow> (session_id, activity) dashmap \<times> router_manager \<times> 'w
   \<Rightarrow> (session_id, activity) dashmap \<times> router_manager \<times> 'w" where
  "monitor_tick eng clock = (\<lambda>(act, rm, w).
     let session_ids = map fst (rm_sessions rm);
         act = filter (\<lambda>(sid, _). sid \<in> set session_ids) act
     in fold (monitor_one eng clock) session_ids (act, rm, w))"

section \<open>Interleavings\<close>

text \<open>
  The steps of the SFU as its callers interleave them: each rule is one section under a lock (the
  commits of \<open>consume\<close>, \<open>produce_input_data\<close> and \<open>provision_session\<close> with whatever resources the
  unlocked parts produced), one operation, or a change of the world.
\<close>

inductive rm_step ::
  "'w engine \<Rightarrow> 'w ws \<Rightarrow> env \<Rightarrow> router_manager \<times> bridges \<times> 'w \<Rightarrow> router_manager \<times> bridges \<times> 'w \<Rightarrow> bool"
  for eng ws env where
  step_provision: "provision_session eng sid (rm, w) = (r, rm', w') \<Longrightarrow> rm_step eng ws env (rm, bs, w) (rm', bs, w')"
| step_provision_race: "ss_viewers s = [] \<Longrightarrow> commit_session eng sid s (rm, w) = (rm', w') \<Longrightarrow>
     rm_step eng ws env (rm, bs, w) (rm', bs, w')"
| step_close: "close_session eng sid (rm, w) = (rm', w') \<Longrightarrow> rm_step eng ws env (rm, bs, w) (rm', bs, w')"
| step_join: "create_consumer_transports eng sid v (rm, w) = (r, rm', w') \<Longrightarrow>
     rm_step eng ws env (rm, bs, w) (rm', bs, w')"
| step_leave: "remove_viewer eng sid v (rm, w) = (rm', w') \<Longrightarrow> rm_step eng ws env (rm, bs, w) (rm', bs, w')"
| step_consume: "consume_commit eng sid v c (rm, w) = (r, rm', w') \<Longrightarrow> rm_step eng ws env (rm, bs, w) (rm', bs, w')"
| step_input_ensure: "input_ensure eng ws env sid (rm, bs, w) = (r, rm', bs', w') \<Longrightarrow>
     rm_step eng ws env (rm, bs, w) (rm', bs', w')"
| step_input_commit: "input_commit eng sid v p c (rm, w) = (r', rm', w') \<Longrightarrow>
     rm_step eng ws env (rm, bs, w) (rm', bs, w')"
| step_monitor: "monitor_one eng clock sid (act, rm, w) = (act', rm', w') \<Longrightarrow>
     rm_step eng ws env (rm, bs, w) (rm', bs, w')"
| step_world: "rm_step eng ws env (rm, bs, w) (rm, bs, w')"

inductive_cases rm_stepE: "rm_step eng ws env (rm, bs, w) (rm', bs', w')"

text \<open>
  The invariant: at most 30 viewers in a session, each under its own id, and an input producer
  exactly when there is an input consumer.
\<close>

definition slot_ok :: "string \<Rightarrow> viewer_slot \<Rightarrow> bool" where
  "slot_ok v slot \<longleftrightarrow> vs_viewer_id slot = v
     \<and> (vs_input_data_producer slot = None \<longleftrightarrow> vs_input_data_consumer slot = None)"

definition viewers_ok :: "(string, viewer_slot) dashmap \<Rightarrow> bool" where
  "viewers_ok vs \<longleftrightarrow> dm_ok vs \<and> length vs \<le> 30 \<and> (\<forall>v slot. dm_get vs v = Some slot \<longrightarrow> slot_ok v slot)"

definition rm_ok :: "router_manager \<Rightarrow> bool" where
  "rm_ok rm \<longleftrightarrow> (\<forall>sid s. dm_get (rm_sessions rm) sid = Some s \<longrightarrow> viewers_ok (ss_viewers s))"

named_theorems rm_ok_intros \<open>the operations keep the invariant of the router manager\<close>

lemma rm_ok_get: "rm_ok rm \<Longrightarrow> dm_get (rm_sessions rm) sid = Some s \<Longrightarrow> viewers_ok (ss_viewers s)"
  by (simp add: rm_ok_def)

lemma rm_ok_put [rm_ok_intros]: "rm_ok rm \<Longrightarrow> viewers_ok (ss_viewers s) \<Longrightarrow> rm_ok (put_session sid s rm)"
  by (simp add: rm_ok_def put_session_def)

lemma viewers_ok_Nil [simp]: "viewers_ok []"
  by (simp add: viewers_ok_def)

lemma viewers_ok_replace:
  "viewers_ok vs \<Longrightarrow> dm_get vs v \<noteq> None \<Longrightarrow> slot_ok v slot \<Longrightarrow> viewers_ok (dm_insert v slot vs)"
  by (auto simp: viewers_ok_def dm_length_insert)

lemma viewers_ok_join:
  "viewers_ok vs \<Longrightarrow> length vs < 30 \<Longrightarrow> slot_ok v slot \<Longrightarrow> viewers_ok (dm_insert v slot vs)"
  by (auto simp: viewers_ok_def dm_length_insert)

lemma viewers_ok_remove: "viewers_ok vs \<Longrightarrow> viewers_ok (dm_remove v vs)"
  using dm_length_remove_le [of v vs] by (auto simp: viewers_ok_def)

lemma cap_check: "viewers_ok vs \<Longrightarrow> \<not> viewer_cap_per_session \<le> (word_of_nat (length vs) :: u32) \<Longrightarrow> length vs < 30"
  by (auto simp: viewers_ok_def viewer_cap_per_session_def word_le_nat_alt unsigned_of_nat take_bit_nat_eq_self)

lemma rm_ok_provision:
  assumes "rm_ok rm" and "provision_session eng sid (rm, w) = (r, rm', w')"
  shows "rm_ok rm'"
proof (cases "dm_get (rm_sessions rm) sid")
  case None
  have v: "ss_viewers s = []" if "build_session eng li wi srv i u = (Ok (s, p), u')" for li wi srv i u s p u'
    using that by (auto simp: build_session_def rbind_Ok_iff)
  from assms None v show ?thesis
    by (auto simp: provision_session_def pick_worker_index_def commit_session_def rm_ok_def
        split: prod.splits result.splits if_splits)
qed (use assms in \<open>auto simp: provision_session_def\<close>)

lemma rm_ok_create:
  assumes "rm_ok rm" and "create_consumer_transports eng sid v (rm, w) = (r, rm', w')"
  shows "rm_ok rm'"
proof (cases "dm_get (rm_sessions rm) sid")
  case (Some s)
  note ok = rm_ok_get [OF assms(1) Some]
  show ?thesis
  proof (cases "viewer_cap_per_session \<le> (word_of_nat (length (ss_viewers s)) :: u32)")
    case False
    from assms Some False show ?thesis
      by (auto simp: create_consumer_transports_def Let_def slot_ok_def
          intro!: rm_ok_intros viewers_ok_join [OF ok cap_check [OF ok False]]
          split: prod.splits result.splits)
  qed (use assms Some in \<open>auto simp: create_consumer_transports_def\<close>)
qed (use assms in \<open>auto simp: create_consumer_transports_def\<close>)

lemma rm_ok_consume_commit:
  assumes "rm_ok rm" and "consume_commit eng sid v c (rm, w) = (r, rm', w')"
  shows "rm_ok rm'"
  using assms rm_ok_get [OF assms(1)]
  by (auto simp: consume_commit_def put_slot_def split: option.splits
      intro!: rm_ok_intros viewers_ok_replace)
    (auto simp: viewers_ok_def slot_ok_def)

lemma rm_ok_input_commit:
  assumes "rm_ok rm" and "input_commit eng sid v p c (rm, w) = (r, rm', w')"
  shows "rm_ok rm'"
  using assms rm_ok_get [OF assms(1)]
  by (auto simp: input_commit_def put_slot_def idempotent_produce_decision_def split: option.splits
      intro!: rm_ok_intros viewers_ok_replace)
    (auto simp: viewers_ok_def slot_ok_def)

lemma rm_ok_input_ensure:
  assumes "rm_ok rm" and "input_ensure eng ws env sid (rm, bs, w) = (r, rm', bs', w')"
  shows "rm_ok rm'"
proof (cases "dm_get (rm_sessions rm) sid")
  case (Some s)
  from rm_ok_get [OF assms(1) Some] assms Some show ?thesis
    by (auto simp: input_ensure_def Let_def intro!: rm_ok_intros
        split: prod.splits result.splits option.splits)
qed (use assms in \<open>auto simp: input_ensure_def\<close>)

lemma reprovision_cases:
  assumes "reprovision_plain_producer eng sid (rm, w) = (r, rm', w')"
    and "dm_get (rm_sessions rm) sid = Some s"
  obtains s' where "rm' = put_session sid s' rm" and "ss_viewers s' = ss_viewers s"
    and "is_ok r \<longleftrightarrow> ss_plain_producer s' \<noteq> None" and "ss_router s' = ss_router s"
  using assms
  by (auto simp: reprovision_plain_producer_def Let_def split: prod.splits result.splits option.splits)

lemma rm_ok_reprovision:
  assumes "rm_ok rm" and "reprovision_plain_producer eng sid (rm, w) = (r, rm', w')"
  shows "rm_ok rm'"
proof (cases "dm_get (rm_sessions rm) sid")
  case (Some s)
  from reprovision_cases [OF assms(2) Some] rm_ok_get [OF assms(1) Some] assms(1) show ?thesis
    by (metis rm_ok_put)
qed (use assms in \<open>auto simp: reprovision_plain_producer_def\<close>)

lemma rm_ok_monitor:
  assumes "rm_ok rm" and "monitor_one eng clock sid (act, rm, w) = (act', rm', w')"
  shows "rm_ok rm'"
  using assms
  by (auto simp: monitor_one_def split: prod.splits option.splits result.splits bool.splits
      dest: rm_ok_reprovision)

lemma rm_ok_step: "rm_step eng ws env st st' \<Longrightarrow> rm_ok (fst st) \<Longrightarrow> rm_ok (fst st')"
proof (induction rule: rm_step.induct)
  case (step_close sid rm w rm' w' bs)
  then show ?case by (auto simp: close_session_def rm_ok_def split: option.splits if_splits)
next
  case (step_leave sid v rm w rm' w' bs)
  then show ?case
    using rm_ok_get [of rm sid]
    by (auto simp: remove_viewer_def split: option.splits intro!: rm_ok_intros viewers_ok_remove)
next
  case (step_provision_race s sid rm w rm' w' bs)
  then show ?case by (auto simp: commit_session_def rm_ok_def split: if_splits)
qed (auto dest: rm_ok_provision rm_ok_create rm_ok_consume_commit rm_ok_input_commit
    rm_ok_input_ensure rm_ok_monitor)

lemma monitor_decide_snd:
  "snd (monitor_decide now sample entry) \<longleftrightarrow>
     sa_has_viewers sample \<and>
     (case entry of None \<Rightarrow> False
      | Some e \<Rightarrow> ac_ever_flowed e \<and> sa_byte_count sample \<le> ac_last_bytes e \<and> now - ac_last_change e \<ge> 12000)"
  by (auto simp: monitor_decide_def Let_def source_starve_ms_def split: option.splits)

text \<open>A mediasoup whose plain transports can be made while the world is True.\<close>

definition demo_transport :: webrtc_transport where
  "demo_transport = \<lparr>wt_id = ''t'', wt_ice_parameters = JNull, wt_ice_candidates = JNull,
     wt_dtls_parameters = JNull, wt_sctp_parameters = None\<rparr>"

definition demo_engine :: "bool engine" where
  "demo_engine =
     \<lparr>ms_create_worker = (\<lambda>w. (Ok (), w)), ms_create_server = (\<lambda>_ _ w. (Ok ''srv'', w)),
      ms_create_router = (\<lambda>_ _ w. (Ok ''r'', w)), ms_caps = (\<lambda>_. JNull),
      ms_create_plain = (\<lambda>_ _ w. (if w then Ok \<lparr>pt_id = ''pt'', pt_rtp_port = 5000, pt_rtcp_port = None\<rparr>
                                    else Err ''EADDRINUSE'', w)),
      ms_produce = (\<lambda>_ k _ w. (Ok (if k = Video then ''v'' else ''a''), w)),
      ms_create_webrtc = (\<lambda>_ _ w. (Ok demo_transport, w)), ms_connect = (\<lambda>_ _ w. (Ok (), w)),
      ms_produce_data = (\<lambda>_ _ w. (Ok ''dp'', w)), ms_create_direct = (\<lambda>_ w. (Ok ''dt'', w)),
      ms_consume_data = (\<lambda>_ _ w. (Ok ''dc'', w)),
      ms_consume = (\<lambda>_ p _ _ w. (Ok \<lparr>cs_id = ''c'', cs_producer_id = p, cs_kind = ''video'', cs_rtp_parameters = JNull\<rparr>, w)),
      ms_resume = (\<lambda>_ w. (Ok (), w)), ms_set_layers = (\<lambda>_ _ _ w. (Ok (), w)),
      ms_transport_stats = (\<lambda>_ w. (Ok [], w)), ms_producer_stats = (\<lambda>_ w. (Ok [], w)),
      ms_drop = (\<lambda>_ w. w), ms_sleep = (\<lambda>_ w. w)\<rparr>"

definition demo_listen :: router_listen_info where
  "demo_listen = \<lparr>li_listen_ip = ''0.0.0.0'', li_announced_ip = ''127.0.0.1'', li_lan_announced_ip = None,
     li_rtc_min_port = 50000, li_rtc_max_port = 60000, li_plain_rtp_min_port = 5000, li_plain_rtp_max_port = 9999\<rparr>"

definition demo_rm :: router_manager where
  "demo_rm = \<lparr>rm_workers = 1, rm_webrtc_servers = [''srv''], rm_worker_cursor = 0, rm_sessions = [], rm_listen = demo_listen\<rparr>"

definition demo_session :: sfu_session where
  "demo_session = \<lparr>ss_session_id = ''s'', ss_router = ''r'', ss_plain_producer = Some ''v'',
     ss_plain_audio_producer = Some ''a'',
     ss_plain_transport = Some \<lparr>pt_id = ''pt'', pt_rtp_port = 5000, pt_rtcp_port = None\<rparr>, ss_viewers = [],
     ss_direct_transport = None, ss_input_bridge = None, ss_webrtc_server = ''srv''\<rparr>"

lemma demo_provision:
  "\<exists>p rm. provision_session demo_engine ''s'' (demo_rm, True) = (Ok p, rm, True)
     \<and> pr_plain_rtp_port p = 5000 \<and> dm_get (rm_sessions rm) ''s'' = Some demo_session"
  by (simp add: provision_session_def pick_worker_index_def build_session_def rbind_def io_ctx_def or_drop_def
      commit_session_def demo_engine_def demo_rm_def demo_session_def)

section \<open>Properties\<close>

text \<open>C1 The viewer cap: however the operations of the SFU interleave, whatever mediasoup answers, no
  session ever has more than 30 viewers, so the count that is reported is at most 30.\<close>

theorem viewer_cap_invariant:
  assumes "(rm_step eng ws env)\<^sup>*\<^sup>* (rm0, bs0, w0) (rm, bs, w)" and "rm_sessions rm0 = []"
  shows "viewer_count rm sid \<le> viewer_cap_per_session
    \<and> (\<forall>s. dm_get (rm_sessions rm) sid = Some s \<longrightarrow> length (ss_viewers s) \<le> 30)"
proof -
  have "rm_ok rm0" using assms(2) by (simp add: rm_ok_def)
  with assms(1) have ok: "rm_ok rm"
    by (induction "(rm, bs, w)" arbitrary: rm bs w rule: rtranclp_induct) (use rm_ok_step in force)+
  then have "length (ss_viewers s) \<le> 30" if "dm_get (rm_sessions rm) sid = Some s" for s
    using rm_ok_get [OF ok that] by (simp add: viewers_ok_def)
  then show ?thesis
    by (auto simp: viewer_count_def viewer_cap_per_session_def word_le_nat_alt unsigned_of_nat
        take_bit_nat_eq_self split: option.splits)
qed

lemma viewer_cap_invariant_witness:
  "\<exists>rm1 rm2. provision_session demo_engine ''s'' (demo_rm, True) = (fst (provision_session demo_engine ''s'' (demo_rm, True)), rm1, True)
     \<and> (\<exists>r. create_consumer_transports demo_engine ''s'' ''v1'' (rm1, True) = (r, rm2, True))
     \<and> viewer_count rm2 ''s'' = 1 \<and> viewer_count rm2 ''s'' \<le> viewer_cap_per_session"
proof -
  obtain p rm1 where p: "provision_session demo_engine ''s'' (demo_rm, True) = (Ok p, rm1, True)"
    and s: "dm_get (rm_sessions rm1) ''s'' = Some demo_session"
    using demo_provision by blast
  obtain r rm2 where c: "create_consumer_transports demo_engine ''s'' ''v1'' (rm1, True) = (r, rm2, True)"
    and n: "viewer_count rm2 ''s'' = 1"
    by (simp add: create_consumer_transports_def s demo_session_def viewer_cap_per_session_def rbind_def
        io_ctx_def or_drop_def demo_engine_def put_session_def viewer_count_def)
  let ?bs = "\<lparr>bs_registry = [], bs_store = [], bs_next = 0\<rparr>"
  let ?ws = "\<lparr>ws_request = (\<lambda>_ _. Ok ()), ws_connect = (\<lambda>_ _ w. (Ok 0, w)), ws_send = (\<lambda>_ _ w. (Ok (), w)),
     ws_close = (\<lambda>_ w. w)\<rparr>"
  have "(rm_step demo_engine ?ws (\<lambda>_. None))\<^sup>*\<^sup>* (demo_rm, ?bs, True) (rm2, ?bs, True)"
    using step_provision [OF p, of ?ws "\<lambda>_. None" ?bs] step_join [OF c, of ?ws "\<lambda>_. None" ?bs] by simp
  from viewer_cap_invariant [OF this] have "viewer_count rm2 ''s'' \<le> viewer_cap_per_session"
    by (simp add: demo_rm_def)
  with p c n show ?thesis by auto
qed

text \<open>Provisioning is idempotent: after a success the same call answers the same router, ports and
  producer ids again, without touching mediasoup or the state.\<close>

lemma provision_idempotent:
  assumes "provision_session eng sid (rm, w) = (Ok p, rm', w')"
  shows "provision_session eng sid (rm', w2) = (Ok p, rm', w2)"
proof (cases "dm_get (rm_sessions rm) sid")
  case (Some s)
  with assms show ?thesis by (auto simp: provision_session_def)
next
  case None
  have b: "sfu_snapshot eng s = Ok p" if "build_session eng li wi srv i u = (Ok (s, p), u')" for li wi srv i u s p u'
    using that by (auto simp: build_session_def rbind_Ok_iff sfu_snapshot_def Let_def split: option.splits)
  from None assms b show ?thesis
    by (auto simp: provision_session_def pick_worker_index_def commit_session_def
        split: prod.splits result.splits)
qed

lemma provision_idempotent_witness:
  "\<exists>p rm. provision_session demo_engine ''s'' (demo_rm, True) = (Ok p, rm, True)
     \<and> provision_session demo_engine ''s'' (rm, False) = (Ok p, rm, False)"
proof -
  obtain p rm where p: "provision_session demo_engine ''s'' (demo_rm, True) = (Ok p, rm, True)"
    using demo_provision by blast
  from provision_idempotent [OF p] p show ?thesis by blast
qed

text \<open>C35 One input producer per viewer: when two requests race, the second commit gets the producer of
  the first, leaves the state alone and drops its own producer and consumer; and every later
  request answers the same id without calling mediasoup.\<close>

theorem input_single_producer:
  assumes "input_commit eng sid v p c (rm, w) = (Ok i, rm1, w1)"
  shows "input_commit eng sid v p' c' (rm1, w2) = (Ok i, rm1, ms_drop eng [c', p'] w2)
    \<and> produce_input_data eng ws env sid v opts (rm1, bs, w2) = (Ok i, rm1, bs, w2)"
  using assms
  by (auto simp: input_commit_def put_slot_def put_session_def idempotent_produce_decision_def
      produce_input_data_def input_begin_def find_slot_def split: option.splits)

lemma input_single_producer_witness:
  "\<exists>rm w. input_commit demo_engine ''s'' ''v1'' ''dp1'' ''dc1''
       (put_slot ''s'' demo_session ''v1'' \<lparr>vs_viewer_id = ''v1'', vs_recv_transport = demo_transport,
          vs_send_transport = Some demo_transport, vs_consumers = [], vs_input_data_producer = None,
          vs_input_data_consumer = None\<rparr> demo_rm, True) = (Ok ''dp1'', rm, w)
     \<and> input_commit demo_engine ''s'' ''v1'' ''dp2'' ''dc2'' (rm, w) = (Ok ''dp1'', rm, ms_drop demo_engine [''dc2'', ''dp2''] w)"
proof -
  obtain rm w where c: "input_commit demo_engine ''s'' ''v1'' ''dp1'' ''dc1''
       (put_slot ''s'' demo_session ''v1'' \<lparr>vs_viewer_id = ''v1'', vs_recv_transport = demo_transport,
          vs_send_transport = Some demo_transport, vs_consumers = [], vs_input_data_producer = None,
          vs_input_data_consumer = None\<rparr> demo_rm, True) = (Ok ''dp1'', rm, w)"
    by (simp add: input_commit_def put_slot_def put_session_def idempotent_produce_decision_def)
  from input_single_producer [OF c] c show ?thesis by blast
qed

text \<open>When a reprovision is called for: exactly when viewers are present, the producer had flowed, no
  byte arrived since, and at least 12 seconds have passed since the last one did. A producer that
  never flowed, a session without viewers and a flowing one are left alone.\<close>

lemma monitor_reprovisions_iff:
  "snd (monitor_decide now sample entry) \<longleftrightarrow>
     sa_has_viewers sample \<and>
     (case entry of None \<Rightarrow> False
      | Some e \<Rightarrow> ac_ever_flowed e \<and> sa_byte_count sample \<le> ac_last_bytes e \<and> now - ac_last_change e \<ge> 12000)"
  by (rule monitor_decide_snd)



text \<open>C36 A reprovision that fails leaves the session without producers, and nothing repairs it: the next
  \<open>provision_session\<close> of the session panics (the release profile aborts the process), and the
  monitor only forgets the session's tracking and never tries again.\<close>

theorem failed_reprovision_panics:
  assumes "dm_get (rm_sessions rm) sid = Some s"
    and "reprovision_plain_producer eng sid (rm, w) = (Err e, rm', w')"
  shows "provision_session eng sid (rm', w2) = (Err (Panic ''plain_producer absent on snapshot''), rm', w2)
    \<and> monitor_one eng clock sid (act, rm', w2) = (dm_remove sid act, rm', w2)"
proof -
  obtain s' where "rm' = put_session sid s' rm" "ss_plain_producer s' = None"
    using reprovision_cases [OF assms(2,1)] by auto
  then show ?thesis
    by (simp add: provision_session_def put_session_def sfu_snapshot_def monitor_one_def take_producer_sample_def)
qed

lemma failed_reprovision_panics_witness:
  "\<exists>e rm'. reprovision_plain_producer demo_engine ''s'' (put_session ''s'' demo_session demo_rm, False) = (Err e, rm', False)
     \<and> provision_session demo_engine ''s'' (rm', True) = (Err (Panic ''plain_producer absent on snapshot''), rm', True)"
proof -
  obtain e rm' where r: "reprovision_plain_producer demo_engine ''s''
      (put_session ''s'' demo_session demo_rm, False) = (Err e, rm', False)"
    by (simp add: reprovision_plain_producer_def put_session_def demo_session_def demo_engine_def
        numeral_eq_Suc)
  have "dm_get (rm_sessions (put_session ''s'' demo_session demo_rm)) ''s'' = Some demo_session"
    by (simp add: put_session_def)
  from failed_reprovision_panics [OF this r] r show ?thesis by blast
qed

end
