(* ===== verification/SfuWs.thy ===== *)
theory SfuWs
  imports RouterManager CallbackClient
begin

text \<open>
  \<open>edge-control/src/routes/sfu_ws.rs\<close>: the WebSocket of a viewer, from the authorisation of the
  upgrade to the last frame. The frames that arrive are a list (its end is the end of the
  stream), the socket's send, the callback client and the decoders of mediasoup's JSON types are
  parameters; the SFU is the model of \<open>RouterManager\<close>.
\<close>

definition err_connect_input_failed :: string where
  "err_connect_input_failed = ''connect_input_failed''"

definition err_produce_input_failed :: string where
  "err_produce_input_failed = ''produce_input_failed''"

section \<open>The upgrade\<close>

text \<open>Headers by lower-case name; a header whose value is not ASCII text counts as absent.\<close>

type_synonym headers = "string \<Rightarrow> string option"

datatype status_code = UNAUTHORIZED | FORBIDDEN

definition authorize_viewer :: "string option \<Rightarrow> string \<Rightarrow> (unit, status_code) result" where
  "authorize_viewer cookie_sub requested =
     (case cookie_sub of
        Some s \<Rightarrow>
          if s \<noteq> [] then (if s = requested then Ok () else Err FORBIDDEN) else Err UNAUTHORIZED
      | None \<Rightarrow> Err UNAUTHORIZED)"

definition client_ip :: "headers \<Rightarrow> string \<Rightarrow> string option" where
  "client_ip headers peer_ip =
     (case headers ''x-forwarded-for'' of
        Some value \<Rightarrow>
          let trimmed = trim (hd (split_on CHR '','' value))
          in if trimmed \<noteq> [] then Some trimmed else Some peer_ip
      | None \<Rightarrow> Some peer_ip)"

text \<open>Sixteen lower-case hexadecimal digits of a 64 bit value.\<close>

definition hex_digit :: "nat \<Rightarrow> char" where
  "hex_digit n = (if n < 10 then char_of (48 + n) else char_of (87 + n))"

fun hex_n :: "nat \<Rightarrow> nat \<Rightarrow> string" where
  "hex_n 0 n = []"
| "hex_n (Suc k) n = hex_n k (n div 16) @ [hex_digit (n mod 16)]"

definition mint_viewer_id :: "u64 \<Rightarrow> string" where
  "mint_viewer_id nanos =
     (let mix = nanos * 0x9E3779B97F4A7C15
      in ''v-'' @ hex_n 16 (unat nanos) @ hex_n 16 (unat mix))"

section \<open>Messages\<close>

datatype client_message =
    CInit json
  | ConnectConsumerTransport json
  | Consume string
  | ConsumerResume string
  | SetPreferredLayers string u8 "u8 option"
  | ConnectInputTransport json
  | ProduceInput json string string

record wire =
  wi_parse :: "string \<Rightarrow> json option"
  wi_caps :: "json \<Rightarrow> bool"
  wi_dtls :: "json \<Rightarrow> bool"
  wi_id :: "string \<Rightarrow> bool"
  wi_sctp :: "json \<Rightarrow> bool"

definition need :: "(json \<Rightarrow> bool) \<Rightarrow> json option \<Rightarrow> json option" where
  "need ok j = (case j of Some v \<Rightarrow> if ok v then Some v else None | None \<Rightarrow> None)"

definition need_str :: "(string \<Rightarrow> bool) \<Rightarrow> json option \<Rightarrow> string option" where
  "need_str ok j = (case j of Some (JStr s) \<Rightarrow> if ok s then Some s else None | _ \<Rightarrow> None)"

definition opt_u8 :: "json option \<Rightarrow> u8 option option" where
  "opt_u8 j = (case j of None \<Rightarrow> Some None | Some JNull \<Rightarrow> Some None
               | Some v \<Rightarrow> map_option (\<lambda>i. Some (word_of_int i)) (de_uint 8 (Some v)))"

definition client_message_of :: "wire \<Rightarrow> string \<Rightarrow> client_message option" where
  "client_message_of wi text =
     Option.bind (wi_parse wi text) (\<lambda>j.
       case j_get ''action'' j of
         Some (JStr a) \<Rightarrow>
           if a = ''Init'' then map_option CInit (need (wi_caps wi) (j_get ''rtpCapabilities'' j))
           else if a = ''ConnectConsumerTransport''
           then map_option ConnectConsumerTransport (need (wi_dtls wi) (j_get ''dtlsParameters'' j))
           else if a = ''Consume'' then map_option Consume (need_str (wi_id wi) (j_get ''producerId'' j))
           else if a = ''ConsumerResume'' then map_option ConsumerResume (need_str (wi_id wi) (j_get ''id'' j))
           else if a = ''SetPreferredLayers'' then
             Option.bind (need_str (wi_id wi) (j_get ''id'' j)) (\<lambda>i.
             Option.bind (de_uint 8 (j_get ''spatialLayer'' j)) (\<lambda>s.
             map_option (SetPreferredLayers i (word_of_int s)) (opt_u8 (j_get ''temporalLayer'' j))))
           else if a = ''ConnectInputTransport''
           then map_option ConnectInputTransport (need (wi_dtls wi) (j_get ''dtlsParameters'' j))
           else if a = ''ProduceInput'' then
             Option.bind (need (wi_sctp wi) (j_get ''sctpStreamParameters'' j)) (\<lambda>p.
             Option.bind (need_str (\<lambda>_. True) (j_get ''label'' j)) (\<lambda>l.
             map_option (ProduceInput p l) (need_str (\<lambda>_. True) (j_get ''protocol'' j))))
           else None
       | _ \<Rightarrow> None)"

definition init_transport_options :: "consumer_transport_info \<Rightarrow> json" where
  "init_transport_options info =
     mk_obj [(''id'', JStr (ct_transport_id info)), (''dtlsParameters'', ct_dtls_parameters info),
             (''iceCandidates'', ct_ice_candidates info), (''iceParameters'', ct_ice_parameters info)]"

definition should_advertise_input :: "'a option \<Rightarrow> bool" where
  "should_advertise_input send_sctp \<longleftrightarrow> send_sctp \<noteq> None"

fun attach_input_fields :: "json \<Rightarrow> json \<Rightarrow> json \<Rightarrow> json" where
  "attach_input_fields (JObj es) opts sctp =
     JObj (ins_key ''inputSctpParameters'' sctp (ins_key ''inputTransportOptions'' opts es))"
| "attach_input_fields payload opts sctp = payload"

definition opt_json :: "string option \<Rightarrow> json" where
  "opt_json x = (case x of Some s \<Rightarrow> JStr s | None \<Rightarrow> JNull)"

definition build_init_payload ::
  "consumer_transport_info \<Rightarrow> consumer_transport_info \<Rightarrow> string \<Rightarrow> string option \<Rightarrow> json \<Rightarrow> json" where
  "build_init_payload recv_info send_info producer_id audio_producer_id router_caps =
     (let payload = mk_obj [(''action'', JStr ''Init''),
            (''consumerTransportOptions'', init_transport_options recv_info),
            (''routerRtpCapabilities'', router_caps), (''plainProducerId'', JStr producer_id),
            (''audioProducerId'', opt_json audio_producer_id)]
      in if should_advertise_input (ct_sctp_parameters send_info)
         then attach_input_fields payload (init_transport_options send_info) (the (ct_sctp_parameters send_info))
         else payload)"

definition consumed_to_payload :: "consumed_info \<Rightarrow> json" where
  "consumed_to_payload c =
     mk_obj [(''action'', JStr ''Consumed''), (''id'', JStr (ci_id c)), (''producerId'', JStr (ci_producer_id c)),
             (''kind'', JStr (ci_kind c)), (''rtpParameters'', ci_rtp_parameters c)]"

definition error_payload :: "string \<Rightarrow> json" where
  "error_payload code = mk_obj [(''action'', JStr ''Error''), (''code'', JStr code)]"

section \<open>The connection\<close>

datatype ws_in = Text string | Binary | Ping string | Pong | CloseIn | RecvError

datatype ws_out = OutJson json | OutPong string | OutClose nat string

record 'w ws_host =
  wh_engine :: "'w engine"
  wh_neko :: "'w ws"
  wh_env :: env
  wh_wire :: wire
  wh_callback :: "edge_callback_event \<Rightarrow> ('w, unit edge_result) io"
  wh_send :: "ws_out \<Rightarrow> ('w, (unit, string) result) io"

type_synonym 'w sfu_state = "router_manager \<times> bridges \<times> 'w"

text \<open>\<open>socket.send(...).await?\<close> and \<open>send_error\<close>: an error ends the session.\<close>

definition sock :: "'w ws_host \<Rightarrow> ws_out \<Rightarrow> 'w sfu_state \<Rightarrow> (unit, string) result \<times> 'w sfu_state" where
  "sock h out = (\<lambda>(rm, bs, w). case wh_send h out w of (r, w) \<Rightarrow> (r, rm, bs, w))"

definition send_error :: "'w ws_host \<Rightarrow> string \<Rightarrow> 'w sfu_state \<Rightarrow> (unit, string) result \<times> 'w sfu_state" where
  "send_error h code = sock h (OutJson (error_payload code))"

definition keep_caps ::
  "json option \<Rightarrow> (unit, string) result \<times> 'w sfu_state \<Rightarrow> (json option, string) result \<times> 'w sfu_state" where
  "keep_caps caps x = (case x of (Ok _, st) \<Rightarrow> (Ok caps, st) | (Err e, st) \<Rightarrow> (Err e, st))"

definition input_options :: "json \<Rightarrow> string \<Rightarrow> string \<Rightarrow> json" where
  "input_options sctp lbl protocol =
     mk_obj [(''sctp'', sctp), (''label'', JStr lbl), (''protocol'', JStr protocol)]"

definition handle_message ::
  "'w ws_host \<Rightarrow> session_id \<Rightarrow> string \<Rightarrow> client_message \<Rightarrow> json option \<Rightarrow> 'w sfu_state
   \<Rightarrow> (json option, string) result \<times> 'w sfu_state" where
  "handle_message h sid vid msg caps = (\<lambda>(rm, bs, w).
     case msg of
       CInit rtp_capabilities \<Rightarrow> (Ok (Some rtp_capabilities), rm, bs, w)
     | ConnectConsumerTransport dtls \<Rightarrow>
         (case connect_recv_transport (wh_engine h) rm sid vid dtls w of
            (Err _, w) \<Rightarrow> keep_caps caps (send_error h ''connect_consumer_transport_failed'' (rm, bs, w))
          | (Ok _, w) \<Rightarrow>
              keep_caps caps (sock h (OutJson (mk_obj [(''action'', JStr ''ConnectedConsumerTransport'')])) (rm, bs, w)))
     | Consume producer_id \<Rightarrow>
         (case caps of
            None \<Rightarrow> keep_caps caps (send_error h ''consume_before_init'' (rm, bs, w))
          | Some c \<Rightarrow>
              (case sfu_consume (wh_engine h) sid vid producer_id c (rm, w) of
                 (Err _, rm, w) \<Rightarrow> keep_caps caps (send_error h ''consume_failed'' (rm, bs, w))
               | (Ok consumed, rm, w) \<Rightarrow> keep_caps caps (sock h (OutJson (consumed_to_payload consumed)) (rm, bs, w))))
     | ConsumerResume cid \<Rightarrow>
         (case resume_consumer (wh_engine h) rm sid vid cid w of
            (Err _, w) \<Rightarrow> keep_caps caps (send_error h ''consumer_resume_failed'' (rm, bs, w))
          | (Ok _, w) \<Rightarrow> (Ok caps, rm, bs, w))
     | SetPreferredLayers cid spatial temporal \<Rightarrow>
         (case set_preferred_layers (wh_engine h) rm sid vid cid spatial temporal w of
            (Err _, w) \<Rightarrow> keep_caps caps (send_error h ''set_preferred_layers_failed'' (rm, bs, w))
          | (Ok _, w) \<Rightarrow> (Ok caps, rm, bs, w))
     | ConnectInputTransport dtls \<Rightarrow>
         (case connect_send_transport (wh_engine h) rm sid vid dtls w of
            (Err _, w) \<Rightarrow> keep_caps caps (send_error h err_connect_input_failed (rm, bs, w))
          | (Ok _, w) \<Rightarrow>
              keep_caps caps (sock h (OutJson (mk_obj [(''action'', JStr ''ConnectedInputTransport'')])) (rm, bs, w)))
     | ProduceInput sctp lbl protocol \<Rightarrow>
         (case produce_input_data (wh_engine h) (wh_neko h) (wh_env h) sid vid (input_options sctp lbl protocol)
                 (rm, bs, w) of
            (Ok i, st) \<Rightarrow>
              keep_caps caps (sock h (OutJson (mk_obj [(''action'', JStr ''InputProduced''), (''id'', JStr i)])) st)
          | (Err _, st) \<Rightarrow> keep_caps caps (send_error h err_produce_input_failed st)))"

text \<open>The loop over the frames: \<open>Ok ()\<close> when it breaks or the stream ends.\<close>

fun frame_loop ::
  "'w ws_host \<Rightarrow> session_id \<Rightarrow> string \<Rightarrow> ws_in list \<Rightarrow> json option \<Rightarrow> 'w sfu_state
   \<Rightarrow> (unit, string) result \<times> 'w sfu_state" where
  "frame_loop h sid vid [] caps st = (Ok (), st)"
| "frame_loop h sid vid (f # fs) caps st =
     (case f of
        RecvError \<Rightarrow> (Ok (), st)
      | CloseIn \<Rightarrow> (Ok (), st)
      | Binary \<Rightarrow> frame_loop h sid vid fs caps st
      | Pong \<Rightarrow> frame_loop h sid vid fs caps st
      | Ping p \<Rightarrow> (case sock h (OutPong p) st of (Ok _, st) \<Rightarrow> frame_loop h sid vid fs caps st | (Err e, st) \<Rightarrow> (Err e, st))
      | Text t \<Rightarrow>
          (case client_message_of (wh_wire h) t of
             None \<Rightarrow> frame_loop h sid vid fs caps st
           | Some msg \<Rightarrow>
               (case handle_message h sid vid msg caps st of
                  (Ok caps, st) \<Rightarrow> frame_loop h sid vid fs caps st
                | (Err e, st) \<Rightarrow> (Err e, st))))"

fun fail_text :: "rm_error \<Rightarrow> string" where
  "fail_text (Fail s) = s"
| "fail_text (Panic s) = s"

definition run_session ::
  "'w ws_host \<Rightarrow> session_id \<Rightarrow> string \<Rightarrow> string option \<Rightarrow> string option \<Rightarrow> ws_in list \<Rightarrow> 'w sfu_state
   \<Rightarrow> (bool, string) result \<times> 'w sfu_state" where
  "run_session h sid vid viewer_ip user_agent frames = (\<lambda>(rm, bs, w).
     case create_consumer_transports (wh_engine h) sid vid (rm, w) of
       (Err err, rm, w) \<Rightarrow>
         let msg = fail_text err;
             close = (if str_contains ''viewer cap'' msg then OutClose 1013 ''viewer cap reached''
                      else if str_contains ''session not found'' msg then OutClose 1008 ''session not found''
                      else OutClose 1011 ''internal error'')
         in (Ok False, snd (sock h close (rm, bs, w)))
     | (Ok (recv_info, send_info), rm, w) \<Rightarrow>
         (case wh_callback h (ViewerConnected sid (Some vid) viewer_ip user_agent) w of
            (_, w) \<Rightarrow>
              (case session_producer_info (wh_engine h) rm sid of
                 Err e \<Rightarrow> (Err (fail_text e), rm, bs, w)
               | Ok (producer_id, audio_producer_id, router_caps) \<Rightarrow>
                   (case sock h (OutJson (build_init_payload recv_info send_info producer_id audio_producer_id
                                            router_caps)) (rm, bs, w) of
                      (Err e, st) \<Rightarrow> (Err e, st)
                    | (Ok _, st) \<Rightarrow>
                        (case frame_loop h sid vid frames None st of
                           (Err e, st) \<Rightarrow> (Err e, st)
                         | (Ok _, st) \<Rightarrow> (Ok True, st))))))"

text \<open>The task that \<open>ws_handler\<close> starts on the upgraded socket.\<close>

definition ws_task ::
  "'w ws_host \<Rightarrow> session_id \<Rightarrow> string \<Rightarrow> string option \<Rightarrow> string option \<Rightarrow> ws_in list \<Rightarrow> 'w sfu_state \<Rightarrow> 'w sfu_state" where
  "ws_task h sid vid viewer_ip user_agent frames st =
     (case run_session h sid vid viewer_ip user_agent frames st of
        (r, rm, bs, w) \<Rightarrow>
          let slot_acquired = (case r of Ok slot \<Rightarrow> slot | Err _ \<Rightarrow> False) in
          (case remove_viewer (wh_engine h) sid vid (rm, w) of
             (rm, w) \<Rightarrow>
               if slot_acquired
               then (case wh_callback h (ViewerDisconnected sid (Some vid)) w of (_, w) \<Rightarrow> (rm, bs, w))
               else (rm, bs, w)))"

definition ws_handler ::
  "'w ws_host \<Rightarrow> u64 \<Rightarrow> string \<Rightarrow> headers \<Rightarrow> string \<Rightarrow> ws_in list \<Rightarrow> 'w sfu_state
   \<Rightarrow> (unit, status_code) result \<times> 'w sfu_state" where
  "ws_handler h nanos session headers peer_ip frames st =
     (case authorize_viewer (headers ''x-forwarded-sub'') session of
        Err code \<Rightarrow> (Err code, st)
      | Ok _ \<Rightarrow>
          (Ok (), ws_task h session (mint_viewer_id nanos) (client_ip headers peer_ip) (headers ''user-agent'') frames st))"

section \<open>A connection only touches its own slot\<close>

definition slot_of :: "router_manager \<Rightarrow> session_id \<Rightarrow> string \<Rightarrow> viewer_slot option" where
  "slot_of rm sid v = Option.bind (dm_get (rm_sessions rm) sid) (\<lambda>s. dm_get (ss_viewers s) v)"

definition only_slot :: "session_id \<Rightarrow> string \<Rightarrow> router_manager \<Rightarrow> router_manager \<Rightarrow> bool" where
  "only_slot sid v rm rm' \<longleftrightarrow> (\<forall>i u. (i, u) \<noteq> (sid, v) \<longrightarrow> slot_of rm' i u = slot_of rm i u)"

named_theorems only_slot_intros \<open>which slots an operation leaves alone\<close>

lemma only_slot_refl [simp]: "only_slot sid v rm rm"
  by (simp add: only_slot_def)

lemma only_slot_trans: "only_slot sid v a b \<Longrightarrow> only_slot sid v b c \<Longrightarrow> only_slot sid v a c"
  by (simp add: only_slot_def)

lemma only_slot_put:
  assumes "dm_get (rm_sessions rm) sid = Some s"
    and "\<And>u. u \<noteq> v \<Longrightarrow> dm_get (ss_viewers s') u = dm_get (ss_viewers s) u"
  shows "only_slot sid v rm (put_session sid s' rm)"
  using assms by (auto simp: only_slot_def slot_of_def put_session_def)

lemma only_slot_create:
  "create_consumer_transports eng sid v (rm, w) = (r, rm', w') \<Longrightarrow> only_slot sid v rm rm'"
  by (auto simp: create_consumer_transports_def Let_def intro!: only_slot_put
      split: option.splits prod.splits result.splits if_splits)

lemma only_slot_remove: "remove_viewer eng sid v (rm, w) = (rm', w') \<Longrightarrow> only_slot sid v rm rm'"
  by (auto simp: remove_viewer_def intro!: only_slot_put split: option.splits)

lemma only_slot_consume: "sfu_consume eng sid v p c (rm, w) = (r, rm', w') \<Longrightarrow> only_slot sid v rm rm'"
  by (auto simp: sfu_consume_def consume_commit_def put_slot_def intro!: only_slot_put
      split: prod.splits result.splits option.splits)

lemma only_slot_ensure: "input_ensure eng ws env sid (rm, bs, w) = (r, rm', bs', w') \<Longrightarrow> only_slot sid v rm rm'"
  by (auto simp: input_ensure_def Let_def intro!: only_slot_put
      split: option.splits prod.splits result.splits)

lemma only_slot_commit: "input_commit eng sid v p c (rm, w) = (r, rm', w') \<Longrightarrow> only_slot sid v rm rm'"
  by (auto simp: input_commit_def put_slot_def intro!: only_slot_put
      split: option.splits idempotent_produce.splits)

lemma only_slot_produce:
  assumes "produce_input_data eng ws env sid v opts (rm, bs, w) = (r, rm', bs', w')"
  shows "only_slot sid v rm rm'"
  using assms
  by (auto simp: produce_input_data_def split: result.splits sum.splits prod.splits
      dest!: only_slot_ensure only_slot_commit intro: only_slot_trans)

lemma keep_caps_state [simp]: "snd (keep_caps caps x) = snd x"
  by (auto simp: keep_caps_def split: prod.splits result.splits)

lemma sock_rm [simp]: "fst (snd (sock h out st)) = fst st"
  by (auto simp: sock_def split: prod.splits)

lemma send_error_rm [simp]: "fst (snd (send_error h code st)) = fst st"
  by (simp add: send_error_def)

lemma only_slot_message: "only_slot sid vid (fst st) (fst (snd (handle_message h sid vid msg caps st)))"
proof -
  obtain rm bs w where st: "st = (rm, bs, w)" by (metis prod_cases3)
  show ?thesis
  proof (cases msg)
    case (Consume p)
    then show ?thesis
      by (auto simp: st handle_message_def split: option.split prod.split result.split dest: only_slot_consume)
  next
    case (ProduceInput a b c)
    then show ?thesis
      by (auto simp: st handle_message_def split: prod.split result.split dest: only_slot_produce)
  qed (simp_all add: st handle_message_def split: prod.split result.split)
qed

lemma only_slot_loop: "only_slot sid vid (fst st) (fst (snd (frame_loop h sid vid fs caps st)))"
proof (induction fs arbitrary: caps st)
  case (Cons f fs)
  show ?case
  proof (cases f)
    case (Text t)
    show ?thesis
    proof (cases "client_message_of (wh_wire h) t")
      case None
      with Cons Text show ?thesis by simp
    next
      case (Some msg)
      obtain r st' where m: "handle_message h sid vid msg caps st = (r, st')" by (metis surj_pair)
      have 1: "only_slot sid vid (fst st) (fst st')"
        using only_slot_message [of sid vid st h msg caps] m by simp
      with Cons.IH [of st'] m Text Some show ?thesis
        by (cases r) (auto intro: only_slot_trans)
    qed
  next
    case (Ping p)
    obtain r st' where m: "sock h (OutPong p) st = (r, st')" by (metis surj_pair)
    then have "fst st' = fst st" using sock_rm [of h "OutPong p" st] by simp
    with Cons.IH [of st' caps] m Ping show ?thesis by (cases r) auto
  qed (use Cons in auto)
qed simp

lemma only_slot_session:
  "only_slot sid vid (fst st) (fst (snd (run_session h sid vid ip ua fs st)))"
proof -
  obtain rm bs w where st: "st = (rm, bs, w)" by (metis prod_cases3)
  obtain r rm1 w1 where c: "create_consumer_transports (wh_engine h) sid vid (rm, w) = (r, rm1, w1)"
    by (metis prod_cases3)
  note 1 = only_slot_create [OF c]
  show ?thesis
  proof (cases r)
    case (Err e)
    with 1 c show ?thesis by (simp add: st run_session_def Let_def)
  next
    case (Ok ts)
    obtain recv send where ts: "ts = (recv, send)" by force
    obtain x w2 where cb: "wh_callback h (ViewerConnected sid (Some vid) ip ua) w1 = (x, w2)" by force
    show ?thesis
    proof (cases "session_producer_info (wh_engine h) rm1 sid")
      case (Err e)
      with 1 c Ok ts cb show ?thesis by (simp add: st run_session_def)
    next
      case (Ok i)
      obtain pid aid caps where i: "i = (pid, aid, caps)" by (metis prod_cases3)
      obtain y st1 where s: "sock h (OutJson (build_init_payload recv send pid aid caps)) (rm1, bs, w2) = (y, st1)"
        by (metis surj_pair)
      then have rm1: "fst st1 = rm1"
        using sock_rm [of h "OutJson (build_init_payload recv send pid aid caps)" "(rm1, bs, w2)"] by simp
      obtain z st2 where l: "frame_loop h sid vid fs None st1 = (z, st2)" by (metis surj_pair)
      then have "only_slot sid vid rm1 (fst st2)"
        using only_slot_loop [of sid vid st1 h fs None] rm1 by simp
      with 1 c \<open>r = Ok ts\<close> ts cb Ok i s l rm1 show ?thesis
        by (cases y; cases z) (auto simp: st run_session_def intro: only_slot_trans)
    qed
  qed
qed

section \<open>Properties\<close>

text \<open>A viewer's upgrade is accepted exactly when the gate forwarded a non-empty subject equal to the
  session it asks for; a refused upgrade changes nothing.\<close>

lemma ws_upgrade_authorised:
  "case ws_handler h nanos session headers peer frames st of (r, st') \<Rightarrow>
     (r = Ok () \<longleftrightarrow> headers ''x-forwarded-sub'' = Some session \<and> session \<noteq> [])
     \<and> (r \<noteq> Ok () \<longrightarrow> st' = st)"
  by (auto simp: ws_handler_def authorize_viewer_def split: option.splits if_splits)

text \<open>C17 No connection leaks or disturbs a slot: whatever frames arrive and whatever fails, when the
  connection is over its own slot is gone and the slot of every other viewer, in every session,
  is as it was.\<close>

theorem ws_slot_isolation:
  assumes "ws_task h sid vid ip ua frames (rm, bs, w) = (rm', bs', w')"
  shows "slot_of rm' sid vid = None \<and> ((i, u) \<noteq> (sid, vid) \<longrightarrow> slot_of rm' i u = slot_of rm i u)"
proof -
  obtain r rm1 bs1 w1 where s: "run_session h sid vid ip ua frames (rm, bs, w) = (r, rm1, bs1, w1)"
    by (metis prod_cases4)
  obtain w2 where rv: "remove_viewer (wh_engine h) sid vid (rm1, w1) = (rm', w2)"
    using assms s by (auto simp: ws_task_def Let_def split: prod.splits if_splits)
  have "only_slot sid vid rm rm1"
    using only_slot_session [of sid vid "(rm, bs, w)" h ip ua frames] s by simp
  then have "only_slot sid vid rm rm'" using only_slot_remove [OF rv] by (rule only_slot_trans)
  moreover have "slot_of rm' sid vid = None"
    using rv by (auto simp: remove_viewer_def slot_of_def put_session_def split: option.splits)
  ultimately show ?thesis by (simp add: only_slot_def)
qed

definition demo_host :: "bool ws_host" where
  "demo_host =
     \<lparr>wh_engine = demo_engine,
      wh_neko = \<lparr>ws_request = (\<lambda>_ _. Ok ()), ws_connect = (\<lambda>_ _ w. (Ok 0, w)), ws_send = (\<lambda>_ _ w. (Ok (), w)),
                 ws_close = (\<lambda>_ w. w)\<rparr>,
      wh_env = (\<lambda>_. None),
      wh_wire = \<lparr>wi_parse = (\<lambda>_. Some (mk_obj [(''action'', JStr ''Consume''), (''producerId'', JStr ''v'')])),
                 wi_caps = (\<lambda>_. True), wi_dtls = (\<lambda>_. True), wi_id = (\<lambda>_. True), wi_sctp = (\<lambda>_. True)\<rparr>,
      wh_callback = (\<lambda>_ w. (Ok (), w)), wh_send = (\<lambda>_ w. (Ok (), w))\<rparr>"

lemma ws_upgrade_authorised_witness:
  "snd (ws_handler demo_host 0 ''s'' (\<lambda>_. Some ''t'') ''p'' [Text ''x'']
       (demo_rm, \<lparr>bs_registry = [], bs_store = [], bs_next = 0\<rparr>, True))
     = (demo_rm, \<lparr>bs_registry = [], bs_store = [], bs_next = 0\<rparr>, True)"
  using ws_upgrade_authorised [where h = demo_host and nanos = 0 and session = "''s''" and peer = "''p''"
      and headers = "\<lambda>_. Some ''t''" and frames = "[Text ''x'']"
      and st = "(demo_rm, \<lparr>bs_registry = [], bs_store = [], bs_next = 0\<rparr>, True)"]
  by (auto split: prod.splits)

lemma ws_slot_isolation_witness:
  "\<exists>rm' bs' w'. ws_task demo_host ''s'' ''v1'' None None [Text ''x'', Ping ''p'', CloseIn]
       (put_session ''s'' demo_session demo_rm, \<lparr>bs_registry = [], bs_store = [], bs_next = 0\<rparr>, True) = (rm', bs', w')
     \<and> slot_of rm' ''s'' ''v1'' = None"
proof -
  let ?st = "(put_session ''s'' demo_session demo_rm, \<lparr>bs_registry = [], bs_store = [], bs_next = 0\<rparr>, True)"
  obtain rm' bs' w' where t: "ws_task demo_host ''s'' ''v1'' None None [Text ''x'', Ping ''p'', CloseIn] ?st = (rm', bs', w')"
    by (metis prod_cases3)
  from ws_slot_isolation [OF t] t show ?thesis by blast
qed

text \<open>C30 A connection can be announced without its end: when the session has lost its producer after the
  viewer got a slot, the handler has already sent \<open>viewer_connected\<close>, and then all it does is
  remove the viewer; no \<open>viewer_disconnected\<close> follows.\<close>

theorem connected_without_disconnected:
  assumes "create_consumer_transports (wh_engine h) sid vid (rm, w) = (Ok ts, rm1, w1)"
    and "dm_get (rm_sessions rm1) sid = Some s" and "ss_plain_producer s = None"
  shows "ws_task h sid vid ip ua frames (rm, bs, w) =
    (case remove_viewer (wh_engine h) sid vid
            (rm1, snd (wh_callback h (ViewerConnected sid (Some vid) ip ua) w1)) of
       (rm', w') \<Rightarrow> (rm', bs, w'))"
proof -
  obtain a b where ts: "ts = (a, b)" by force
  obtain x w2 where cb: "wh_callback h (ViewerConnected sid (Some vid) ip ua) w1 = (x, w2)" by force
  have "run_session h sid vid ip ua frames (rm, bs, w) = (Err ''plain producer absent'', rm1, bs, w2)"
    using assms ts cb by (simp add: run_session_def session_producer_info_def)
  with cb show ?thesis by (simp add: ws_task_def)
qed

lemma connected_without_disconnected_witness:
  "\<exists>rm1. create_consumer_transports demo_engine ''s'' ''v1''
       (put_session ''s'' (demo_session\<lparr>ss_plain_producer := None\<rparr>) demo_rm, True)
       = (fst (create_consumer_transports demo_engine ''s'' ''v1''
       (put_session ''s'' (demo_session\<lparr>ss_plain_producer := None\<rparr>) demo_rm, True)), rm1, True)
     \<and> ws_task demo_host ''s'' ''v1'' None None [CloseIn]
       (put_session ''s'' (demo_session\<lparr>ss_plain_producer := None\<rparr>) demo_rm,
         \<lparr>bs_registry = [], bs_store = [], bs_next = 0\<rparr>, True)
       = (case remove_viewer demo_engine ''s'' ''v1'' (rm1, True) of
            (rm', w') \<Rightarrow> (rm', \<lparr>bs_registry = [], bs_store = [], bs_next = 0\<rparr>, w'))"
proof -
  let ?s = "demo_session\<lparr>ss_plain_producer := None\<rparr>"
  have h: "wh_engine demo_host = demo_engine" "\<And>e w. wh_callback demo_host e w = (Ok (), w)"
    by (simp_all add: demo_host_def)
  obtain ts rm1 s where c: "create_consumer_transports demo_engine ''s'' ''v1'' (put_session ''s'' ?s demo_rm, True)
      = (Ok ts, rm1, True)"
    and s: "dm_get (rm_sessions rm1) ''s'' = Some s" "ss_plain_producer s = None"
    by (simp add: create_consumer_transports_def put_session_def demo_session_def viewer_cap_per_session_def
        rbind_def io_ctx_def or_drop_def demo_engine_def)
  from connected_without_disconnected [of demo_host "''s''" "''v1''", unfolded h, OF c s] c show ?thesis
    by simp
qed

lemma hex_digit_inj: "m < 16 \<Longrightarrow> n < 16 \<Longrightarrow> hex_digit m = hex_digit n \<Longrightarrow> m = n"
proof -
  assume b: "m < 16" "n < 16" and e: "hex_digit m = hex_digit n"
  have "of_char (hex_digit k) = (if k < 10 then 48 + k else 87 + k)" if "k < 16" for k :: nat
    using that by (simp add: hex_digit_def of_char_of)
  then have "(if m < 10 then 48 + m else 87 + m) = (if n < 10 then 48 + n else 87 + n)"
    using b e by metis
  with b show "m = n" by (auto split: if_splits)
qed

lemma length_hex_n [simp]: "length (hex_n k n) = k"
  by (induction k arbitrary: n) auto

lemma hex_n_inj: "m < 16 ^ k \<Longrightarrow> n < 16 ^ k \<Longrightarrow> hex_n k m = hex_n k n \<Longrightarrow> m = n"
proof (induction k arbitrary: m n)
  case (Suc k)
  then have "hex_n k (m div 16) = hex_n k (n div 16)" "hex_digit (m mod 16) = hex_digit (n mod 16)" by auto
  moreover have "m div 16 < 16 ^ k" "n div 16 < 16 ^ k" using Suc.prems by (auto simp: less_mult_imp_div_less mult.commute)
  ultimately have "m div 16 = n div 16" "m mod 16 = n mod 16"
    using Suc.IH hex_digit_inj by auto
  then show ?case by (metis mod_mult_div_eq)
qed simp

text \<open>A viewer's id is a function of the nanosecond of its upgrade, and of nothing else: different
  nanoseconds give different ids, two upgrades within one clock tick get the same id, so the
  second takes over the slot of the first.\<close>

lemma mint_viewer_id_inj: "mint_viewer_id a = mint_viewer_id b \<longleftrightarrow> a = b"
proof
  assume "mint_viewer_id a = mint_viewer_id b"
  then have h: "hex_n 16 (unat a) = hex_n 16 (unat b)"
    by (auto simp: mint_viewer_id_def Let_def)
  have "unat x < 16 ^ 16" for x :: u64 using unsigned_less [of x] by simp
  from hex_n_inj [OF this this h] show "a = b" by (rule unsigned_word_eqI)
qed simp

end
