(* ===== verification/RouteBuilder.thy ===== *)
theory RouteBuilder
  imports SharedTypes
begin

text \<open>
  \<open>edge-caddy-bridge/src/route_builder.rs\<close>: the Caddy configuration of one share subdomain, as
  the JSON value that \<open>admin_client.rs\<close> sends. The handlers that \<open>build_route\<close> binds to local
  variables are definitions of their own. Caddy is not part of the program; its path matcher is
  a parameter \<open>pm pattern path\<close>, of which nothing is assumed.
\<close>

definition jstrs :: "string list \<Rightarrow> json" where
  "jstrs xs = JArr (map JStr xs)"

section \<open>Paths\<close>

definition dun_api_path_prefixes :: "string list" where
  "dun_api_path_prefixes =
     [''/viewer/exchange'', ''/viewer/password'', ''/viewer/refresh-cookie'', ''/viewer/jwks'']"

definition edge_control_path_prefixes :: "string list" where
  "edge_control_path_prefixes = [''/v1/sfu'']"

definition viewer_edge_block_paths :: "string list" where
  "viewer_edge_block_paths = [''/host'', ''/host/*'']"

definition viewer_public_paths :: "string list" where
  "viewer_public_paths =
     [''/viewer'', ''/viewer/'', ''/viewer/index.html'', ''/static/*'', ''/assets/*'', ''/env.js'',
      ''/favicon*'', ''/robots.txt'']"

text \<open>\<open>flat_map(|p| [p, p + "/*"])\<close>.\<close>

definition with_subtree :: "string list \<Rightarrow> string list" where
  "with_subtree ps = concat (map (\<lambda>p. [p, p @ ''/*'']) ps)"

section \<open>Headers and bodies\<close>

definition csp_value :: string where
  \<open>csp_value =
     ''default-src 'self'; script-src 'self' 'unsafe-inline'; style-src 'self' ''
      @ '''unsafe-inline'; img-src 'self' data: blob:; media-src 'self' blob:; connect-src ''
      @ '''self' wss: https:; font-src 'self' data:; frame-ancestors 'none'; form-action ''
      @ '''self'; base-uri 'self'; object-src 'none'; worker-src 'self' blob:''\<close>

definition permissions_value :: string where
  \<open>permissions_value =
     ''geolocation=(), microphone=(self), camera=(self), payment=(), usb=(), ''
      @ ''magnetometer=(), gyroscope=(), accelerometer=()''\<close>

definition viewer_response_security_headers :: json where
  "viewer_response_security_headers =
     mk_obj
       [(''set'', mk_obj
           [(''Content-Security-Policy'', jstrs [csp_value]),
            (''X-Content-Type-Options'', jstrs [''nosniff'']),
            (''X-Frame-Options'', jstrs [''DENY'']),
            (''Referrer-Policy'', jstrs [''strict-origin-when-cross-origin'']),
            (''Permissions-Policy'', jstrs [permissions_value]),
            (''Strict-Transport-Security'', jstrs [''max-age=31536000; includeSubDomains'']),
            (''Cross-Origin-Opener-Policy'', jstrs [''same-origin'']),
            (''Cross-Origin-Resource-Policy'', jstrs [''same-origin''])]),
        (''deferred'', JBool True)]"

definition session_ended_csp :: string where
  \<open>session_ended_csp =
     ''default-src 'self'; script-src 'none'; style-src 'unsafe-inline'; frame-ancestors ''
      @ '''none'; base-uri 'none'; form-action 'none'' @ [CHR 0x27]\<close>

definition session_ended_body :: string where
  \<open>session_ended_body =
     ''<!doctype html><html lang='' @ [CHR 0x22] @ ''en'' @ [CHR 0x22] @ ''><head><meta charset=''
      @ [CHR 0x22] @ ''utf-8'' @ [CHR 0x22] @ ''><meta name='' @ [CHR 0x22] @ ''viewport''
      @ [CHR 0x22] @ '' content='' @ [CHR 0x22] @ ''width=device-width,initial-scale=1''
      @ [CHR 0x22]
      @ ''><title>Session ended</title><style>body{font-family:system-ui,-apple-system,Segoe ''
      @ ''UI,Roboto,sans-serif;background:#0b0d10;color:#e6e6e6;margin:0;display:''
      @ ''grid;place-items:center;min-height:100vh}main{max-width:32rem;padding:''
      @ ''2rem;text-align:center}h1{font-size:1.5rem;margin:0 0 .5rem;color:#f5f5f5}''
      @ ''p{margin:0;color:#9aa0a6;line-height:1.5}code{background:#1a1d22;color:''
      @ ''#cdd2d8;padding:.1rem .35rem;border-radius:.2rem;font-family:ui-monospace,monospace;''
      @ ''font-size:.9em}</style></head><body><main><h1>Session ended</h1><p>Ng''
      @ [CHR 0xC6, CHR 0xB0, CHR 0xE1, CHR 0xBB, CHR 0x9D] @ ''i chia s''
      @ [CHR 0xE1, CHR 0xBA, CHR 0xBB] @ '' '' @ [CHR 0xC4, CHR 0x91, CHR 0xC3, CHR 0xA3] @ '' ''
      @ [CHR 0xC4, CHR 0x91, CHR 0xC3, CHR 0xB3] @ ''ng phi'' @ [CHR 0xC3, CHR 0xAA] @ ''n n''
      @ [CHR 0xC3, CHR 0xA0] @ ''y. ''
      @ [CHR 0xC4, CHR 0x90, CHR 0xC6, CHR 0xB0, CHR 0xE1, CHR 0xBB, CHR 0x9D] @ ''ng d''
      @ [CHR 0xE1, CHR 0xBA, CHR 0xAB] @ ''n kh'' @ [CHR 0xC3, CHR 0xB4] @ ''ng c''
      @ [CHR 0xC3, CHR 0xB2] @ ''n hi'' @ [CHR 0xE1, CHR 0xBB, CHR 0x87] @ ''u l''
      @ [CHR 0xE1, CHR 0xBB, CHR 0xB1] @ ''c.<br>H'' @ [CHR 0xC3, CHR 0xA3] @ ''y y''
      @ [CHR 0xC3, CHR 0xAA] @ ''u c'' @ [CHR 0xE1, CHR 0xBA, CHR 0xA7] @ ''u h''
      @ [CHR 0xE1, CHR 0xBB, CHR 0x8D] @ '' t'' @ [CHR 0xE1, CHR 0xBA, CHR 0xA1] @ ''o phi''
      @ [CHR 0xC3, CHR 0xAA] @ ''n m'' @ [CHR 0xE1, CHR 0xBB, CHR 0x9B] @ ''i n''
      @ [CHR 0xE1, CHR 0xBA, CHR 0xBF] @ ''u b'' @ [CHR 0xE1, CHR 0xBA, CHR 0xA1] @ ''n c''
      @ [CHR 0xE1, CHR 0xBA, CHR 0xA7] @ ''n truy c'' @ [CHR 0xE1, CHR 0xBA, CHR 0xAD] @ ''p ti''
      @ [CHR 0xE1, CHR 0xBA, CHR 0xBF] @ ''p.</p></main></body></html>''\<close>

definition edge_block_host_body :: string where
  \<open>edge_block_host_body =
     ''403 Forbidden'' @ [CHR 0x0A, CHR 0x0A] @ ''The '' @ [CHR 0x60] @ ''/host'' @ [CHR 0x60]
      @ '' route is local-only and cannot be accessed via a public share link. Only ''
      @ ''the device that owns this profile can open the host UI. If you received ''
      @ ''a share link, please use the '' @ [CHR 0x60] @ ''/viewer/'' @ [CHR 0x60]
      @ '' URL the owner sent you.'' @ [CHR 0x0A]\<close>

section \<open>The route of a session\<close>

definition route_id :: "string \<Rightarrow> string" where
  "route_id host = ''dun-tunel-'' @ replace_char CHR ''.'' CHR ''_'' host"

definition http_transport :: json where
  "http_transport = mk_obj [(''protocol'', JStr ''http''), (''versions'', jstrs [''1.1'', ''2''])]"

definition dial_to :: "string \<Rightarrow> json" where
  "dial_to upstream = JArr [mk_obj [(''dial'', JStr upstream)]]"

definition forwarded_headers :: "(string \<times> json) list" where
  "forwarded_headers =
     [(''X-Forwarded-Host'', jstrs [''{http.request.host}'']),
      (''X-Forwarded-Proto'', jstrs [''{http.request.scheme}'']),
      (''X-Forwarded-For'', jstrs [''{http.request.remote.host}''])]"

definition headers_block :: "(string \<times> json) list \<Rightarrow> json" where
  "headers_block hs =
     mk_obj [(''request'', mk_obj [(''set'', mk_obj hs)]), (''response'', viewer_response_security_headers)]"

definition tunnel_handle :: "caddy_route \<Rightarrow> json" where
  "tunnel_handle route =
     mk_obj
       [(''handler'', JStr ''reverse_proxy''),
        (''transport'', http_transport),
        (''upstreams'', dial_to (cr_upstream route)),
        (''headers'', headers_block ((''Host'', jstrs [cr_host route]) # forwarded_headers))]"

definition hard_block :: json where
  "hard_block =
     mk_obj
       [(''match'', JArr [mk_obj [(''path'', jstrs viewer_edge_block_paths)]]),
        (''handle'', JArr [mk_obj
           [(''handler'', JStr ''static_response''),
            (''status_code'', JInt 403),
            (''headers'', mk_obj
               [(''Content-Type'', jstrs [''text/plain; charset=utf-8'']),
                (''Cache-Control'', jstrs [''no-store'']),
                (''X-Content-Type-Options'', jstrs [''nosniff'']),
                (''X-Frame-Options'', jstrs [''DENY''])]),
            (''body'', JStr edge_block_host_body)]])]"

definition api_handle :: "string \<Rightarrow> json" where
  "api_handle api_upstream =
     mk_obj
       [(''group'', JStr ''viewer-api''),
        (''handle'', JArr
           [mk_obj [(''handler'', JStr ''rewrite''),
                    (''uri'', JStr ''/api{http.request.uri.path}{http.request.uri.search}'')],
            mk_obj [(''handler'', JStr ''reverse_proxy''),
                    (''transport'', http_transport),
                    (''upstreams'', dial_to api_upstream),
                    (''headers'', headers_block forwarded_headers)]]),
        (''match'', JArr [mk_obj [(''path'', jstrs (with_subtree dun_api_path_prefixes))]])]"

definition public_assets :: "caddy_route \<Rightarrow> json" where
  "public_assets route =
     mk_obj
       [(''group'', JStr ''viewer-public''),
        (''handle'', JArr [tunnel_handle route]),
        (''match'', JArr [mk_obj [(''path'', jstrs viewer_public_paths)]])]"

text \<open>\<open>forward_auth\<close>: ask the gate, and on a 2xx answer hand the request to \<open>next\<close> with the verified
  subject.\<close>

definition gate_handler :: "string \<Rightarrow> json \<Rightarrow> json" where
  "gate_handler gate nxt =
     mk_obj
       [(''handler'', JStr ''reverse_proxy''),
        (''rewrite'', mk_obj [(''method'', JStr ''GET''), (''uri'', JStr ''/check'')]),
        (''upstreams'', dial_to gate),
        (''headers'', headers_block
           [(''X-Forwarded-Host'', jstrs [''{http.request.host}'']),
            (''X-Forwarded-Method'', jstrs [''{http.request.method}'']),
            (''X-Forwarded-Uri'', jstrs [''{http.request.uri}''])]),
        (''handle_response'', JArr [mk_obj
           [(''match'', mk_obj [(''status_code'', JArr [JInt 2])]),
            (''routes'', JArr
               [mk_obj [(''handle'', JArr [mk_obj
                   [(''handler'', JStr ''headers''),
                    (''request'', mk_obj [(''set'', mk_obj
                       [(''X-Forwarded-Sub'',
                         jstrs [''{http.reverse_proxy.header.X-Forwarded-Sub}''])])])]])],
                mk_obj [(''handle'', JArr [nxt])]])]])]"

definition edge_handle :: "caddy_route \<Rightarrow> string \<Rightarrow> json" where
  "edge_handle route edge_upstream =
     mk_obj
       [(''handler'', JStr ''reverse_proxy''),
        (''transport'', http_transport),
        (''upstreams'', dial_to edge_upstream),
        (''headers'', headers_block ((''Host'', jstrs [cr_host route]) # forwarded_headers))]"

definition sfu_auth_handle :: "caddy_route \<Rightarrow> string \<Rightarrow> string \<Rightarrow> json" where
  "sfu_auth_handle route gate edge_upstream =
     mk_obj
       [(''match'', JArr [mk_obj [(''path'', jstrs (with_subtree edge_control_path_prefixes))]]),
        (''handle'', JArr [gate_handler gate (edge_handle route edge_upstream)])]"

definition auth_handle :: "caddy_route \<Rightarrow> string \<Rightarrow> json" where
  "auth_handle route gate = mk_obj [(''handle'', JArr [gate_handler gate (tunnel_handle route)])]"

definition opt_list :: "('a \<Rightarrow> 'b list) \<Rightarrow> 'a option \<Rightarrow> 'b list" where
  "opt_list f x = (case x of None \<Rightarrow> [] | Some v \<Rightarrow> f v)"

definition inner_routes ::
  "caddy_route \<Rightarrow> string option \<Rightarrow> string option \<Rightarrow> string option \<Rightarrow> json list" where
  "inner_routes route dun_api auth_gate edge_control =
     [hard_block]
     @ opt_list (\<lambda>api. [api_handle api]) dun_api
     @ opt_list (\<lambda>_. [public_assets route]) auth_gate
     @ (case auth_gate of
          Some gate \<Rightarrow>
            opt_list (\<lambda>edge. [sfu_auth_handle route gate edge]) edge_control @ [auth_handle route gate]
        | None \<Rightarrow> [mk_obj [(''handle'', JArr [tunnel_handle route])]])"

definition build_route ::
  "caddy_route \<Rightarrow> string option \<Rightarrow> string option \<Rightarrow> string option \<Rightarrow> json" where
  "build_route route dun_api auth_gate edge_control =
     mk_obj
       [(''@id'', JStr (route_id (cr_host route))),
        (''match'', JArr [mk_obj [(''host'', jstrs [cr_host route])]]),
        (''handle'', JArr [mk_obj
           [(''handler'', JStr ''subroute''),
            (''routes'', JArr (inner_routes route dun_api auth_gate edge_control))]]),
        (''terminal'', JBool True)]"

definition build_session_ended_route :: "string \<Rightarrow> string \<Rightarrow> json" where
  "build_session_ended_route rid host_pattern =
     mk_obj
       [(''@id'', JStr rid),
        (''match'', JArr [mk_obj [(''host'', jstrs [host_pattern])]]),
        (''handle'', JArr [mk_obj
           [(''handler'', JStr ''subroute''),
            (''routes'', JArr [mk_obj [(''handle'', JArr
               [mk_obj [(''handler'', JStr ''headers''),
                        (''response'', mk_obj [(''set'', mk_obj
                           [(''Content-Type'', jstrs [''text/html; charset=utf-8'']),
                            (''Cache-Control'', jstrs [''no-store'']),
                            (''Content-Security-Policy'', jstrs [session_ended_csp]),
                            (''X-Content-Type-Options'', jstrs [''nosniff'']),
                            (''X-Frame-Options'', jstrs [''DENY'']),
                            (''Referrer-Policy'', jstrs [''no-referrer''])])])],
                mk_obj [(''handler'', JStr ''static_response''),
                        (''status_code'', JInt 410),
                        (''body'', JStr session_ended_body)]])]])]]),
        (''terminal'', JBool True)]"

section \<open>What a request meets\<close>

text \<open>
  The order the comment in the source relies on: the first route of the list whose matcher
  accepts the path, a route without a matcher accepting every path.
\<close>

definition path_patterns :: "json \<Rightarrow> string list option" where
  "path_patterns r =
     (case Option.bind (j_get ''match'' r) j_arr of
        Some [m] \<Rightarrow> map_option (\<lambda>ps. List.map_filter j_str ps) (Option.bind (j_get ''path'' m) j_arr)
      | _ \<Rightarrow> None)"

definition accepts :: "(string \<Rightarrow> string \<Rightarrow> bool) \<Rightarrow> string \<Rightarrow> json \<Rightarrow> bool" where
  "accepts pm path r = (case path_patterns r of None \<Rightarrow> True | Some ps \<Rightarrow> list_ex (\<lambda>p. pm p path) ps)"

definition picked :: "(string \<Rightarrow> string \<Rightarrow> bool) \<Rightarrow> string \<Rightarrow> json list \<Rightarrow> json option" where
  "picked pm path routes = find (accepts pm path) routes"

text \<open>The upstreams the handlers of a route dial before any answer has come back: what is nested in
  \<open>handle_response\<close> does not count.\<close>

definition handler_dials :: "json \<Rightarrow> string list" where
  "handler_dials h =
     (case Option.bind (j_get ''upstreams'' h) j_arr of
        Some us \<Rightarrow> List.map_filter (\<lambda>u. Option.bind (j_get ''dial'' u) j_str) us | None \<Rightarrow> [])"

definition direct_dials :: "json \<Rightarrow> string list" where
  "direct_dials r =
     (case Option.bind (j_get ''handle'' r) j_arr of Some hs \<Rightarrow> concat (map handler_dials hs) | None \<Rightarrow> [])"

definition any_path :: "(string \<Rightarrow> string \<Rightarrow> bool) \<Rightarrow> string list \<Rightarrow> string \<Rightarrow> bool" where
  "any_path pm ps path = list_ex (\<lambda>p. pm p path) ps"

lemma map_filter_JStr [simp]: "List.map_filter j_str (map JStr ps) = ps"
  by (induction ps) (auto simp: List.map_filter_def)

lemma route_matchers [simp]:
  "path_patterns hard_block = Some viewer_edge_block_paths"
  "path_patterns (api_handle api) = Some (with_subtree dun_api_path_prefixes)"
  "path_patterns (public_assets route) = Some viewer_public_paths"
  "path_patterns (sfu_auth_handle route gate edge) = Some (with_subtree edge_control_path_prefixes)"
  "path_patterns (auth_handle route gate) = None"
  "path_patterns (mk_obj [(''handle'', x)]) = None"
  by (simp_all add: path_patterns_def hard_block_def api_handle_def public_assets_def
      sfu_auth_handle_def auth_handle_def jstrs_def)

lemma handler_dials_simps [simp]:
  "handler_dials (tunnel_handle route) = [cr_upstream route]"
  "handler_dials (edge_handle route edge) = [edge]"
  "handler_dials (gate_handler gate nxt) = [gate]"
  by (simp_all add: handler_dials_def tunnel_handle_def edge_handle_def gate_handler_def dial_to_def
      List.map_filter_def)

lemma direct_dials_simps [simp]:
  "direct_dials hard_block = []"
  "direct_dials (api_handle api) = [api]"
  "direct_dials (public_assets route) = [cr_upstream route]"
  "direct_dials (sfu_auth_handle route gate edge) = [gate]"
  "direct_dials (auth_handle route gate) = [gate]"
  "direct_dials (mk_obj [(''handle'', JArr [tunnel_handle route])]) = [cr_upstream route]"
  by (simp_all add: direct_dials_def hard_block_def api_handle_def public_assets_def
      sfu_auth_handle_def auth_handle_def)
    (simp_all add: handler_dials_def dial_to_def List.map_filter_def)

lemma accepts_simps [simp]:
  "accepts pm path hard_block = any_path pm viewer_edge_block_paths path"
  "accepts pm path (api_handle api) = any_path pm (with_subtree dun_api_path_prefixes) path"
  "accepts pm path (public_assets route) = any_path pm viewer_public_paths path"
  "accepts pm path (sfu_auth_handle route gate edge)
     = any_path pm (with_subtree edge_control_path_prefixes) path"
  "accepts pm path (auth_handle route gate)"
  "accepts pm path (mk_obj [(''handle'', x)])"
  by (simp_all add: accepts_def any_path_def)


text \<open>With a gate configured, whatever the other upstreams, a path that is neither a public asset
  nor one of dun-api's is never sent to the tunnel or to edge-control before the gate has
  answered: the handlers of the route it meets dial the gate or, for the host page, nothing.\<close>

lemma gate_before_tunnel:
  assumes "picked pm path (inner_routes route api (Some gate) edge) = Some r"
    and "\<not> any_path pm viewer_public_paths path"
    and "\<not> any_path pm (with_subtree dun_api_path_prefixes) path"
  shows "direct_dials r = (if any_path pm viewer_edge_block_paths path then [] else [gate])"
  using assms by (cases api; cases edge) (auto simp: picked_def inner_routes_def opt_list_def split: if_splits)

text \<open>Without a gate the signalling paths have no route of their own, whatever \<open>edge_control\<close> is:
  they go to the tunnel like the rest.\<close>

lemma no_gate_no_signalling_route:
  "inner_routes route api None (Some edge) = inner_routes route api None None"
  by (simp add: inner_routes_def)

text \<open>The id of a route determines its host among the hosts without an underscore; replacing the
  dots is what loses the difference otherwise.\<close>

lemma route_id_inj:
  assumes "CHR ''_'' \<notin> set h" and "CHR ''_'' \<notin> set k"
  shows "route_id h = route_id k \<longleftrightarrow> h = k"
  using replace_char_inj [OF assms] by (auto simp: route_id_def)

lemma route_id_collision: "route_id ''a_b.c'' = route_id ''a.b.c''"
  by (simp add: route_id_def replace_char_def)

end
