(* ===== verification/CaddyAdmin.thy ===== *)
theory CaddyAdmin
  imports RouteBuilder RevocationOracle
begin

text \<open>
  \<open>edge-caddy-bridge/src/admin_client.rs\<close>: the client of Caddy's admin API. The HTTP calls are
  parameters over the world; a response carries its status, its text and its parsed body. The
  cache of the routes (the field \<open>routes\<close> of the client) is the state beside the world, the
  other fields never change. Where a message quotes the status and the body of a failed answer,
  the model keeps its fixed part.
\<close>

record caddy_response =
  cs_status :: nat
  cs_text :: string
  cs_json :: "(json, string) result"

type_synonym 'w http_call = "('w, (caddy_response, string) result) io"

record 'w caddy_http =
  h_get :: "string \<Rightarrow> 'w http_call"
  h_put :: "string \<Rightarrow> json \<Rightarrow> 'w http_call"
  h_post :: "string \<Rightarrow> json \<Rightarrow> 'w http_call"
  h_patch :: "string \<Rightarrow> json \<Rightarrow> 'w http_call"
  h_delete :: "string \<Rightarrow> 'w http_call"

record 'w admin_client =
  ac_base_url :: string
  ac_dun_api_upstream :: "string option"
  ac_auth_gate_upstream :: "string option"
  ac_edge_control_upstream :: "string option"
  ac_http :: "'w caddy_http"

type_synonym route_cache = "(string, caddy_route) dashmap"

type_synonym ('w, 'a) ac_io = "(route_cache \<times> 'w, 'a edge_result) io"

definition with_upstreams ::
  "'w caddy_http \<Rightarrow> string \<Rightarrow> string option \<Rightarrow> string option \<Rightarrow> string option \<Rightarrow> 'w admin_client" where
  "with_upstreams http base_url dun_api auth_gate edge_control =
     \<lparr>ac_base_url = base_url, ac_dun_api_upstream = dun_api, ac_auth_gate_upstream = auth_gate,
      ac_edge_control_upstream = edge_control, ac_http = http\<rparr>"

definition with_dun_api :: "'w caddy_http \<Rightarrow> string \<Rightarrow> string option \<Rightarrow> 'w admin_client" where
  "with_dun_api http base_url dun_api = with_upstreams http base_url dun_api None None"

definition admin_client_new :: "'w caddy_http \<Rightarrow> string \<Rightarrow> 'w admin_client" where
  "admin_client_new http base_url = with_upstreams http base_url None None None"

section \<open>Urls and requests\<close>

definition id_url :: "'w admin_client \<Rightarrow> string \<Rightarrow> string" where
  "id_url ac i = ac_base_url ac @ ''/id/'' @ i"

definition servers_url :: "'w admin_client \<Rightarrow> string" where
  "servers_url ac = ac_base_url ac @ ''/config/apps/http/servers/''"

definition routes_url :: "'w admin_client \<Rightarrow> string \<Rightarrow> string" where
  "routes_url ac server = ac_base_url ac @ ''/config/apps/http/servers/'' @ server @ ''/routes''"

definition policies_url :: "'w admin_client \<Rightarrow> string" where
  "policies_url ac = ac_base_url ac @ ''/config/apps/tls/automation/policies''"

definition automation_url :: "'w admin_client \<Rightarrow> string" where
  "automation_url ac = ac_base_url ac @ ''/config/apps/tls/automation''"

text \<open>\<open>send().await.map_err(|e| Config("caddy <what>: <e>"))\<close>.\<close>

definition request :: "string \<Rightarrow> 'w http_call \<Rightarrow> ('w, caddy_response) ac_io" where
  "request what m = (\<lambda>(c, w).
     case m w of (r, w) \<Rightarrow> (map_err (\<lambda>e. Config (''caddy '' @ what @ '': '' @ e)) r, c, w))"

definition failed :: "string \<Rightarrow> 'a edge_result" where
  "failed what = Err (Config (''caddy '' @ what @ '' failed''))"

definition ok_resp :: "caddy_response \<Rightarrow> bool" where
  "ok_resp r = is_success (cs_status r)"

text \<open>\<open>entry.get("@id").and_then(as_str).unwrap_or("")\<close>.\<close>

definition entry_id :: "json \<Rightarrow> string" where
  "entry_id e = (case Option.bind (j_get ''@id'' e) j_str of Some i \<Rightarrow> i | None \<Rightarrow> [])"

text \<open>The indices of the entries with an id, from the tail of the array to its head.\<close>

definition matching_indices :: "string \<Rightarrow> json list \<Rightarrow> nat list" where
  "matching_indices i entries = rev (filter (\<lambda>k. entry_id (entries ! k) = i) [0..<length entries])"

definition not_null :: "json \<Rightarrow> bool" where
  "not_null v \<longleftrightarrow> v \<noteq> JNull"

definition arr_or_empty :: "json \<Rightarrow> json list" where
  "arr_or_empty v = (case j_arr v of Some a \<Rightarrow> a | None \<Rightarrow> [])"

definition first_server_name :: "'w admin_client \<Rightarrow> ('w, string) ac_io" where
  "first_server_name ac =
     rbind (request ''list servers'' (h_get (ac_http ac) (servers_url ac))) (\<lambda>resp s.
       (if \<not> ok_resp resp then failed ''list servers''
        else (case cs_json resp of
                Err e \<Rightarrow> Err (Config (''caddy list servers parse: '' @ e))
              | Ok (JObj []) \<Rightarrow> Err (Config ''caddy servers list empty'')
              | Ok (JObj ((k, _) # _)) \<Rightarrow> Ok k
              | Ok _ \<Rightarrow> Err (Config ''caddy servers list not an object'')), s))"

section \<open>The sweep of duplicate ids\<close>

definition delete_at :: "'w admin_client \<Rightarrow> string \<Rightarrow> nat \<Rightarrow> 'w \<Rightarrow> 'w" where
  "delete_at ac url k w = snd (h_delete (ac_http ac) (url @ ''/'' @ to_dec k) w)"

definition dedup_id_in_array :: "'w admin_client \<Rightarrow> string \<Rightarrow> string \<Rightarrow> 'w \<Rightarrow> 'w" where
  "dedup_id_in_array ac url i w =
     (case h_get (ac_http ac) url w of
        (Err _, w) \<Rightarrow> w
      | (Ok resp, w) \<Rightarrow>
          if \<not> ok_resp resp then w
          else (case cs_json resp of
                  Ok (JArr entries) \<Rightarrow> fold (delete_at ac url) (matching_indices i entries) w
                | _ \<Rightarrow> w))"

definition dedup_id_in_arrays :: "'w admin_client \<Rightarrow> string \<Rightarrow> route_cache \<times> 'w \<Rightarrow> route_cache \<times> 'w" where
  "dedup_id_in_arrays ac i s =
     (case first_server_name ac s of
        (Ok server, c, w) \<Rightarrow>
          (c, dedup_id_in_array ac (policies_url ac) i (dedup_id_in_array ac (routes_url ac server) i w))
      | (Err _, c, w) \<Rightarrow> (c, dedup_id_in_array ac (policies_url ac) i w))"

definition settled :: "nat \<Rightarrow> bool" where
  "settled st \<longleftrightarrow> is_success st \<or> st = 404"

definition put_with_dedup_retry ::
  "'w admin_client \<Rightarrow> string \<Rightarrow> string \<Rightarrow> json \<Rightarrow> string \<Rightarrow> ('w, nat) ac_io" where
  "put_with_dedup_retry ac url i body op =
     rbind (request op (h_put (ac_http ac) url body)) (\<lambda>resp s.
       if settled (cs_status resp) then (Ok (cs_status resp), s)
       else if cs_status resp = 400 \<and> str_contains ''duplicate ID'' (cs_text resp) then
         rbind (request (op @ '' retry'') (h_put (ac_http ac) url body)) (\<lambda>retry s.
           (if settled (cs_status retry) then Ok (cs_status retry) else failed (op @ '' retry''), s))
           (dedup_id_in_arrays ac i s)
       else (failed op, s))"

section \<open>Adding and removing the route of a session\<close>

definition verify_route_present :: "'w admin_client \<Rightarrow> string \<Rightarrow> ('w, unit) ac_io" where
  "verify_route_present ac i =
     rbind (request ''verify route'' (h_get (ac_http ac) (id_url ac i))) (\<lambda>resp s.
       (if ok_resp resp then Ok ()
        else Err (Config (''caddy verify route '' @ [CHR 0x27] @ i @ [CHR 0x27] @ '' missing after add'')), s))"

definition remember :: "caddy_route \<Rightarrow> route_cache \<times> 'w \<Rightarrow> route_cache \<times> 'w" where
  "remember route s = (dm_insert (cr_host route) route (fst s), snd s)"

text \<open>The array, without the holes, that a new route is put in front of.\<close>

definition prepended :: "json \<Rightarrow> json \<Rightarrow> json list" where
  "prepended body existing = body # filter not_null (arr_or_empty existing)"

text \<open>Attempts 2 and 3, for a route Caddy does not know: read the array, and put it back with the route.\<close>

definition fetch_routes :: "'w admin_client \<Rightarrow> ('w, string \<times> caddy_response) ac_io" where
  "fetch_routes ac =
     rbind (first_server_name ac) (\<lambda>server.
     rbind (request ''fetch routes'' (h_get (ac_http ac) (routes_url ac server))) (\<lambda>routes_resp s.
       (Ok (server, routes_resp), s)))"

definition put_back ::
  "'w admin_client \<Rightarrow> caddy_route \<Rightarrow> json \<Rightarrow> string \<times> caddy_response \<Rightarrow> ('w, unit) ac_io" where
  "put_back ac route body = (\<lambda>(server, routes_resp).
     if ok_resp routes_resp then
       (case cs_json routes_resp of
          Err e \<Rightarrow> (\<lambda>s. (Err (Config (''caddy fetch routes parse: '' @ e)), s))
        | Ok existing \<Rightarrow>
            rbind (request ''patch routes''
                     (h_patch (ac_http ac) (routes_url ac server) (JArr (prepended body existing)))) (\<lambda>p s.
              if \<not> ok_resp p then (failed ''patch routes'', s)
              else verify_route_present ac (route_id (cr_host route)) (remember route s)))
     else if cs_status routes_resp = 404 then
       rbind (request ''create routes'' (h_put (ac_http ac) (routes_url ac server) (JArr [body]))) (\<lambda>p s.
         if \<not> ok_resp p then (failed ''create routes'', s)
         else verify_route_present ac (route_id (cr_host route)) (remember route s))
     else (\<lambda>s. (failed ''fetch routes'', s)))"

definition insert_new_route :: "'w admin_client \<Rightarrow> caddy_route \<Rightarrow> json \<Rightarrow> ('w, unit) ac_io" where
  "insert_new_route ac route body = rbind (fetch_routes ac) (put_back ac route body)"

lemmas insert_new_route_defs = insert_new_route_def fetch_routes_def put_back_def

definition route_body :: "'w admin_client \<Rightarrow> caddy_route \<Rightarrow> json" where
  "route_body ac route =
     build_route route (ac_dun_api_upstream ac) (ac_auth_gate_upstream ac) (ac_edge_control_upstream ac)"

definition add_route :: "'w admin_client \<Rightarrow> caddy_route \<Rightarrow> ('w, unit) ac_io" where
  "add_route ac route =
     (let i = route_id (cr_host route); body = route_body ac route in
      rbind (put_with_dedup_retry ac (id_url ac i) i body ''put route'') (\<lambda>status s.
        if is_success status then verify_route_present ac i (remember route s)
        else insert_new_route ac route body s))"

definition forget :: "string \<Rightarrow> route_cache \<times> 'w \<Rightarrow> unit edge_result \<times> route_cache \<times> 'w" where
  "forget host s = (Ok (), dm_remove host (fst s), snd s)"

text \<open>Step 3 of the removal: delete by position what the id did not reach.\<close>

definition remove_by_scan :: "'w admin_client \<Rightarrow> string \<Rightarrow> ('w, unit) ac_io" where
  "remove_by_scan ac host =
     rbind (first_server_name ac) (\<lambda>server.
     rbind (request ''fetch routes'' (h_get (ac_http ac) (routes_url ac server))) (\<lambda>routes_resp s.
       case cs_json routes_resp of
         Err e \<Rightarrow> (Err (Config (''caddy routes parse: '' @ e)), s)
       | Ok routes_json \<Rightarrow>
           (case j_arr routes_json of
              None \<Rightarrow> (Err (Config ''caddy routes not an array''), s)
            | Some entries \<Rightarrow>
                (case matching_indices (route_id host) entries of
                   [] \<Rightarrow> forget host s
                 | k # _ \<Rightarrow>
                     rbind (request ''delete absolute''
                              (h_delete (ac_http ac) (routes_url ac server @ ''/'' @ to_dec k))) (\<lambda>del s.
                       if ok_resp del then forget host s else (failed ''delete absolute'', s)) s))))"

definition remove_route :: "'w admin_client \<Rightarrow> string \<Rightarrow> ('w, unit) ac_io" where
  "remove_route ac host =
     rbind (request ''delete route'' (h_delete (ac_http ac) (id_url ac (route_id host)))) (\<lambda>resp.
       if \<not> settled (cs_status resp) then (\<lambda>s. (failed ''delete route'', s))
       else
         rbind (request ''verify route deletion'' (h_get (ac_http ac) (id_url ac (route_id host)))) (\<lambda>probe.
           if cs_status probe = 404 then forget host else remove_by_scan ac host))"

definition list_routes :: "route_cache \<Rightarrow> caddy_route list" where
  "list_routes c = map snd c"

section \<open>What is installed at boot\<close>

definition ensure_edge_admin_route :: "'w admin_client \<Rightarrow> string \<Rightarrow> string \<Rightarrow> u16 \<Rightarrow> ('w, unit) ac_io" where
  "ensure_edge_admin_route ac region domain upstream_port =
     add_route ac \<lparr>cr_host = ''edge.'' @ region @ ''.'' @ domain,
                   cr_upstream = ''127.0.0.1:'' @ to_dec (unat upstream_port), cr_ws_paths = []\<rparr>"

definition ensure_session_ended_fallback :: "'w admin_client \<Rightarrow> string \<Rightarrow> string \<Rightarrow> ('w, unit) ac_io" where
  "ensure_session_ended_fallback ac region domain =
     (let host_pattern = ''*.'' @ region @ ''.'' @ domain;
          i = ''dun-tunel-session-ended-'' @ region;
          body = build_session_ended_route i host_pattern
      in rbind (put_with_dedup_retry ac (id_url ac i) i body ''put session-ended'') (\<lambda>put_status.
           if is_success put_status then (\<lambda>s. (Ok (), s))
           else
             rbind (first_server_name ac) (\<lambda>server.
             rbind (request ''fetch routes'' (h_get (ac_http ac) (routes_url ac server))) (\<lambda>routes_resp.
               if ok_resp routes_resp then
                 rbind (request ''append session-ended'' (h_post (ac_http ac) (routes_url ac server) body)) (\<lambda>p s.
                   (if ok_resp p then Ok () else failed ''append session-ended'', s))
               else if cs_status routes_resp = 404 then
                 rbind (request ''create routes (session-ended)''
                          (h_put (ac_http ac) (routes_url ac server) (JArr [body]))) (\<lambda>p s.
                   (if ok_resp p then Ok () else failed ''create routes session-ended'', s))
               else (\<lambda>s. (failed ''fetch routes'', s))))))"

definition policy_subject_overlaps :: "json \<Rightarrow> string \<Rightarrow> bool" where
  "policy_subject_overlaps policy wildcard_subject =
     (case strip_prefix ''*.'' wildcard_subject of
        None \<Rightarrow> False
      | Some sfx \<Rightarrow>
          (case Option.bind (j_get ''subjects'' policy) j_arr of
             None \<Rightarrow> False
           | Some subjects \<Rightarrow>
               list_ex (\<lambda>subj.
                 case j_str subj of
                   None \<Rightarrow> False
                 | Some s \<Rightarrow>
                     if s = wildcard_subject then True
                     else (case strip_suffix sfx s of
                             None \<Rightarrow> False
                           | Some p \<Rightarrow>
                               let p = trim_end_char CHR ''.'' p in p \<noteq> [] \<and> CHR ''.'' \<notin> set p)) subjects))"

definition wildcard_policy :: "string \<Rightarrow> string \<Rightarrow> json" where
  "wildcard_policy wildcard_subject cloudflare_api_token =
     mk_obj
       [(''@id'', JStr ''dun-tunel-wildcard-tls''),
        (''subjects'', jstrs [wildcard_subject]),
        (''issuers'', JArr [mk_obj
           [(''module'', JStr ''acme''),
            (''challenges'', mk_obj [(''dns'', mk_obj [(''provider'', mk_obj
               [(''name'', JStr ''cloudflare''), (''api_token'', JStr cloudflare_api_token)])])])]])]"

definition merged_policies :: "json \<Rightarrow> string \<Rightarrow> json \<Rightarrow> json list" where
  "merged_policies policy wildcard_subject existing =
     policy # filter (\<lambda>v. \<not> policy_subject_overlaps v wildcard_subject) (filter not_null (arr_or_empty existing))"

definition ensure_wildcard_tls_policy :: "'w admin_client \<Rightarrow> string \<Rightarrow> string \<Rightarrow> string \<Rightarrow> ('w, unit) ac_io" where
  "ensure_wildcard_tls_policy ac region domain cloudflare_api_token =
     (let i = ''dun-tunel-wildcard-tls'';
          wildcard_subject = ''*.'' @ region @ ''.'' @ domain;
          policy = wildcard_policy wildcard_subject cloudflare_api_token
      in rbind (put_with_dedup_retry ac (id_url ac i) i policy ''put tls policy'') (\<lambda>status.
           if is_success status then (\<lambda>s. (Ok (), s))
           else
             rbind (request ''get tls policies'' (h_get (ac_http ac) (policies_url ac))) (\<lambda>probe.
               if ok_resp probe then
                 (case cs_json probe of
                    Err e \<Rightarrow> (\<lambda>s. (Err (Config (''caddy tls policies parse: '' @ e)), s))
                  | Ok existing \<Rightarrow>
                      rbind (request ''patch tls policies''
                               (h_patch (ac_http ac) (policies_url ac)
                                  (JArr (merged_policies policy wildcard_subject existing)))) (\<lambda>p s.
                        (if ok_resp p then Ok () else failed ''patch tls policies'', s)))
               else
                 rbind (request ''patch tls automation''
                          (h_patch (ac_http ac) (automation_url ac) (mk_obj [(''policies'', JArr [policy])]))) (\<lambda>p s.
                   (if ok_resp p then Ok () else failed ''patch tls automation'', s)))))"

section \<open>Deleting by position\<close>

definition del_at :: "nat \<Rightarrow> 'a list \<Rightarrow> 'a list" where
  "del_at k a = take k a @ drop (Suc k) a"

lemma del_at_length [simp]: "del_at (length xs) (xs @ y # ys) = xs @ ys"
  by (simp add: del_at_def)

lemma matching_indices_Nil [simp]: "matching_indices i [] = []"
  by (simp add: matching_indices_def)

lemma matching_indices_snoc:
  "matching_indices i (xs @ [x]) =
     (if entry_id x = i then [length xs] else []) @ matching_indices i xs"
proof -
  have "filter (\<lambda>k. entry_id ((xs @ [x]) ! k) = i) [0..<length xs]
      = filter (\<lambda>k. entry_id (xs ! k) = i) [0..<length xs]"
    by (rule filter_cong) (auto simp: nth_append)
  then show ?thesis by (simp add: matching_indices_def)
qed

text \<open>Going from the tail to the head, no deletion moves an entry that is still to be deleted.\<close>

lemma fold_del_at: "fold del_at (matching_indices i xs) (xs @ ys) = filter (\<lambda>e. entry_id e \<noteq> i) xs @ ys"
proof (induction xs arbitrary: ys rule: rev_induct)
  case (snoc x xs)
  show ?case
    using snoc.IH [of ys] snoc.IH [of "x # ys"] by (simp add: matching_indices_snoc)
qed simp

lemma length_matching_indices: "length (matching_indices i xs) = length (filter (\<lambda>e. entry_id e = i) xs)"
  by (induction xs rule: rev_induct) (simp_all add: matching_indices_snoc)

definition array_ids :: "json list \<Rightarrow> string list" where
  "array_ids a = filter (\<lambda>x. x \<noteq> []) (map entry_id a)"

lemma array_ids_Nil [simp]: "array_ids [] = []"
  by (simp add: array_ids_def)

lemma in_array_ids: "i \<noteq> [] \<Longrightarrow> i \<in> set (array_ids a) \<longleftrightarrow> filter (\<lambda>e. entry_id e = i) a \<noteq> []"
  by (auto simp: array_ids_def filter_empty_conv)

lemma distinct_array_ids: "i \<noteq> [] \<Longrightarrow> distinct (array_ids a) \<Longrightarrow> length (filter (\<lambda>e. entry_id e = i) a) \<le> 1"
proof (induction a)
  case (Cons e a)
  show ?case
  proof (cases "entry_id e = i")
    case True
    with Cons.prems have "i \<notin> set (array_ids a)" by (simp add: array_ids_def)
    then have "filter (\<lambda>e. entry_id e = i) a = []" using Cons.prems(1) in_array_ids by blast
    with True show ?thesis by simp
  next
    case False
    with Cons show ?thesis by (auto simp: array_ids_def split: if_splits)
  qed
qed simp

section \<open>What Caddy documents\<close>

text \<open>
  \<open>view w\<close>: the arrays of the configuration of Caddy, by url, in a world; a missing key is
  \<open>None\<close>. Caddy keeps the ids of its configuration distinct.
\<close>

type_synonym arrays = "string \<Rightarrow> json list option"

definition arr_at :: "arrays \<Rightarrow> string \<Rightarrow> json list" where
  "arr_at V u = (case V u of Some a \<Rightarrow> a | None \<Rightarrow> [])"

definition caddy_ids :: "'w admin_client \<Rightarrow> string \<Rightarrow> arrays \<Rightarrow> string list" where
  "caddy_ids ac server V =
     array_ids (arr_at V (routes_url ac server)) @ array_ids (arr_at V (policies_url ac))"

definition own_array :: "'w admin_client \<Rightarrow> string \<Rightarrow> string \<Rightarrow> bool" where
  "own_array ac server u \<longleftrightarrow> u = routes_url ac server \<or> u = policies_url ac"

definition well_indexed :: "'w admin_client \<Rightarrow> string \<Rightarrow> arrays \<Rightarrow> bool" where
  "well_indexed ac server V \<longleftrightarrow> distinct (caddy_ids ac server V)"

text \<open>The reads: the list of servers, an array, the object with an id.\<close>

definition docs_reads :: "'w admin_client \<Rightarrow> string \<Rightarrow> ('w \<Rightarrow> arrays) \<Rightarrow> bool" where
  "docs_reads ac server view \<longleftrightarrow>
     (\<forall>w. \<exists>r v es. h_get (ac_http ac) (servers_url ac) w = (Ok r, w) \<and> ok_resp r
            \<and> cs_json r = Ok (JObj ((server, v) # es)))
   \<and> (\<forall>w u. own_array ac server u \<longrightarrow>
        (\<exists>r. h_get (ac_http ac) u w = (Ok r, w) \<and>
           (case view w u of Some a \<Rightarrow> ok_resp r \<and> cs_json r = Ok (JArr a) | None \<Rightarrow> cs_status r = 404)))
   \<and> (\<forall>w i. i \<noteq> [] \<longrightarrow>
        (\<exists>r. h_get (ac_http ac) (id_url ac i) w = (Ok r, w) \<and>
           (if i \<in> set (caddy_ids ac server (view w)) then ok_resp r else cs_status r = 404)))"

text \<open>The writes of an array: an element deleted, the array replaced or created.\<close>

definition docs_arrays :: "'w admin_client \<Rightarrow> string \<Rightarrow> ('w \<Rightarrow> arrays) \<Rightarrow> bool" where
  "docs_arrays ac server view \<longleftrightarrow>
     (\<forall>w u a k. own_array ac server u \<and> view w u = Some a \<and> k < length a \<longrightarrow>
        (\<exists>r w'. h_delete (ac_http ac) (u @ ''/'' @ to_dec k) w = (Ok r, w') \<and> ok_resp r
           \<and> view w' = (view w)(u := Some (del_at k a))))
   \<and> (\<forall>w a. well_indexed ac server ((view w)(routes_url ac server := Some a)) \<longrightarrow>
        (\<exists>r w'. (if view w (routes_url ac server) = None
                 then h_put (ac_http ac) (routes_url ac server) (JArr a) w
                 else h_patch (ac_http ac) (routes_url ac server) (JArr a) w) = (Ok r, w')
           \<and> ok_resp r \<and> view w' = (view w)(routes_url ac server := Some a)))"

text \<open>
  The writes by id. A known id is replaced in place or refused as a duplicate; its deletion may
  leave the entry behind, as a comment in the source reports.
\<close>

definition docs_ids :: "'w admin_client \<Rightarrow> string \<Rightarrow> ('w \<Rightarrow> arrays) \<Rightarrow> bool" where
  "docs_ids ac server view \<longleftrightarrow>
     (\<forall>w i b. i \<noteq> [] \<and> entry_id b = i \<longrightarrow>
        (\<exists>r w'. h_put (ac_http ac) (id_url ac i) b w = (Ok r, w') \<and>
           (if i \<in> set (caddy_ids ac server (view w))
            then ok_resp r \<and> view w' = (\<lambda>u. map_option (map (\<lambda>e. if entry_id e = i then b else e)) (view w u))
                 \<or> cs_status r = 400 \<and> str_contains ''duplicate ID'' (cs_text r) \<and> view w' = view w
            else cs_status r = 404 \<and> view w' = view w)))
   \<and> (\<forall>w i. i \<noteq> [] \<longrightarrow>
        (\<exists>r w'. h_delete (ac_http ac) (id_url ac i) w = (Ok r, w') \<and>
           (if i \<in> set (caddy_ids ac server (view w))
            then ok_resp r \<and> (view w' = (\<lambda>u. map_option (filter (\<lambda>e. entry_id e \<noteq> i)) (view w u)) \<or> view w' = view w)
            else cs_status r = 404 \<and> view w' = view w)))"

definition caddy_documented :: "'w admin_client \<Rightarrow> string \<Rightarrow> ('w \<Rightarrow> arrays) \<Rightarrow> bool" where
  "caddy_documented ac server view \<longleftrightarrow>
     docs_reads ac server view \<and> docs_arrays ac server view \<and> docs_ids ac server view"

lemma docs_servers:
  assumes "caddy_documented ac server view"
  shows "first_server_name ac (c, w) = (Ok server, c, w)"
proof -
  obtain r v es where "h_get (ac_http ac) (servers_url ac) w = (Ok r, w)" "ok_resp r"
    "cs_json r = Ok (JObj ((server, v) # es))"
    using assms unfolding caddy_documented_def docs_reads_def by meson
  then show ?thesis by (simp add: first_server_name_def rbind_def request_def)
qed

lemmas docs_defs = caddy_documented_def docs_reads_def docs_arrays_def docs_ids_def

lemma docs_get_array:
  assumes "caddy_documented ac server view" and "own_array ac server u"
  shows "\<exists>r. h_get (ac_http ac) u w = (Ok r, w) \<and>
     (case view w u of Some a \<Rightarrow> ok_resp r \<and> cs_json r = Ok (JArr a) | None \<Rightarrow> cs_status r = 404)"
  using assms(1) [unfolded docs_defs, THEN conjunct1, THEN conjunct2, THEN conjunct1, rule_format, OF assms(2)] .

lemma docs_get_id:
  assumes "caddy_documented ac server view" and "i \<noteq> []"
  shows "\<exists>r. h_get (ac_http ac) (id_url ac i) w = (Ok r, w) \<and>
     (if i \<in> set (caddy_ids ac server (view w)) then ok_resp r else cs_status r = 404)"
  using assms(1) [unfolded docs_defs, THEN conjunct1, THEN conjunct2, THEN conjunct2, rule_format, OF assms(2)] .

lemma docs_delete_at:
  assumes "caddy_documented ac server view" and "own_array ac server u" "view w u = Some a" "k < length a"
  shows "\<exists>r w'. h_delete (ac_http ac) (u @ ''/'' @ to_dec k) w = (Ok r, w') \<and> ok_resp r
     \<and> view w' = (view w)(u := Some (del_at k a))"
  using assms(1) [unfolded docs_defs, THEN conjunct2, THEN conjunct1, THEN conjunct1, rule_format,
      OF conjI [OF assms(2) conjI [OF assms(3,4)]]] .

lemma docs_write:
  assumes "caddy_documented ac server view"
    and "well_indexed ac server ((view w)(routes_url ac server := Some a))"
  shows "\<exists>r w'. (if view w (routes_url ac server) = None
                 then h_put (ac_http ac) (routes_url ac server) (JArr a) w
                 else h_patch (ac_http ac) (routes_url ac server) (JArr a) w) = (Ok r, w')
           \<and> ok_resp r \<and> view w' = (view w)(routes_url ac server := Some a)"
  using assms(1) [unfolded docs_defs, THEN conjunct2, THEN conjunct1, THEN conjunct2, rule_format, OF assms(2)] .

lemma docs_put_id:
  assumes "caddy_documented ac server view" and "i \<noteq> []" and "entry_id b = i"
  shows "\<exists>r w'. h_put (ac_http ac) (id_url ac i) b w = (Ok r, w') \<and>
     (if i \<in> set (caddy_ids ac server (view w))
      then ok_resp r \<and> view w' = (\<lambda>u. map_option (map (\<lambda>e. if entry_id e = i then b else e)) (view w u))
           \<or> cs_status r = 400 \<and> str_contains ''duplicate ID'' (cs_text r) \<and> view w' = view w
      else cs_status r = 404 \<and> view w' = view w)"
  using assms(1) [unfolded docs_defs, THEN conjunct2, THEN conjunct2, THEN conjunct1, rule_format,
      OF conjI [OF assms(2,3)]] .

lemma docs_delete_id:
  assumes "caddy_documented ac server view" and "i \<noteq> []"
  shows "\<exists>r w'. h_delete (ac_http ac) (id_url ac i) w = (Ok r, w') \<and>
     (if i \<in> set (caddy_ids ac server (view w))
      then ok_resp r \<and> (view w' = (\<lambda>u. map_option (filter (\<lambda>e. entry_id e \<noteq> i)) (view w u)) \<or> view w' = view w)
      else cs_status r = 404 \<and> view w' = view w)"
  using assms(1) [unfolded docs_defs, THEN conjunct2, THEN conjunct2, THEN conjunct2, rule_format, OF assms(2)] .

section \<open>The sweep removes every copy\<close>

lemma own_array_simps [simp]: "own_array ac server (routes_url ac server)" "own_array ac server (policies_url ac)"
  by (simp_all add: own_array_def)

lemma url_neq [simp]: "routes_url ac server \<noteq> policies_url ac" "policies_url ac \<noteq> routes_url ac server"
  by (simp_all add: routes_url_def policies_url_def)

lemma fold_delete_at:
  assumes "caddy_documented ac server view" and "own_array ac server u"
  shows "view w u = Some (xs @ ys) \<Longrightarrow>
     view (fold (delete_at ac u) (matching_indices i xs) w) =
       (view w)(u := Some (filter (\<lambda>e. entry_id e \<noteq> i) xs @ ys))"
proof (induction xs arbitrary: ys w rule: rev_induct)
  case Nil
  then show ?case by (simp add: fun_upd_idem)
next
  case (snoc x xs)
  show ?case
  proof (cases "entry_id x = i")
    case True
    obtain r w' where d: "h_delete (ac_http ac) (u @ ''/'' @ to_dec (length xs)) w = (Ok r, w')"
      and v: "view w' = (view w)(u := Some (del_at (length xs) ((xs @ [x]) @ ys)))"
      using docs_delete_at [OF assms snoc.prems, of "length xs"] by auto
    have "delete_at ac u (length xs) w = w'" using d by (simp add: delete_at_def)
    with True v snoc.IH [of w' ys] show ?thesis by (simp add: matching_indices_snoc fun_eq_iff)
  next
    case False
    with snoc.prems snoc.IH [of w "x # ys"] show ?thesis by (simp add: matching_indices_snoc)
  qed
qed

lemma dedup_id_in_array_view:
  assumes "caddy_documented ac server view" and "own_array ac server u"
  shows "view (dedup_id_in_array ac u i w) =
     (view w)(u := map_option (filter (\<lambda>e. entry_id e \<noteq> i)) (view w u))"
proof -
  obtain r where g: "h_get (ac_http ac) u w = (Ok r, w)"
    and v: "case view w u of Some a \<Rightarrow> ok_resp r \<and> cs_json r = Ok (JArr a) | None \<Rightarrow> cs_status r = 404"
    using docs_get_array [OF assms, of w] by blast
  show ?thesis
  proof (cases "view w u")
    case None
    with g v show ?thesis by (auto simp: dedup_id_in_array_def ok_resp_def is_success_def fun_upd_idem)
  next
    case (Some a)
    with g v fold_delete_at [OF assms, of w a "[]" i] show ?thesis by (simp add: dedup_id_in_array_def)
  qed
qed

lemma dedup_id_in_arrays_view:
  assumes "caddy_documented ac server view"
  shows "\<exists>w'. dedup_id_in_arrays ac i (c, w) = (c, w') \<and>
     (\<forall>u. view w' u =
        (if own_array ac server u
         then map_option (filter (\<lambda>e. entry_id e \<noteq> i)) (view w u) else view w u))"
  by (simp add: dedup_id_in_arrays_def docs_servers [OF assms] dedup_id_in_array_view [OF assms])
    (auto simp: own_array_def)


section \<open>Upsert and removal\<close>

lemma entry_id_route_body [simp]: "entry_id (route_body ac route) = route_id (cr_host route)"
  by (simp add: entry_id_def route_body_def build_route_def)

lemma route_id_ne [simp]: "route_id h \<noteq> []"
  by (simp add: route_id_def)

lemma entry_id_null [simp]: "entry_id JNull = []"
  by (simp add: entry_id_def)

lemma array_ids_not_null [simp]: "array_ids (filter not_null a) = array_ids a"
  by (induction a) (auto simp: array_ids_def not_null_def)

lemma array_ids_filter: "array_ids (filter (\<lambda>e. entry_id e \<noteq> i) a) = filter (\<lambda>x. x \<noteq> i) (array_ids a)"
  by (induction a) (auto simp: array_ids_def)

lemma caddy_ids_filter:
  assumes "\<And>u. own_array ac server u \<Longrightarrow> V' u = map_option (filter (\<lambda>e. entry_id e \<noteq> i)) (V u)"
  shows "caddy_ids ac server V' = filter (\<lambda>x. x \<noteq> i) (caddy_ids ac server V)"
proof -
  have "array_ids (arr_at V' u) = filter (\<lambda>x. x \<noteq> i) (array_ids (arr_at V u))" if "own_array ac server u" for u
    using assms [OF that] by (cases "V u") (simp_all add: arr_at_def array_ids_filter)
  then show ?thesis by (simp add: caddy_ids_def)
qed

text \<open>The entries of an array that are not a given session's, holes apart.\<close>

definition others :: "string \<Rightarrow> json list \<Rightarrow> json list" where
  "others i a = filter (\<lambda>e. entry_id e \<noteq> i \<and> not_null e) a"

definition upserted :: "string \<Rightarrow> json \<Rightarrow> json list \<Rightarrow> json list \<Rightarrow> bool" where
  "upserted i b a a' \<longleftrightarrow> filter (\<lambda>e. entry_id e = i) a' = [b] \<and> others i a' = others i a"

lemma verify_present:
  assumes "caddy_documented ac server view" and "i \<noteq> []" and "i \<in> set (caddy_ids ac server (view w))"
  shows "verify_route_present ac i (c, w) = (Ok (), c, w)"
proof -
  obtain r where "h_get (ac_http ac) (id_url ac i) w = (Ok r, w)" "ok_resp r"
    using docs_get_id [OF assms(1,2), of w] assms(3) by auto
  then show ?thesis by (simp add: verify_route_present_def rbind_def request_def)
qed

lemma insert_new_route_ok:
  assumes d: "caddy_documented ac server view" and x: "well_indexed ac server (view w)"
    and b: "entry_id body = route_id (cr_host route)"
    and new: "route_id (cr_host route) \<notin> set (caddy_ids ac server (view w))"
  shows "\<exists>w'. insert_new_route ac route body (c, w) = (Ok (), dm_insert (cr_host route) route c, w')
     \<and> view w' = (view w)(routes_url ac server := Some (body # filter not_null (arr_at (view w) (routes_url ac server))))"
proof -
  let ?u = "routes_url ac server" let ?i = "route_id (cr_host route)"
  let ?a = "body # filter not_null (arr_at (view w) ?u)"
  have "well_indexed ac server ((view w)(?u := Some ?a))"
    using x new b by (auto simp: well_indexed_def caddy_ids_def arr_at_def array_ids_def [of "_ # _"]
        array_ids_def [symmetric])
  from docs_write [OF d this] obtain r w' where wr: "(if view w ?u = None
      then h_put (ac_http ac) ?u (JArr ?a) w else h_patch (ac_http ac) ?u (JArr ?a) w) = (Ok r, w')"
    "ok_resp r" "view w' = (view w)(?u := Some ?a)" by blast
  have "?i \<in> set (caddy_ids ac server (view w'))"
    using b by (simp add: wr(3) caddy_ids_def arr_at_def array_ids_def)
  note v = verify_present [OF d route_id_ne this]
  obtain g where g: "h_get (ac_http ac) ?u w = (Ok g, w)"
    and gv: "case view w ?u of Some a \<Rightarrow> ok_resp g \<and> cs_json g = Ok (JArr a) | None \<Rightarrow> cs_status g = 404"
    using docs_get_array [OF d, of ?u w] by auto
  have "insert_new_route ac route body (c, w) = (Ok (), dm_insert (cr_host route) route c, w')"
  proof (cases "view w ?u")
    case None
    then have "\<not> ok_resp g" "cs_status g = 404" using gv by (auto simp: ok_resp_def is_success_def)
    with None wr g v show ?thesis
      by (simp add: insert_new_route_defs rbind_def docs_servers [OF d] request_def remember_def arr_at_def)
  next
    case (Some a)
    with wr g gv v show ?thesis
      by (simp add: insert_new_route_defs rbind_def docs_servers [OF d] request_def remember_def arr_at_def
          prepended_def arr_or_empty_def)
  qed
  with wr(3) show ?thesis by blast
qed

lemma upserted_prepend:
  "entry_id b = i \<Longrightarrow> i \<noteq> [] \<Longrightarrow> i \<notin> set (array_ids a) \<Longrightarrow> upserted i b a (b # filter not_null a)"
  by (auto simp: upserted_def others_def in_array_ids filter_empty_conv intro!: filter_cong)

lemma others_filter: "others i (filter (\<lambda>e. entry_id e \<noteq> i) a) = others i a"
  by (simp add: others_def)

lemma upserted_replace:
  assumes "entry_id b = i" and "i \<noteq> []" and "i \<in> set (array_ids a)" and "distinct (array_ids a)"
  shows "upserted i b a (map (\<lambda>e. if entry_id e = i then b else e) a)"
proof -
  let ?m = "map (\<lambda>e. if entry_id e = i then b else e)"
  have "filter (\<lambda>e. entry_id e = i) (?m a) = map (\<lambda>_. b) (filter (\<lambda>e. entry_id e = i) a)"
    using assms(1) by (induction a) auto
  moreover have "length (filter (\<lambda>e. entry_id e = i) a) = 1"
    using distinct_array_ids [OF assms(2,4)] assms(2,3) in_array_ids [of i a]
    by (metis One_nat_def Suc_leI le_antisym length_greater_0_conv)
  moreover have "others i (?m a) = others i a"
    using assms(1) by (induction a) (auto simp: others_def)
  ultimately show ?thesis
    by (auto simp: upserted_def length_Suc_conv)
qed

lemma add_route_known:
  assumes d: "caddy_documented ac server view" and x: "well_indexed ac server (view w)"
    and i: "i = route_id (cr_host route)"
    and np: "i \<notin> set (array_ids (arr_at (view w) (policies_url ac)))"
    and known: "i \<in> set (caddy_ids ac server (view w))"
  shows "\<exists>w'. add_route ac route (c, w) = (Ok (), dm_insert (cr_host route) route c, w')
     \<and> upserted i (route_body ac route) (arr_at (view w) (routes_url ac server))
           (arr_at (view w') (routes_url ac server))"
proof -
  let ?u = "routes_url ac server" let ?b = "route_body ac route"
  have ne: "i \<noteq> []" and eb: "entry_id ?b = i" by (simp_all add: i)
  have ina: "i \<in> set (array_ids (arr_at (view w) ?u))" using known np by (simp add: caddy_ids_def)
  then obtain a where a: "view w ?u = Some a" by (cases "view w ?u") (auto simp: arr_at_def array_ids_def)
  have da: "distinct (array_ids a)" using x a by (simp add: well_indexed_def caddy_ids_def arr_at_def)
  obtain r w1 where put: "h_put (ac_http ac) (id_url ac i) ?b w = (Ok r, w1)"
    and cs: "ok_resp r \<and> view w1 = (\<lambda>u. map_option (map (\<lambda>e. if entry_id e = i then ?b else e)) (view w u))
       \<or> cs_status r = 400 \<and> str_contains ''duplicate ID'' (cs_text r) \<and> view w1 = view w"
    using docs_put_id [OF d ne eb, of w] known by auto
  from cs show ?thesis
  proof
    assume h: "ok_resp r \<and> view w1 = (\<lambda>u. map_option (map (\<lambda>e. if entry_id e = i then ?b else e)) (view w u))"
    then have up: "upserted i ?b (arr_at (view w) ?u) (arr_at (view w1) ?u)"
      using upserted_replace [OF eb ne _ da] ina a by (simp add: arr_at_def)
    then have "i \<in> set (caddy_ids ac server (view w1))"
      using ne by (simp add: caddy_ids_def in_array_ids upserted_def)
    from verify_present [OF d ne this] h put up show ?thesis
      by (intro exI [of _ w1]) (simp add: add_route_def Let_def put_with_dedup_retry_def rbind_def request_def
          settled_def ok_resp_def remember_def i)
  next
    assume h: "cs_status r = 400 \<and> str_contains ''duplicate ID'' (cs_text r) \<and> view w1 = view w"
    obtain w2 where dd: "dedup_id_in_arrays ac i (c, w1) = (c, w2)" and v2: "\<And>u. view w2 u =
        (if own_array ac server u then map_option (filter (\<lambda>e. entry_id e \<noteq> i)) (view w u) else view w u)"
      using dedup_id_in_arrays_view [OF d, of i c w1] h by auto
    have a2: "view w2 ?u = Some (filter (\<lambda>e. entry_id e \<noteq> i) a)" using a by (simp add: v2)
    have ids2: "caddy_ids ac server (view w2) = filter (\<lambda>x. x \<noteq> i) (caddy_ids ac server (view w))"
      by (rule caddy_ids_filter) (simp add: v2)
    then have new: "i \<notin> set (caddy_ids ac server (view w2))" and x2: "well_indexed ac server (view w2)"
      using x by (simp_all add: well_indexed_def)
    obtain r3 w3 where put3: "h_put (ac_http ac) (id_url ac i) ?b w2 = (Ok r3, w3)"
      and s3: "cs_status r3 = 404" "view w3 = view w2"
      using docs_put_id [OF d ne eb, of w2] new by auto
    obtain w4 where ins: "insert_new_route ac route ?b (c, w3) = (Ok (), dm_insert (cr_host route) route c, w4)"
      and v4: "view w4 ?u = Some (?b # filter not_null (arr_at (view w3) ?u))"
      using insert_new_route_ok [OF d, of w3 ?b route c] x2 new s3(2) by (auto simp: i)
    have "upserted i ?b (filter (\<lambda>e. entry_id e \<noteq> i) a) (arr_at (view w4) ?u)"
      using upserted_prepend [OF eb ne, of "filter (\<lambda>e. entry_id e \<noteq> i) a"] v4 a2
      by (simp add: arr_at_def s3(2) array_ids_filter)
    then have "upserted i ?b (arr_at (view w) ?u) (arr_at (view w4) ?u)"
      by (simp add: upserted_def others_filter arr_at_def a)
    with ins h put dd put3 s3(1) show ?thesis
      by (intro exI [of _ w4]) (simp add: add_route_def Let_def put_with_dedup_retry_def rbind_def request_def
          settled_def is_success_def i [symmetric])
  qed
qed

text \<open>C8 Against a Caddy that behaves as documented, \<open>add_route\<close> is an upsert and always succeeds:
  afterwards exactly one route has the id of the host, it is the route just built, and all
  other routes are there in the same order, whether the route was known or new and whether
  Caddy replaces a known id or refuses it as a duplicate.\<close>

theorem add_route_upserts:
  assumes "caddy_documented ac server view" and "well_indexed ac server (view w)"
    and "route_id (cr_host route) \<notin> set (array_ids (arr_at (view w) (policies_url ac)))"
  shows "\<exists>w'. add_route ac route (c, w) = (Ok (), dm_insert (cr_host route) route c, w')
     \<and> upserted (route_id (cr_host route)) (route_body ac route) (arr_at (view w) (routes_url ac server))
           (arr_at (view w') (routes_url ac server))"
proof (cases "route_id (cr_host route) \<in> set (caddy_ids ac server (view w))")
  case True
  from add_route_known [OF assms(1,2) refl assms(3) True] show ?thesis .
next
  case False
  let ?i = "route_id (cr_host route)" let ?b = "route_body ac route" let ?u = "routes_url ac server"
  obtain r w1 where put: "h_put (ac_http ac) (id_url ac ?i) ?b w = (Ok r, w1)" "cs_status r = 404" "view w1 = view w"
    using docs_put_id [OF assms(1) route_id_ne entry_id_route_body, where w = w and ac1 = ac and route1 = route] False
    by auto
  obtain w2 where ins: "insert_new_route ac route ?b (c, w1) = (Ok (), dm_insert (cr_host route) route c, w2)"
    and v2: "view w2 ?u = Some (?b # filter not_null (arr_at (view w1) ?u))"
    using insert_new_route_ok [OF assms(1), of w1 ?b route c] assms(2) False put(3) by auto
  have "upserted ?i ?b (arr_at (view w) ?u) (arr_at (view w2) ?u)"
    using upserted_prepend [of ?b ?i "arr_at (view w) ?u"] v2 put(3) False
    by (simp add: arr_at_def [of "view w2"] caddy_ids_def)
  with ins put show ?thesis
    by (intro exI [of _ w2]) (simp add: add_route_def Let_def put_with_dedup_retry_def rbind_def request_def
        settled_def is_success_def)
qed

lemma matching_indices_single:
  assumes "i \<noteq> []" and "distinct (array_ids a)" and "i \<in> set (array_ids a)"
  obtains k where "matching_indices i a = [k]" and "k < length a"
    and "del_at k a = filter (\<lambda>e. entry_id e \<noteq> i) a"
proof -
  have "length (matching_indices i a) = 1"
    using distinct_array_ids [OF assms(1,2)] assms(1,3) in_array_ids [of i a]
    by (metis One_nat_def Suc_leI le_antisym length_greater_0_conv length_matching_indices)
  then obtain k where k: "matching_indices i a = [k]" by (auto simp: length_Suc_conv)
  then have "k \<in> set (matching_indices i a)" by simp
  then have "k < length a" by (auto simp: matching_indices_def)
  moreover have "del_at k a = filter (\<lambda>e. entry_id e \<noteq> i) a"
    using fold_del_at [of i a "[]"] k by simp
  ultimately show ?thesis using k that by blast
qed


section \<open>Two additions at once\<close>

lemma put_back_ok:
  assumes d: "caddy_documented ac server view"
    and g: "ok_resp g" "cs_json g = Ok (JArr a)"
    and p: "view w (routes_url ac server) \<noteq> None"
    and x: "well_indexed ac server ((view w)(routes_url ac server := Some (route_body ac route # filter not_null a)))"
  shows "\<exists>w'. put_back ac route (route_body ac route) (server, g) (c, w) = (Ok (), dm_insert (cr_host route) route c, w')
     \<and> view w' = (view w)(routes_url ac server := Some (route_body ac route # filter not_null a))"
proof -
  let ?u = "routes_url ac server" let ?a = "route_body ac route # filter not_null a"
  obtain r w' where wr: "h_patch (ac_http ac) ?u (JArr ?a) w = (Ok r, w')" "ok_resp r" "view w' = (view w)(?u := Some ?a)"
    using docs_write [OF d x] p by auto
  have "route_id (cr_host route) \<in> set (caddy_ids ac server (view w'))"
    by (simp add: wr(3) caddy_ids_def arr_at_def array_ids_def)
  from verify_present [OF d route_id_ne this] wr g show ?thesis
    by (intro exI [of _ w']) (simp add: put_back_def rbind_def request_def remember_def prepended_def arr_or_empty_def)
qed

lemma fetch_routes_ok:
  assumes "caddy_documented ac server view" and "view w (routes_url ac server) = Some a"
  obtains g where "fetch_routes ac (c, w) = (Ok (server, g), c, w)" and "ok_resp g" and "cs_json g = Ok (JArr a)"
proof -
  obtain g where "h_get (ac_http ac) (routes_url ac server) w = (Ok g, w)" "ok_resp g" "cs_json g = Ok (JArr a)"
    using docs_get_array [OF assms(1), of "routes_url ac server" w] assms(2) by auto
  with that show thesis by (simp add: fetch_routes_def rbind_def docs_servers [OF assms(1)] request_def)
qed

lemma well_indexed_prepend:
  assumes "well_indexed ac server V" and "V (routes_url ac server) = Some a"
    and "route_id (cr_host route) \<notin> set (caddy_ids ac server V)"
  shows "well_indexed ac server (V(routes_url ac server := Some (route_body ac route # filter not_null a)))"
  using assms by (auto simp: well_indexed_def caddy_ids_def arr_at_def array_ids_def [of "_ # _"] array_ids_def [symmetric])

text \<open>C11 Nothing guards the read and the replacement of the array of routes: of two new routes whose
  additions both read the array before either replaces it, both are reported as added, verified
  and listed, but Caddy has lost the first.\<close>

theorem concurrent_add_loses_route:
  assumes d: "caddy_documented ac server view" and x: "well_indexed ac server (view w)"
    and a: "view w (routes_url ac server) = Some a"
    and new: "route_id (cr_host r1) \<notin> set (caddy_ids ac server (view w))"
      "route_id (cr_host r2) \<notin> set (caddy_ids ac server (view w))" "route_id (cr_host r1) \<noteq> route_id (cr_host r2)"
  shows "\<exists>got c1 w1 c2 w2. fetch_routes ac (c, w) = (Ok got, c, w)
     \<and> put_back ac r1 (route_body ac r1) got (c, w) = (Ok (), c1, w1)
     \<and> put_back ac r2 (route_body ac r2) got (c1, w1) = (Ok (), c2, w2)
     \<and> dm_get c2 (cr_host r1) = Some r1 \<and> dm_get c2 (cr_host r2) = Some r2
     \<and> route_id (cr_host r1) \<notin> set (caddy_ids ac server (view w2))"
proof -
  let ?u = "routes_url ac server"
  obtain g where g: "fetch_routes ac (c, w) = (Ok (server, g), c, w)" "ok_resp g" "cs_json g = Ok (JArr a)"
    using fetch_routes_ok [OF d a] .
  obtain w1 where 1: "put_back ac r1 (route_body ac r1) (server, g) (c, w) = (Ok (), dm_insert (cr_host r1) r1 c, w1)"
    "view w1 = (view w)(?u := Some (route_body ac r1 # filter not_null a))"
    using put_back_ok [OF d g(2,3) _ well_indexed_prepend [OF x a new(1)]] a by auto
  have "(view w1)(?u := Some (route_body ac r2 # filter not_null a)) = (view w)(?u := Some (route_body ac r2 # filter not_null a))"
    by (simp add: 1(2))
  then obtain w2 where 2: "put_back ac r2 (route_body ac r2) (server, g) (dm_insert (cr_host r1) r1 c, w1)
      = (Ok (), dm_insert (cr_host r2) r2 (dm_insert (cr_host r1) r1 c), w2)"
    "view w2 = (view w)(?u := Some (route_body ac r2 # filter not_null a))"
    using put_back_ok [OF d g(2,3), of w1 r2] well_indexed_prepend [OF x a new(2)] 1(2) by auto
  have "route_id (cr_host r1) \<notin> set (caddy_ids ac server (view w2))"
    using new a by (auto simp: 2(2) caddy_ids_def arr_at_def array_ids_def [of "_ # _"] array_ids_def [symmetric])
  with g(1) 1(1) 2(1) new(3) show ?thesis
    by (intro exI [of _ "(server, g)"] exI [of _ "dm_insert (cr_host r1) r1 c"] exI [of _ w1]
        exI [of _ "dm_insert (cr_host r2) r2 (dm_insert (cr_host r1) r1 c)"] exI [of _ w2]) auto
qed

section \<open>A Caddy\<close>

text \<open>A server with one array of routes that behaves as documented; it refuses a known id as a duplicate.\<close>

definition answer :: "nat \<Rightarrow> string \<Rightarrow> json \<Rightarrow> (caddy_response, string) result" where
  "answer st txt j = Ok \<lparr>cs_status = st, cs_text = txt, cs_json = Ok j\<rparr>"

definition demo_routes :: string where
  "demo_routes = ''/config/apps/http/servers/srv0/routes''"

definition demo_caddy :: "json list caddy_http" where
  "demo_caddy =
     \<lparr>h_get = (\<lambda>u w. (if u = ''/config/apps/http/servers/'' then answer 200 [] (JObj [(''srv0'', JNull)])
                      else if u = demo_routes then answer 200 [] (JArr w)
                      else if take 4 u = ''/id/'' \<and> drop 4 u \<in> set (array_ids w) then answer 200 [] JNull
                      else answer 404 [] JNull, w)),
      h_put = (\<lambda>u j w. (if take 4 u = ''/id/'' \<and> drop 4 u \<in> set (array_ids w)
                        then answer 400 ''duplicate ID'' JNull else answer 404 [] JNull, w)),
      h_post = (\<lambda>u j w. (answer 404 [] JNull, w)),
      h_patch = (\<lambda>u j w. (case j of JArr a \<Rightarrow> (answer 200 [] JNull, a) | _ \<Rightarrow> (answer 400 [] JNull, w))),
      h_delete = (\<lambda>u w. if take 4 u = ''/id/''
                   then (if drop 4 u \<in> set (array_ids w)
                         then (answer 200 [] JNull, filter (\<lambda>e. entry_id e \<noteq> drop 4 u) w)
                         else (answer 404 [] JNull, w))
                   else (case find (\<lambda>k. u = demo_routes @ ''/'' @ to_dec k) [0..<length w] of
                           Some k \<Rightarrow> (answer 200 [] JNull, del_at k w) | None \<Rightarrow> (answer 404 [] JNull, w)))\<rparr>"

definition demo_client :: "json list admin_client" where
  "demo_client = with_upstreams demo_caddy [] None (Some ''gate'') None"

definition demo_view :: "json list \<Rightarrow> arrays" where
  "demo_view w = (\<lambda>u. if u = demo_routes then Some w else None)"

lemma to_dec_inj: "to_dec m = to_dec n \<longleftrightarrow> m = n"
proof
  assume "to_dec m = to_dec n"
  then have "parse_uint (max m n) (to_dec m) = parse_uint (max m n) (to_dec n)" by simp
  then show "m = n" by (simp add: parse_uint_to_dec)
qed simp

lemma demo_urls [simp]:
  "routes_url demo_client ''srv0'' = demo_routes" "servers_url demo_client = ''/config/apps/http/servers/''"
  "id_url demo_client i = ''/id/'' @ i" "ac_http demo_client = demo_caddy"
  "policies_url demo_client \<noteq> demo_routes" "policies_url demo_client \<noteq> ''/config/apps/http/servers/''"
  "take 4 (policies_url demo_client) \<noteq> ''/id/''" "demo_routes \<noteq> ''/config/apps/http/servers/''"
  by (simp_all add: routes_url_def servers_url_def id_url_def policies_url_def demo_client_def with_upstreams_def
      demo_routes_def)

lemma demo_id_url [simp]: "CHR ''/'' # CHR ''i'' # CHR ''d'' # CHR ''/'' # i \<noteq> demo_routes"
  by (simp add: demo_routes_def)

lemma demo_ids [simp]: "caddy_ids demo_client ''srv0'' (demo_view w) = array_ids w"
  by (simp add: caddy_ids_def arr_at_def demo_view_def)

lemma demo_find: "k < n \<Longrightarrow> find (\<lambda>j. k = j) [0..<n] = Some k"
  unfolding find_Some_iff by (rule exI [of _ k]) simp

lemma demo_documented: "caddy_documented demo_client ''srv0'' demo_view"
proof -
  have "docs_reads demo_client ''srv0'' demo_view"
    unfolding docs_reads_def demo_ids demo_urls
    by (auto simp: own_array_def demo_caddy_def answer_def ok_resp_def is_success_def demo_view_def)
  moreover have "docs_arrays demo_client ''srv0'' demo_view"
    unfolding docs_arrays_def demo_urls
    by (auto simp: own_array_def demo_caddy_def answer_def ok_resp_def is_success_def demo_view_def
        demo_routes_def to_dec_inj demo_find fun_eq_iff)
  moreover have "docs_ids demo_client ''srv0'' demo_view"
    unfolding docs_ids_def demo_ids demo_urls
    by (auto simp: demo_caddy_def answer_def ok_resp_def is_success_def demo_view_def str_contains_def fun_eq_iff)
  ultimately show ?thesis by (simp add: caddy_documented_def)
qed

definition demo_route :: caddy_route where
  "demo_route = \<lparr>cr_host = ''a.b'', cr_upstream = ''127.0.0.1:31000'', cr_ws_paths = []\<rparr>"

definition demo_config :: "json list" where
  "demo_config = [mk_obj [(''@id'', JStr ''other'')], JNull, mk_obj [(''@id'', JStr ''dun-tunel-a_b'')]]"

lemma demo_config_ids: "array_ids demo_config = [''other'', ''dun-tunel-a_b'']"
  by (simp add: array_ids_def demo_config_def entry_id_def)

lemma demo_well_indexed: "well_indexed demo_client ''srv0'' (demo_view demo_config)"
  by (simp add: well_indexed_def demo_config_ids)

lemma demo_policies [simp]: "arr_at (demo_view w) (policies_url demo_client) = []"
  by (simp add: arr_at_def demo_view_def)


lemma add_route_upserts_witness:
  "\<exists>w'. add_route demo_client demo_route ([], demo_config) = (Ok (), [(''a.b'', demo_route)], w')"
  using add_route_upserts [OF demo_documented demo_well_indexed, of demo_route "[]"]
  by (auto simp: demo_route_def)


lemma concurrent_add_loses_route_witness:
  "\<exists>got c1 w1 c2 w2. fetch_routes demo_client ([], demo_config) = (Ok got, [], demo_config)
     \<and> put_back demo_client (demo_route\<lparr>cr_host := ''x''\<rparr>) (route_body demo_client (demo_route\<lparr>cr_host := ''x''\<rparr>)) got ([], demo_config)
         = (Ok (), c1, w1)
     \<and> put_back demo_client (demo_route\<lparr>cr_host := ''y''\<rparr>) (route_body demo_client (demo_route\<lparr>cr_host := ''y''\<rparr>)) got (c1, w1)
         = (Ok (), c2, w2)
     \<and> ''dun-tunel-x'' \<notin> set (array_ids w2)"
proof -
  let ?r = "\<lambda>h. demo_route\<lparr>cr_host := h\<rparr>"
  have "demo_view demo_config (routes_url demo_client ''srv0'') = Some demo_config" by (simp add: demo_view_def)
  moreover have id: "route_id (cr_host (?r ''x'')) = ''dun-tunel-x''" "route_id (cr_host (?r ''y'')) = ''dun-tunel-y''"
    by (simp_all add: route_id_def replace_char_def)
  moreover have "''dun-tunel-x'' \<notin> set (array_ids demo_config)" "''dun-tunel-y'' \<notin> set (array_ids demo_config)"
    by (simp_all add: demo_config_ids)
  ultimately obtain got c1 w1 c2 w2 where "fetch_routes demo_client ([], demo_config) = (Ok got, [], demo_config)"
      "put_back demo_client (?r ''x'') (route_body demo_client (?r ''x'')) got ([], demo_config) = (Ok (), c1, w1)"
      "put_back demo_client (?r ''y'') (route_body demo_client (?r ''y'')) got (c1, w1) = (Ok (), c2, w2)"
      "''dun-tunel-x'' \<notin> set (array_ids w2)"
    using concurrent_add_loses_route [OF demo_documented demo_well_indexed, of demo_config "?r ''x''" "?r ''y''" "[]"]
    unfolding id demo_ids by auto
  then show ?thesis by blast
qed

section \<open>Without any assumption on the server\<close>

lemma verify_route_present_Ok:
  "verify_route_present ac i (c, w) = (Ok (), c', w') \<longleftrightarrow>
     c' = c \<and> (\<exists>r. h_get (ac_http ac) (id_url ac i) w = (Ok r, w') \<and> ok_resp r)"
  by (auto simp: verify_route_present_def rbind_def request_def split: prod.splits result.splits)

lemma insert_new_route_verified:
  "insert_new_route ac route body (c, w) = (Ok (), c', w') \<Longrightarrow>
     \<exists>c1 w1. verify_route_present ac (route_id (cr_host route)) (c1, w1) = (Ok (), c', w')"
  unfolding insert_new_route_defs
  by (auto simp: rbind_Ok_iff failed_def remember_def split: if_splits result.splits)

text \<open>Whatever the server does, \<open>add_route\<close> reports success only after the server has answered the
  lookup of the route's id with a success, as its last call.\<close>

lemma add_route_Ok_verified:
  assumes "add_route ac route (c, w) = (Ok (), c', w')"
  shows "\<exists>r w1. h_get (ac_http ac) (id_url ac (route_id (cr_host route))) w1 = (Ok r, w') \<and> ok_resp r"
proof -
  obtain st c1 w1 where "(if is_success st
      then verify_route_present ac (route_id (cr_host route)) (remember route (c1, w1))
      else insert_new_route ac route (route_body ac route) (c1, w1)) = (Ok (), c', w')"
    using assms by (auto simp: add_route_def Let_def rbind_Ok_iff)
  then obtain c2 w2 where "verify_route_present ac (route_id (cr_host route)) (c2, w2) = (Ok (), c', w')"
    using insert_new_route_verified [of ac route "route_body ac route" c1 w1 c' w']
    by (auto simp: remember_def split: if_splits)
  then show ?thesis by (auto simp: verify_route_present_Ok)
qed

text \<open>The cache is written before the check: a route that fails the check stays listed.\<close>

lemma add_route_caches_unverified:
  assumes "h_put (ac_http ac) (id_url ac (route_id (cr_host route))) (route_body ac route) w = (Ok r, w1)"
    and "ok_resp r" and "h_get (ac_http ac) (id_url ac (route_id (cr_host route))) w1 = (Ok g, w2)" and "\<not> ok_resp g"
  shows "\<exists>e. add_route ac route (c, w) = (Err e, dm_insert (cr_host route) route c, w2)"
  using assms
  by (simp add: add_route_def Let_def put_with_dedup_retry_def rbind_def request_def settled_def ok_resp_def
      remember_def verify_route_present_def)

lemma request_Ok_cache: "request what m (c, w) = (Ok r, c', w') \<Longrightarrow> c' = c"
  by (auto simp: request_def split: prod.splits)

lemma request_Err_cache: "request what m (c, w) = (Err e, c', w') \<Longrightarrow> c' = c"
  by (auto simp: request_def split: prod.splits)

lemma first_server_name_cache: "first_server_name ac (c, w) = (r, c', w') \<Longrightarrow> c' = c"
  by (auto simp: first_server_name_def rbind_def split: prod.splits result.splits
      dest!: request_Ok_cache request_Err_cache)

lemma dedup_cache: "dedup_id_in_arrays ac i (c, w) = (c', w') \<Longrightarrow> c' = c"
  by (auto simp: dedup_id_in_arrays_def split: prod.splits result.splits dest!: first_server_name_cache)

lemma fst_dedup [simp]: "fst (dedup_id_in_arrays ac i (c, w)) = c"
  by (metis dedup_cache prod.collapse)

lemma request_fst: "request what m s = (Ok r, c', w') \<Longrightarrow> c' = fst s"
  by (cases s) (simp add: request_Ok_cache)

lemma request_cache: "request what m s = (r, c', w') \<Longrightarrow> c' = fst s"
  by (cases s) (auto simp: request_def split: prod.splits)

lemma put_with_dedup_retry_cache: "put_with_dedup_retry ac url i body op (c, w) = (r, c', w') \<Longrightarrow> c' = c"
  unfolding put_with_dedup_retry_def
  by (auto simp: rbind_def failed_def split: if_splits prod.splits result.splits dest!: request_cache)

lemma verify_route_present_cache: "verify_route_present ac i s = (r, c', w') \<Longrightarrow> c' = fst s"
  by (auto simp: verify_route_present_def rbind_def failed_def split: if_splits prod.splits result.splits dest!: request_cache)

lemma insert_new_route_cache:
  "insert_new_route ac route body (c, w) = (r, c', w') \<Longrightarrow> c' = c \<or> c' = dm_insert (cr_host route) route c"
  unfolding insert_new_route_defs
  by (auto simp: rbind_def remember_def split: if_splits result.splits prod.splits
      dest!: request_cache first_server_name_cache verify_route_present_cache)

text \<open>\<open>add_route\<close> changes the cache at the host of the route, if at all; what is installed at boot, apart from
  the route of the edge itself, does not touch it.\<close>

lemma add_route_cache:
  "add_route ac route (c, w) = (r, c', w') \<Longrightarrow> c' = c \<or> c' = dm_insert (cr_host route) route c"
  unfolding add_route_def Let_def
  by (auto simp: rbind_def remember_def split: if_splits result.splits prod.splits
      dest!: put_with_dedup_retry_cache verify_route_present_cache insert_new_route_cache)

lemma ensure_wildcard_tls_policy_cache:
  "ensure_wildcard_tls_policy ac region domain token (c, w) = (r, c', w') \<Longrightarrow> c' = c"
  unfolding ensure_wildcard_tls_policy_def Let_def
  by (auto simp: rbind_def split: if_splits result.splits prod.splits dest!: put_with_dedup_retry_cache request_cache)

lemma ensure_session_ended_fallback_cache:
  "ensure_session_ended_fallback ac region domain (c, w) = (r, c', w') \<Longrightarrow> c' = c"
  unfolding ensure_session_ended_fallback_def Let_def
  by (auto simp: rbind_def split: if_splits result.splits prod.splits dest!: put_with_dedup_retry_cache request_cache
      first_server_name_cache)

text \<open>The cache after a success.\<close>

lemma add_route_Ok_cache:
  assumes "add_route ac route (c, w) = (Ok (), c', w')"
  shows "c' = dm_insert (cr_host route) route c"
proof -
  have ins: "c2 = dm_insert (cr_host route) route c1"
    if "insert_new_route ac route body (c1, w1) = (Ok (), c2, w2)" for body c1 w1 c2 w2
    using that unfolding insert_new_route_defs
    by (auto simp: rbind_Ok_iff failed_def remember_def verify_route_present_Ok split: if_splits result.splits
        dest!: request_Ok_cache first_server_name_cache)
  from assms show ?thesis
    by (auto simp: add_route_def Let_def rbind_Ok_iff remember_def verify_route_present_Ok split: if_splits
        dest!: put_with_dedup_retry_cache ins)
qed

lemma remove_by_scan_cache:
  "remove_by_scan ac host (c, w) = (r, c', w') \<Longrightarrow> c' = (if is_ok r then dm_remove host c else c)"
  unfolding remove_by_scan_def
  by (auto simp: rbind_def forget_def failed_def split: if_splits result.splits prod.splits option.splits list.splits
      dest!: request_Ok_cache request_Err_cache first_server_name_cache)

lemma remove_route_cache:
  "remove_route ac host (c, w) = (r, c', w') \<Longrightarrow> c' = (if is_ok r then dm_remove host c else c)"
  unfolding remove_route_def
  by (auto simp: rbind_def forget_def failed_def split: if_splits result.splits prod.splits
      dest!: request_Ok_cache request_Err_cache remove_by_scan_cache)

section \<open>Overlapping TLS policies\<close>

lemma trim_end_char_split:
  assumes "c \<notin> set l"
  shows "trim_end_char c p = l \<longleftrightarrow> (\<exists>n. p = l @ replicate n c)"
proof
  assume "trim_end_char c p = l"
  with trim_end_char_prefix [of p c] show "\<exists>n. p = l @ replicate n c" by auto
next
  assume "\<exists>n. p = l @ replicate n c"
  then obtain n where p: "p = l @ replicate n c" ..
  have "trim_end_char c (l @ replicate n c) = trim_end_char c l"
    by (induction n) (simp_all add: replicate_append_same [symmetric] trim_end_char_snoc
        append_assoc [symmetric] del: append_assoc)
  moreover have "trim_end_char c l = l"
    using assms by (intro trim_end_char_id) (metis last_in_set)
  ultimately show "trim_end_char c p = l" by (simp add: p)
qed

text \<open>C38 Which existing TLS policies the wildcard replaces: those with a subject that is the wildcard
  itself, or one label, then any number of dots, then the suffix. One dot is what the comment
  means; with none, a sibling zone whose name merely ends in the suffix loses its policy too.\<close>

theorem policy_overlap_iff:
  assumes "j_get ''subjects'' policy = Some (JArr subjects)"
  shows "policy_subject_overlaps policy (''*.'' @ sfx) \<longleftrightarrow>
    JStr (''*.'' @ sfx) \<in> set subjects
    \<or> (\<exists>l n. l \<noteq> [] \<and> CHR ''.'' \<notin> set l \<and> JStr (l @ replicate n CHR ''.'' @ sfx) \<in> set subjects)"
proof -
  let ?hit = "\<lambda>s. \<exists>l n. l \<noteq> [] \<and> CHR ''.'' \<notin> set l \<and> s = l @ replicate n CHR ''.'' @ sfx"
  have hit: "(case strip_suffix sfx s of None \<Rightarrow> False
      | Some p \<Rightarrow> let p = trim_end_char CHR ''.'' p in p \<noteq> [] \<and> CHR ''.'' \<notin> set p) \<longleftrightarrow> ?hit s" for s
  proof (cases "strip_suffix sfx s")
    case None
    then have "\<not> suffix sfx s" by (simp add: strip_suffix_None)
    then show ?thesis by (auto simp: None suffix_def)
  next
    case (Some p)
    then have s: "s = p @ sfx" by (simp add: strip_suffix_Some)
    show ?thesis
    proof
      assume "case strip_suffix sfx s of None \<Rightarrow> False
        | Some p \<Rightarrow> let p = trim_end_char CHR ''.'' p in p \<noteq> [] \<and> CHR ''.'' \<notin> set p"
      then have l: "trim_end_char CHR ''.'' p \<noteq> []" "CHR ''.'' \<notin> set (trim_end_char CHR ''.'' p)"
        by (simp_all add: Some Let_def)
      obtain n where "p = trim_end_char CHR ''.'' p @ replicate n CHR ''.''" using trim_end_char_prefix by blast
      with l show "?hit s" unfolding s by (metis append.assoc)
    next
      assume "?hit s"
      then obtain l n where l: "l \<noteq> []" "CHR ''.'' \<notin> set l" "s = l @ replicate n CHR ''.'' @ sfx" by blast
      with s have "p = l @ replicate n CHR ''.''" by simp
      with l(1,2) show "case strip_suffix sfx s of None \<Rightarrow> False
        | Some p \<Rightarrow> let p = trim_end_char CHR ''.'' p in p \<noteq> [] \<and> CHR ''.'' \<notin> set p"
        using trim_end_char_split [OF l(2), of p] by (auto simp: Some)
    qed
  qed
  have "j_str x = Some s \<longleftrightarrow> x = JStr s" for x s by (cases x) auto
  then have "list_ex (\<lambda>subj. case j_str subj of None \<Rightarrow> False
      | Some s \<Rightarrow> if s = ''*.'' @ sfx then True else ?hit s) subjects
    \<longleftrightarrow> (\<exists>s. JStr s \<in> set subjects \<and> (s = ''*.'' @ sfx \<or> ?hit s))"
    by (auto simp: list_ex_iff split: option.splits if_splits)
  moreover have "strip_prefix ''*.'' (''*.'' @ sfx) = Some sfx" by (simp only: strip_prefix_Some)
  then have "policy_subject_overlaps policy (''*.'' @ sfx) \<longleftrightarrow>
      list_ex (\<lambda>subj. case j_str subj of None \<Rightarrow> False
        | Some s \<Rightarrow> if s = ''*.'' @ sfx then True else ?hit s) subjects"
    unfolding policy_subject_overlaps_def assms by (simp only: option.case bind.simps j_arr.simps hit)
  ultimately show ?thesis by blast
qed

lemma policy_overlap_iff_witness:
  "policy_subject_overlaps (mk_obj [(''subjects'', JArr [JStr ''xsin.d''])]) (''*.'' @ ''sin.d'')"
proof -
  have "''x'' \<noteq> [] \<and> CHR ''.'' \<notin> set ''x'' \<and> JStr (''x'' @ replicate 0 CHR ''.'' @ ''sin.d'') \<in> set [JStr ''xsin.d'']"
    by simp
  then have "\<exists>l n. l \<noteq> [] \<and> CHR ''.'' \<notin> set l \<and> JStr (l @ replicate n CHR ''.'' @ ''sin.d'') \<in> set [JStr ''xsin.d'']"
    by (intro exI)
  moreover have "j_get ''subjects'' (mk_obj [(''subjects'', JArr [JStr ''xsin.d''])]) = Some (JArr [JStr ''xsin.d''])"
    by simp
  ultimately show ?thesis using policy_overlap_iff by (metis (no_types))
qed

end
