(* ===== verification/ViewerGate.thy ===== *)
theory ViewerGate
  imports SfuTransport
begin

text \<open>
  \<open>edge-viewer-gate/src\<close>: the sidecar that decides on every viewer request. \<open>config.rs\<close>,
  \<open>jwks.rs\<close> (the keys), \<open>revocation.rs\<close> (the mirror of the revocation list and its polling),
  \<open>verify.rs\<close> (the decision on a cookie) and the handler of \<open>main.rs\<close>. The JWT crate, base64, the
  Unicode lower case, the HTTP client, the clock and the timer are parameters. Times are
  milliseconds.
\<close>

section \<open>Configuration\<close>

record gate_config =
  gc_bind_addr :: string
  gc_jwks_url :: string
  gc_refresh_interval :: nat
  gc_revocation_url :: "string option"
  gc_revocation_api_key :: "string option"
  gc_poll_interval :: nat
  gc_required :: bool
  gc_max_staleness :: nat

definition env_secs :: "env \<Rightarrow> string \<Rightarrow> nat \<Rightarrow> nat" where
  "env_secs env key dflt =
     (case Option.bind (env key) (parse_uint (2 ^ 64 - 1)) of Some s \<Rightarrow> s * 1000 | None \<Rightarrow> dflt * 1000)"

text \<open>\<open>is_addr\<close>: whether a text parses as a socket address.\<close>

definition gate_config_from_env :: "(string \<Rightarrow> bool) \<Rightarrow> env \<Rightarrow> (gate_config, string) result" where
  "gate_config_from_env is_addr env =
     (let addr = (case env ''BIND_ADDR'' of Some a \<Rightarrow> a | None \<Rightarrow> ''127.0.0.1:9444'') in
      if \<not> is_addr addr then Err ''BIND_ADDR is not a valid SocketAddr''
      else (case env ''JWKS_URL'' of
              None \<Rightarrow> Err ''JWKS_URL env var is required (dun-api /api/viewer/jwks)''
            | Some jwks_url \<Rightarrow>
                Ok \<lparr>gc_bind_addr = addr, gc_jwks_url = jwks_url,
                    gc_refresh_interval = env_secs env ''JWKS_REFRESH_SECONDS'' (24 * 60 * 60),
                    gc_revocation_url = env ''REVOCATION_URL'',
                    gc_revocation_api_key = env ''REVOCATION_API_KEY'',
                    gc_poll_interval = env_secs env ''REVOCATION_POLL_SECONDS'' 5,
                    gc_required =
                      (case env ''REVOCATION_REQUIRED'' of
                         Some s \<Rightarrow> to_ascii_lowercase (trim s) \<in> {''true'', ''1'', ''yes'', ''on''}
                       | None \<Rightarrow> False),
                    gc_max_staleness = env_secs env ''REVOCATION_MAX_STALENESS_SECONDS'' 30\<rparr>))"

section \<open>Keys\<close>

record jwk_entry =
  jwk_kty :: string
  jwk_crv :: "string option"
  jwk_kid :: string
  jwk_alg :: "string option"
  jwk_x :: string

text \<open>The cache maps a key id to the 32 bytes of an Ed25519 key.\<close>

type_synonym jwks_cache = "(string, string) dashmap"

definition ed25519_entry :: "jwk_entry \<Rightarrow> bool" where
  "ed25519_entry e \<longleftrightarrow> jwk_kty e = ''OKP'' \<and> jwk_crv e = Some ''Ed25519'' \<and> jwk_alg e = Some ''EdDSA''"

fun collect_keys ::
  "(string \<Rightarrow> string option) \<Rightarrow> jwk_entry list \<Rightarrow> jwks_cache \<Rightarrow> (jwks_cache, string) result" where
  "collect_keys b64 [] out = Ok out"
| "collect_keys b64 (e # es) out =
     (if \<not> ed25519_entry e then collect_keys b64 es out
      else (case b64 (jwk_x e) of
              None \<Rightarrow> Err (''kid '' @ jwk_kid e @ '' has malformed x (base64url decode failed)'')
            | Some raw \<Rightarrow>
                if length raw \<noteq> 32 then collect_keys b64 es out
                else collect_keys b64 es (dm_insert (jwk_kid e) raw out)))"

text \<open>\<open>get_doc\<close>: the document at the url, or why there is none (transport, status, syntax).\<close>

definition fetch_jwks ::
  "(string \<Rightarrow> string option) \<Rightarrow> (string \<Rightarrow> ('w, (jwk_entry list, string) result) io) \<Rightarrow> string
   \<Rightarrow> ('w, (jwks_cache, string) result) io" where
  "fetch_jwks b64 get_doc url =
     rbind (get_doc url) (\<lambda>keys w. (collect_keys b64 keys [], w))"

definition jwks_fetch ::
  "(string \<Rightarrow> string option) \<Rightarrow> (string \<Rightarrow> ('w, (jwk_entry list, string) result) io) \<Rightarrow> string
   \<Rightarrow> ('w, (jwks_cache, string) result) io" where
  "jwks_fetch b64 get_doc url =
     rbind (fetch_jwks b64 get_doc url) (\<lambda>initial w.
       (if initial = [] then Err (''JWKS document at '' @ url @ '' contains 0 keys'') else Ok initial, w))"

definition jwks_refresh ::
  "(string \<Rightarrow> string option) \<Rightarrow> (string \<Rightarrow> ('w, (jwk_entry list, string) result) io) \<Rightarrow> string
   \<Rightarrow> jwks_cache \<times> 'w \<Rightarrow> jwks_cache \<times> 'w" where
  "jwks_refresh b64 get_doc url = (\<lambda>(cache, w).
     case fetch_jwks b64 get_doc url w of
       (Ok m, w) \<Rightarrow> (if m \<noteq> [] then m else cache, w)
     | (Err _, w) \<Rightarrow> (cache, w))"

definition jwks_get :: "jwks_cache \<Rightarrow> string \<Rightarrow> string option" where
  "jwks_get cache kid = dm_get cache kid"

section \<open>The revocation list\<close>

record revocation_list =
  rl_set :: "string list"
  rl_last_success :: "nat option"
  rl_last_etag :: "string option"
  rl_polling_enabled :: bool
  rl_max_staleness :: nat

definition revocation_start :: "string option \<Rightarrow> nat \<Rightarrow> revocation_list" where
  "revocation_start url max_staleness =
     \<lparr>rl_set = [], rl_last_success = None, rl_last_etag = None, rl_polling_enabled = (url \<noteq> None),
      rl_max_staleness = max_staleness\<rparr>"

definition rl_contains :: "revocation_list \<Rightarrow> string \<Rightarrow> bool" where
  "rl_contains l jti \<longleftrightarrow> jti \<in> set (rl_set l)"

definition is_fresh :: "nat \<Rightarrow> revocation_list \<Rightarrow> bool" where
  "is_fresh now l \<longleftrightarrow>
     (if \<not> rl_polling_enabled l then True
      else (case rl_last_success l of None \<Rightarrow> False | Some t \<Rightarrow> now - t \<le> rl_max_staleness l))"

text \<open>An answer: status, ETag if it is text, and the list if the body is one.\<close>

record poll_response =
  pr_status :: nat
  pr_etag :: "string option"
  pr_jtis :: "string list option"

record 'w poll_env =
  pe_get :: "string \<Rightarrow> (string \<times> string) list \<Rightarrow> ('w, (poll_response, string) result) io"
  pe_clock :: "'w \<Rightarrow> nat"
  pe_sleep :: "nat \<Rightarrow> 'w \<Rightarrow> 'w"

record poller =
  po_url :: string
  po_api_key :: "string option"
  po_base :: nat
  po_cap :: nat

definition poller_start :: "string \<Rightarrow> string option \<Rightarrow> nat \<Rightarrow> nat \<Rightarrow> poller" where
  "poller_start url api_key poll_interval max_staleness =
     (let base = max poll_interval 1000
      in \<lparr>po_url = url, po_api_key = api_key, po_base = base,
          po_cap = max (min (max_staleness div 2) 60000) base\<rparr>)"

record poll_state =
  ps_list :: revocation_list
  ps_quiet_streak :: u32
  ps_next_at :: nat

definition poll_headers :: "poller \<Rightarrow> revocation_list \<Rightarrow> (string \<times> string) list" where
  "poll_headers p l =
     (case po_api_key p of Some key \<Rightarrow> [(''X-Edge-Api-Key'', key)] | None \<Rightarrow> [])
     @ (case rl_last_etag l of Some etag \<Rightarrow> [(''If-None-Match'', etag)] | None \<Rightarrow> [])"

definition quiet_wait :: "poller \<Rightarrow> u32 \<Rightarrow> nat" where
  "quiet_wait p streak = min (po_base p * 2 ^ min (unat streak) 4) (po_cap p)"

definition poll_step :: "'w poll_env \<Rightarrow> poller \<Rightarrow> poll_state \<times> 'w \<Rightarrow> poll_state \<times> 'w" where
  "poll_step e p = (\<lambda>(s, w).
     let w = (if ps_next_at s > pe_clock e w then pe_sleep e (ps_next_at s - pe_clock e w) w else w);
         l = ps_list s
     in case pe_get e (po_url p) (poll_headers p l) w of
          (Ok resp, w) \<Rightarrow>
            if pr_status resp = 304 then
              let streak = saturating_add (ps_quiet_streak s) 1
              in (s\<lparr>ps_list := l\<lparr>rl_last_success := Some (pe_clock e w)\<rparr>, ps_quiet_streak := streak,
                    ps_next_at := pe_clock e w + quiet_wait p streak\<rparr>, w)
            else if 400 \<le> pr_status resp \<and> pr_status resp < 600
            then (s\<lparr>ps_next_at := pe_clock e w + po_base p\<rparr>, w)
            else (case pr_jtis resp of
                    Some jtis \<Rightarrow>
                      (s\<lparr>ps_list := l\<lparr>rl_set := jtis, rl_last_success := Some (pe_clock e w),
                                      rl_last_etag := pr_etag resp\<rparr>,
                         ps_quiet_streak := 0, ps_next_at := pe_clock e w + po_base p\<rparr>, w)
                  | None \<Rightarrow> (s\<lparr>ps_next_at := pe_clock e w + po_base p\<rparr>, w))
        | (Err _, w) \<Rightarrow> (s\<lparr>ps_next_at := pe_clock e w + po_base p\<rparr>, w))"

fun poll_loop :: "'w poll_env \<Rightarrow> poller \<Rightarrow> nat \<Rightarrow> poll_state \<times> 'w \<Rightarrow> poll_state \<times> 'w" where
  "poll_loop e p 0 s = s"
| "poll_loop e p (Suc n) s = poll_step e p (poll_loop e p n s)"

section \<open>The decision\<close>

record cookie_claims =
  ck_sub :: string
  ck_aud :: string
  ck_exp :: int
  ck_iat :: int
  ck_jti :: string
  ck_host :: string

datatype auth_error =
    MissingCookie | MissingHost | CookieAbsent | BadHeader | UnsupportedAlg string | MissingKid
  | UnknownKid string | DecodeFailed string | AudienceMismatch | HostMismatch string string
  | Revoked string | RevocationStale

text \<open>
  A header by lower-case name: absent, or present with its text, or present and not text. The
  JWT crate reads the algorithm and the key id of a token, and decodes its claims under a key
  for an audience.
\<close>

type_synonym raw_headers = "string \<Rightarrow> string option option"

record gate_crypto =
  cr_header :: "string \<Rightarrow> (string \<times> string option) option"
  cr_decode :: "string \<Rightarrow> string \<Rightarrow> string \<Rightarrow> (cookie_claims, string) result"
  cr_lower :: "string \<Rightarrow> string"

fun extract_from :: "string list \<Rightarrow> string \<Rightarrow> string option" where
  "extract_from [] name = None"
| "extract_from (kv # kvs) name =
     (case split_once CHR ''='' (trim kv) of
        Some (k, v) \<Rightarrow> if trim k = name then Some (trim v) else extract_from kvs name
      | None \<Rightarrow> extract_from kvs name)"

definition extract_cookie :: "string \<Rightarrow> string \<Rightarrow> string option" where
  "extract_cookie raw name = extract_from (split_on CHR '';'' raw) name"

text \<open>The host asked for: the forwarded one if the header is there at all, else \<open>Host\<close>.\<close>

definition request_host :: "gate_crypto \<Rightarrow> raw_headers \<Rightarrow> string option" where
  "request_host g headers =
     (let raw = (case headers ''x-forwarded-host'' of Some v \<Rightarrow> Some v | None \<Rightarrow> headers ''host'')
      in map_option (\<lambda>s. cr_lower g (hd (split_on CHR '':'' s))) (Option.bind raw (\<lambda>v. v)))"

definition authorize ::
  "gate_crypto \<Rightarrow> raw_headers \<Rightarrow> jwks_cache \<Rightarrow> revocation_list \<Rightarrow> bool \<Rightarrow> nat
   \<Rightarrow> (cookie_claims, auth_error) result" where
  "authorize g headers jwks revocation revocation_required now =
     (if revocation_required \<and> \<not> is_fresh now revocation then Err RevocationStale
      else case Option.bind (headers ''cookie'') (\<lambda>v. v) of
        None \<Rightarrow> Err MissingCookie
      | Some cookie_raw \<Rightarrow>
      (case extract_cookie cookie_raw ''dun_share_session'' of
        None \<Rightarrow> Err CookieAbsent
      | Some token \<Rightarrow>
      (case request_host g headers of
        None \<Rightarrow> Err MissingHost
      | Some host \<Rightarrow>
      (case cr_header g token of
        None \<Rightarrow> Err BadHeader
      | Some (alg, kid) \<Rightarrow>
          if alg \<noteq> ''EdDSA'' then Err (UnsupportedAlg alg)
          else (case kid of
            None \<Rightarrow> Err MissingKid
          | Some kid \<Rightarrow>
          (case jwks_get jwks kid of
            None \<Rightarrow> Err (UnknownKid kid)
          | Some key \<Rightarrow>
          (case cr_decode g token key ''viewer-cookie'' of
            Err e \<Rightarrow> Err (DecodeFailed e)
          | Ok claims \<Rightarrow>
              if ck_aud claims \<noteq> ''viewer-cookie'' then Err AudienceMismatch
              else if cr_lower g (ck_host claims) \<noteq> host then Err (HostMismatch (ck_host claims) host)
              else if rl_contains revocation (ck_jti claims) then Err (Revoked (ck_jti claims))
              else Ok claims)))))))"

text \<open>\<open>/check\<close>: a status and the forwarded subject; \<open>header_ok\<close>: whether a text can be a header value.\<close>

definition check_handler ::
  "gate_crypto \<Rightarrow> (string \<Rightarrow> bool) \<Rightarrow> raw_headers \<Rightarrow> jwks_cache \<Rightarrow> revocation_list \<Rightarrow> bool \<Rightarrow> nat
   \<Rightarrow> nat \<times> string option" where
  "check_handler g header_ok headers jwks revocation revocation_required now =
     (case authorize g headers jwks revocation revocation_required now of
        Ok claims \<Rightarrow> (200, if header_ok (ck_sub claims) then Some (ck_sub claims) else None)
      | Err reason \<Rightarrow> (if reason = RevocationStale then 503 else 401, None))"

text \<open>\<open>main\<close>: what the process starts with, or the error it ends with.\<close>

record gate_state =
  gs_jwks :: jwks_cache
  gs_revocation :: revocation_list
  gs_required :: bool

definition gate_boot ::
  "(string \<Rightarrow> bool) \<Rightarrow> (string \<Rightarrow> string option) \<Rightarrow> (string \<Rightarrow> ('w, (jwk_entry list, string) result) io)
   \<Rightarrow> env \<Rightarrow> ('w, (gate_state, string) result) io" where
  "gate_boot is_addr b64 get_doc env =
     rbind (\<lambda>w. (gate_config_from_env is_addr env, w)) (\<lambda>cfg.
     rbind (jwks_fetch b64 get_doc (gc_jwks_url cfg)) (\<lambda>jwks w.
       (Ok \<lparr>gs_jwks = jwks, gs_revocation = revocation_start (gc_revocation_url cfg) (gc_max_staleness cfg),
            gs_required = gc_required cfg\<rparr>, w)))"

section \<open>Keys that can be cached\<close>

definition good_keys :: "jwks_cache \<Rightarrow> bool" where
  "good_keys c \<longleftrightarrow> dm_ok c \<and> (\<forall>kid raw. dm_get c kid = Some raw \<longrightarrow> length raw = 32)"

lemma good_keys_insert [simp]: "good_keys c \<Longrightarrow> length raw = 32 \<Longrightarrow> good_keys (dm_insert kid raw c)"
  by (simp add: good_keys_def)

lemma good_keys_Nil [simp]: "good_keys []"
  by (simp add: good_keys_def)

lemma collect_keys_good: "collect_keys b64 es out = Ok m \<Longrightarrow> good_keys out \<Longrightarrow> good_keys m"
proof (induction es arbitrary: out)
  case (Cons e es)
  then show ?case
    by (cases "b64 (jwk_x e)") (auto split: if_split_asm)
qed simp

lemma collect_keys_source:
  "collect_keys b64 es out = Ok m \<Longrightarrow> dm_get m kid = Some raw \<Longrightarrow>
     dm_get out kid = Some raw \<or>
     (\<exists>e \<in> set es. ed25519_entry e \<and> jwk_kid e = kid \<and> b64 (jwk_x e) = Some raw \<and> length raw = 32)"
proof (induction es arbitrary: out)
  case (Cons e es)
  show ?case
  proof (cases "ed25519_entry e \<and> (\<exists>r. b64 (jwk_x e) = Some r \<and> length r = 32)")
    case True
    then obtain r where r: "ed25519_entry e" "b64 (jwk_x e) = Some r" "length r = 32" by blast
    with Cons.IH [of "dm_insert (jwk_kid e) r out"] Cons.prems show ?thesis
      by (auto split: if_splits)
  next
    case False
    with Cons.prems have "collect_keys b64 es out = Ok m" by (auto split: if_splits option.splits)
    with Cons.IH [of out] Cons.prems(2) show ?thesis by auto
  qed
qed simp

fun jwks_refreshes ::
  "(string \<Rightarrow> string option) \<Rightarrow> (string \<Rightarrow> ('w, (jwk_entry list, string) result) io) \<Rightarrow> string \<Rightarrow> nat
   \<Rightarrow> jwks_cache \<times> 'w \<Rightarrow> jwks_cache \<times> 'w" where
  "jwks_refreshes b64 get_doc url 0 s = s"
| "jwks_refreshes b64 get_doc url (Suc n) s = jwks_refresh b64 get_doc url (jwks_refreshes b64 get_doc url n s)"

lemma fetch_jwks_good: "fetch_jwks b64 get_doc url w = (Ok m, w') \<Longrightarrow> good_keys m"
  by (auto simp: fetch_jwks_def rbind_Ok_iff dest: collect_keys_good)

text \<open>Once the gate has started, its key cache is never empty and never holds anything but 32 byte
  keys, however many refreshes fail or bring an empty document.\<close>

lemma jwks_never_empty:
  assumes "jwks_fetch b64 get_doc url w = (Ok c, w1)"
    and "jwks_refreshes b64 get_doc url n (c, w1) = (c', w2)"
  shows "c' \<noteq> [] \<and> good_keys c'"
  using assms(2)
proof (induction n arbitrary: c' w2)
  case 0
  with assms(1) show ?case
    by (auto simp: jwks_fetch_def rbind_Ok_iff split: if_splits dest: fetch_jwks_good)
next
  case (Suc n)
  obtain c1 w where r: "jwks_refreshes b64 get_doc url n (c, w1) = (c1, w)" by force
  from Suc.IH [OF r] Suc.prems r show ?case
    by (auto simp: jwks_refresh_def split: prod.splits result.splits if_splits dest: fetch_jwks_good)
qed

definition demo_jwk :: jwk_entry where
  "demo_jwk = \<lparr>jwk_kty = ''OKP'', jwk_crv = Some ''Ed25519'', jwk_kid = ''k'', jwk_alg = Some ''EdDSA'', jwk_x = ''x''\<rparr>"

lemma jwks_never_empty_witness:
  "good_keys (fst (jwks_refreshes (\<lambda>_. Some (replicate 32 CHR ''a''))
     (\<lambda>_ w. (if w = 0 then Ok [demo_jwk] else Ok [], Suc w)) ''u'' 2 ([(''k'', replicate 32 CHR ''a'')], Suc 0)))"
proof -
  let ?d = "\<lambda>_ w. (if w = 0 then Ok [demo_jwk] else Ok [], Suc w)"
  have "jwks_fetch (\<lambda>_. Some (replicate 32 CHR ''a'')) ?d ''u'' 0 = (Ok [(''k'', replicate 32 CHR ''a'')], Suc 0)"
    by (simp add: jwks_fetch_def fetch_jwks_def rbind_def ed25519_entry_def demo_jwk_def)
  from jwks_never_empty [OF this surjective_pairing, of 2] show ?thesis by simp
qed

section \<open>Acceptance\<close>

lemma bind_id_Some [simp]: "Option.bind x (\<lambda>v. v) = Some y \<longleftrightarrow> x = Some (Some y)"
  by (cases x) auto

lemma authorize_OkD:
  assumes "authorize g headers jwks revocation required now = Ok claims"
  shows "(required \<longrightarrow> is_fresh now revocation) \<and>
     (\<exists>raw token kid key. headers ''cookie'' = Some (Some raw)
        \<and> extract_cookie raw ''dun_share_session'' = Some token
        \<and> cr_header g token = Some (''EdDSA'', Some kid) \<and> jwks_get jwks kid = Some key
        \<and> cr_decode g token key ''viewer-cookie'' = Ok claims) \<and> ck_aud claims = ''viewer-cookie''
        \<and> request_host g headers = Some (cr_lower g (ck_host claims))
        \<and> \<not> rl_contains revocation (ck_jti claims)"
proof -
  let ?c = "Option.bind (headers ''cookie'') (\<lambda>v. v)"
  note d = assms [unfolded authorize_def]
  have f: "required \<longrightarrow> is_fresh now revocation" using d by (simp split: if_split_asm)
  obtain raw where raw: "?c = Some raw" using d f by (cases ?c) auto
  obtain token where token: "extract_cookie raw ''dun_share_session'' = Some token"
    using d f raw by (cases "extract_cookie raw ''dun_share_session''") auto
  obtain host where host: "request_host g headers = Some host"
    using d f raw token by (cases "request_host g headers") auto
  obtain alg k where hd: "cr_header g token = Some (alg, k)"
    using d f raw token host by (cases "cr_header g token") auto
  have alg: "alg = ''EdDSA''" using d f raw token host hd by (simp split: if_split_asm)
  obtain kid where kid: "k = Some kid" using d f raw token host hd alg by (cases k) auto
  obtain key where key: "jwks_get jwks kid = Some key"
    using d f raw token host hd alg kid by (cases "jwks_get jwks kid") auto
  obtain cl where cl: "cr_decode g token key ''viewer-cookie'' = Ok cl"
    using d f raw token host hd alg kid key by (cases "cr_decode g token key ''viewer-cookie''") auto
  have "cl = claims \<and> ck_aud cl = ''viewer-cookie'' \<and> cr_lower g (ck_host cl) = host
      \<and> \<not> rl_contains revocation (ck_jti cl)"
    using d f raw token host hd alg kid key cl by (simp split: if_split_asm)
  with f raw token host hd alg kid key cl show ?thesis by auto
qed

text \<open>C6 A cookie is accepted exactly when its token names a cached key, is an EdDSA token that decodes
  under it for the audience \<open>viewer-cookie\<close>, was issued for the host of the request, is not in the
  revocation list and, in strict mode, the list is fresh. In every other case the request is
  refused, with 503 only for a stale list.\<close>

theorem gate_accepts_iff:
  "fst (check_handler g header_ok headers jwks revocation required now) = 200 \<longleftrightarrow>
     (\<exists>raw token kid key claims.
        (required \<longrightarrow> is_fresh now revocation)
        \<and> headers ''cookie'' = Some (Some raw) \<and> extract_cookie raw ''dun_share_session'' = Some token
        \<and> cr_header g token = Some (''EdDSA'', Some kid) \<and> jwks_get jwks kid = Some key
        \<and> cr_decode g token key ''viewer-cookie'' = Ok claims \<and> ck_aud claims = ''viewer-cookie''
        \<and> request_host g headers = Some (cr_lower g (ck_host claims))
        \<and> \<not> rl_contains revocation (ck_jti claims))"
  (is "_ \<longleftrightarrow> ?P")
proof -
  have "(\<exists>claims. authorize g headers jwks revocation required now = Ok claims) \<longleftrightarrow> ?P"
  proof
    assume "\<exists>claims. authorize g headers jwks revocation required now = Ok claims"
    then show ?P using authorize_OkD by blast
  next
    assume ?P
    then show "\<exists>claims. authorize g headers jwks revocation required now = Ok claims"
      by (elim exE conjE) (simp add: authorize_def)
  qed
  then show ?thesis by (auto simp: check_handler_def split: result.splits)
qed

definition demo_claims :: cookie_claims where
  "demo_claims =
     \<lparr>ck_sub = ''s'', ck_aud = ''viewer-cookie'', ck_exp = 0, ck_iat = 0, ck_jti = ''j'', ck_host = ''h''\<rparr>"

definition demo_crypto :: gate_crypto where
  "demo_crypto =
     \<lparr>cr_header = (\<lambda>_. Some (''EdDSA'', Some ''k'')), cr_decode = (\<lambda>_ _ _. Ok demo_claims),
      cr_lower = (\<lambda>x. x)\<rparr>"

definition demo_headers :: raw_headers where
  "demo_headers n = (if n = ''cookie'' then Some (Some ''dun_share_session=x'')
     else if n = ''host'' then Some (Some ''h:443'') else None)"

lemma demo_cookie: "extract_cookie ''dun_share_session=x'' ''dun_share_session'' = Some ''x''"
proof -
  have "trim ''dun_share_session=x'' = ''dun_share_session=x''" "trim ''dun_share_session'' = ''dun_share_session''"
    "trim ''x'' = ''x''"
    by (rule trim_id, simp add: ws_bytes_def)+
  then show ?thesis by (simp add: extract_cookie_def)
qed

lemma gate_accepts_iff_witness:
  "fst (check_handler demo_crypto (\<lambda>_. True) demo_headers [(''k'', ''key'')] (revocation_start None 0) True 0) = 200"
  unfolding gate_accepts_iff
  by (rule exI [of _ "''dun_share_session=x''"], rule exI [of _ "''x''"], rule exI [of _ "''k''"],
      rule exI [of _ "''key''"], rule exI [of _ demo_claims])
    (simp add: demo_headers_def demo_cookie demo_crypto_def demo_claims_def request_host_def jwks_get_def rl_contains_def
      is_fresh_def revocation_start_def)

section \<open>Polling\<close>

lemma poller_base_cap: "po_base (poller_start url key iv ms) \<le> po_cap (poller_start url key iv ms)"
  by (simp add: poller_start_def Let_def)

lemma quiet_wait_bounds: "po_base p \<le> po_cap p \<Longrightarrow> po_base p \<le> quiet_wait p k \<and> quiet_wait p k \<le> po_cap p"
  by (simp add: quiet_wait_def)

lemma poll_step_next:
  assumes "poll_step e p (s, w) = (s', w')" and "po_base p \<le> po_cap p"
  shows "\<exists>wait. ps_next_at s' = pe_clock e w' + wait \<and> po_base p \<le> wait \<and> wait \<le> po_cap p"
  using assms quiet_wait_bounds [OF assms(2)]
  by (auto simp: poll_step_def Let_def split: prod.splits result.splits if_splits option.splits)

text \<open>The time between two polls: never below the configured interval (and one second), never above
  half the staleness limit or a minute, unless the interval itself is longer; whatever the feed
  answers, and however long it has been quiet.\<close>

lemma poll_wait_bounds:
  assumes "poll_step e (poller_start url key interval max_staleness) (s, w) = (s', w')"
  shows "\<exists>wait. ps_next_at s' = pe_clock e w' + wait \<and> max interval 1000 \<le> wait
     \<and> wait \<le> max (min (max_staleness div 2) 60000) (max interval 1000)"
  using poll_step_next [OF assms poller_base_cap] by (simp add: poller_start_def Let_def)

text \<open>A feed that answers: each call ends within \<open>tmo\<close> with a 304 or a list, and the timer is at most
  \<open>d\<close> late.\<close>

definition good_answer :: "poll_response \<Rightarrow> bool" where
  "good_answer resp \<longleftrightarrow> pr_status resp = 304 \<or> pr_status resp < 400 \<and> pr_jtis resp \<noteq> None"

definition feed_up :: "'w poll_env \<Rightarrow> nat \<Rightarrow> nat \<Rightarrow> bool" where
  "feed_up e d tmo \<longleftrightarrow>
     (\<forall>n w. pe_clock e (pe_sleep e n w) \<le> pe_clock e w + n + d)
     \<and> (\<forall>u h w. \<exists>resp w'. pe_get e u h w = (Ok resp, w') \<and> good_answer resp \<and> pe_clock e w' \<le> pe_clock e w + tmo)"

lemma poll_step_up:
  assumes "feed_up e d tmo" and "poll_step e p (s, w) = (s', w')"
  shows "rl_last_success (ps_list s') = Some (pe_clock e w')
    \<and> rl_max_staleness (ps_list s') = rl_max_staleness (ps_list s)
    \<and> pe_clock e w' \<le> max (pe_clock e w) (ps_next_at s) + d + tmo"
proof -
  let ?w = "if ps_next_at s > pe_clock e w then pe_sleep e (ps_next_at s - pe_clock e w) w else w"
  obtain resp w2 where g: "pe_get e (po_url p) (poll_headers p (ps_list s)) ?w = (Ok resp, w2)"
    "good_answer resp" "pe_clock e w2 \<le> pe_clock e ?w + tmo"
    using assms(1) unfolding feed_up_def by blast
  have "pe_clock e ?w \<le> max (pe_clock e w) (ps_next_at s) + d"
  proof (cases "ps_next_at s > pe_clock e w")
    case True
    have "pe_clock e (pe_sleep e (ps_next_at s - pe_clock e w) w) \<le> pe_clock e w + (ps_next_at s - pe_clock e w) + d"
      using assms(1) unfolding feed_up_def by blast
    with True show ?thesis by simp
  qed simp
  with g assms(2) show ?thesis
    by (auto simp: poll_step_def Let_def good_answer_def split: if_split_asm)
qed

definition poll_start :: "string option \<Rightarrow> nat \<Rightarrow> nat \<Rightarrow> poll_state" where
  "poll_start url max_staleness now =
     \<lparr>ps_list = revocation_start url max_staleness, ps_quiet_streak = 0, ps_next_at = now\<rparr>"

lemma poll_loop_up:
  assumes "feed_up e d tmo" and "po_base p \<le> po_cap p"
    and "poll_loop e p (Suc n) (poll_start url ms now, w0) = (s, w)"
  shows "rl_last_success (ps_list s) = Some (pe_clock e w) \<and> rl_max_staleness (ps_list s) = ms
    \<and> ps_next_at s \<le> pe_clock e w + po_cap p"
  using assms(3)
proof (induction n arbitrary: s w)
  case 0
  then have st: "poll_step e p (poll_start url ms now, w0) = (s, w)" by simp
  from poll_step_up [OF assms(1) st] poll_step_next [OF st assms(2)] show ?case
    by (auto simp: poll_start_def revocation_start_def)
next
  case (Suc n)
  obtain s1 w1 where 1: "poll_loop e p (Suc n) (poll_start url ms now, w0) = (s1, w1)" by force
  with Suc.prems have st: "poll_step e p (s1, w1) = (s, w)" by simp
  from Suc.IH [OF 1] poll_step_up [OF assms(1) st] poll_step_next [OF st assms(2)] show ?case by auto
qed

text \<open>C22 Strict mode does not refuse by itself: as long as the feed answers, and the longest wait, the
  lateness of the timer and the duration of a call fit into the staleness limit, the list is
  fresh at every moment after the first poll, in spite of the growing waits.\<close>

theorem strict_mode_stays_up:
  assumes "feed_up e d tmo" and "po_cap p + d + tmo \<le> max_staleness"
    and "p = poller_start url key interval max_staleness"
    and "poll_loop e p (Suc n) (poll_start (Some url) max_staleness start, w0) = (s, w)"
    and "poll_step e p (s, w) = (s', w')" and "now \<le> pe_clock e w'"
  shows "is_fresh now (ps_list s)"
proof -
  have "po_base p \<le> po_cap p" using assms(3) poller_base_cap by simp
  note l = poll_loop_up [OF assms(1) this assms(4)]
  have "pe_clock e w' \<le> pe_clock e w + po_cap p + d + tmo"
    using poll_step_up [OF assms(1,5)] l by linarith
  then have "now - pe_clock e w \<le> max_staleness" using assms(2,6) by linarith
  with l show ?thesis by (simp add: is_fresh_def)
qed

definition demo_feed :: "nat poll_env" where
  "demo_feed =
     \<lparr>pe_get = (\<lambda>u h w. (Ok \<lparr>pr_status = 304, pr_etag = None, pr_jtis = None\<rparr>, w + 100)),
      pe_clock = (\<lambda>w. w), pe_sleep = (\<lambda>n w. w + n)\<rparr>"

lemma demo_feed_up: "feed_up demo_feed 0 5000"
  by (simp add: feed_up_def demo_feed_def good_answer_def)

lemma strict_mode_stays_up_witness:
  "is_fresh 0 (ps_list (fst (poll_loop demo_feed (poller_start ''u'' None 5000 30000) (Suc 1)
      (poll_start (Some ''u'') 30000 0, 0))))"
  by (rule strict_mode_stays_up [OF demo_feed_up _ refl surjective_pairing surjective_pairing])
    (simp_all add: poller_start_def Let_def)

lemma poll_wait_bounds_witness:
  "\<exists>wait. ps_next_at (fst (poll_step demo_feed (poller_start ''u'' None 5000 30000) (poll_start (Some ''u'') 30000 0, 0)))
      = pe_clock demo_feed (snd (poll_step demo_feed (poller_start ''u'' None 5000 30000) (poll_start (Some ''u'') 30000 0, 0)))
        + wait \<and> wait \<le> 15000"
  using poll_wait_bounds [OF surjective_pairing, of demo_feed "''u''" None 5000 30000 "poll_start (Some ''u'') 30000 0" 0]
  by auto

text \<open>Without a feed, strict mode never refuses: the limit is ineffective, as the start logs.\<close>

lemma strict_mode_without_feed: "is_fresh now (revocation_start None max_staleness)"
  by (simp add: is_fresh_def revocation_start_def)

text \<open>A poll interval beyond the limit makes strict mode refuse between two successful polls.\<close>

lemma slow_interval_trips: "max_staleness < po_base (poller_start url key interval max_staleness) \<Longrightarrow>
   rl_polling_enabled l \<Longrightarrow> rl_max_staleness l = max_staleness \<Longrightarrow> rl_last_success l = Some t \<Longrightarrow>
   \<not> is_fresh (t + po_base (poller_start url key interval max_staleness)) l"
  by (simp add: is_fresh_def)

end
