(* ===== verification/EdgeConfig.thy ===== *)
theory EdgeConfig
  imports CaddyAdmin RouterManager PortAllocator Rathole SubdomainStore CallbackClient
begin

text \<open>
  \<open>edge-control/src/config.rs\<close> and \<open>state.rs\<close>: the configuration of the edge server from its
  environment, and the state of the application at its start. What never changes afterwards (the
  clients, the verifier) is put together by \<open>edge_host_of\<close> and \<open>app_callback\<close> of \<open>EdgeRoutes\<close>; the
  reporters that are spawned here are the models of \<open>Bandwidth\<close> and \<open>EdgeRoutes\<close>.
\<close>

section \<open>Configuration\<close>

record edge_config =
  ec_region :: string
  ec_bind_port :: u16
  ec_dun_api_endpoint :: string
  ec_dun_api_key :: "string option"
  ec_mtls_cert_path :: "string option"
  ec_mtls_key_path :: "string option"
  ec_mtls_ca_path :: "string option"
  ec_caddy_admin_url :: string
  ec_rathole_config_path :: string
  ec_persistent_queue_dir :: string
  ec_sfu_workers :: nat
  ec_jwt_secret_v1 :: "string option"
  ec_jwt_secret_v2 :: "string option"
  ec_share_tunnel_domain :: "string option"
  ec_cloudflare_api_token :: "string option"
  ec_viewer_gate_upstream :: "string option"

definition or_default :: "string option \<Rightarrow> string \<Rightarrow> string" where
  "or_default x dflt = (case x of Some s \<Rightarrow> s | None \<Rightarrow> dflt)"

definition num_cpus_or_default :: "nat option \<Rightarrow> nat" where
  "num_cpus_or_default parallelism = (case parallelism of Some n \<Rightarrow> n | None \<Rightarrow> 4)"

definition option_filter :: "('a \<Rightarrow> bool) \<Rightarrow> 'a option \<Rightarrow> 'a option" where
  "option_filter P x = (case x of Some v \<Rightarrow> if P v then Some v else None | None \<Rightarrow> None)"

definition viewer_gate_upstream_of :: "env \<Rightarrow> string option" where
  "viewer_gate_upstream_of env =
     (case option_filter
             (\<lambda>s. s \<noteq> [] \<and> \<not> eq_ignore_ascii_case s ''disabled'' \<and> \<not> eq_ignore_ascii_case s ''off''
                \<and> \<not> eq_ignore_ascii_case s ''none'')
             (map_option trim (env ''EDGE_VIEWER_GATE_UPSTREAM'')) of
        Some s \<Rightarrow> Some s
      | None \<Rightarrow> Some ''127.0.0.1:9444'')"

definition edge_config_from_env :: "nat option \<Rightarrow> env \<Rightarrow> (edge_config, string) result" where
  "edge_config_from_env parallelism env =
     (case env ''REGION_ID'' of
        None \<Rightarrow> Err ''REGION_ID env var required''
      | Some region \<Rightarrow>
          (case env ''DUN_API_ENDPOINT'' of
             None \<Rightarrow> Err ''DUN_API_ENDPOINT required''
           | Some dun_api_endpoint \<Rightarrow>
               Ok \<lparr>ec_region = region,
                   ec_bind_port =
                     (case Option.bind (env ''EDGE_BIND_PORT'') parse_u16 of Some p \<Rightarrow> p | None \<Rightarrow> 8443),
                   ec_dun_api_endpoint = dun_api_endpoint,
                   ec_dun_api_key = env ''DUN_API_KEY'',
                   ec_mtls_cert_path = env ''EDGE_MTLS_CERT_PATH'',
                   ec_mtls_key_path = env ''EDGE_MTLS_KEY_PATH'',
                   ec_mtls_ca_path = env ''EDGE_MTLS_CA_PATH'',
                   ec_caddy_admin_url = or_default (env ''CADDY_ADMIN_URL'') ''http://127.0.0.1:2019'',
                   ec_rathole_config_path = or_default (env ''RATHOLE_CONFIG_PATH'') ''/etc/rathole/server.toml'',
                   ec_persistent_queue_dir =
                     or_default (env ''PERSISTENT_QUEUE_DIR'') ''/var/lib/dun-tunel/queue'',
                   ec_sfu_workers =
                     (case Option.bind (env ''SFU_WORKERS'') (parse_uint (2 ^ 64 - 1)) of
                        Some n \<Rightarrow> n | None \<Rightarrow> num_cpus_or_default parallelism),
                   ec_jwt_secret_v1 = env ''TUNNEL_JWT_SECRET_V1'',
                   ec_jwt_secret_v2 = env ''TUNNEL_JWT_SECRET_V2'',
                   ec_share_tunnel_domain = env ''SHARE_TUNNEL_DOMAIN'',
                   ec_cloudflare_api_token = env ''CLOUDFLARE_API_TOKEN'',
                   ec_viewer_gate_upstream = viewer_gate_upstream_of env\<rparr>))"

definition parse_dun_api_upstream :: "string \<Rightarrow> string option" where
  "parse_dun_api_upstream endpoint =
     (let trimmed = trim endpoint in
      if trimmed = [] then None
      else
        let after_scheme = or_default (after_first ''://'' trimmed) trimmed;
            authority = hd (split_on CHR ''/'' after_scheme)
        in if authority = [] then None
           else if CHR '':'' \<notin> set authority then None
           else Some authority)"

section \<open>The start\<close>

record app_state =
  ap_region :: string
  ap_started_at :: nat
  ap_sfu :: router_manager
  ap_rathole :: registry
  ap_ports :: port_pool
  ap_routes :: route_cache
  ap_subdomains :: "(session_id, string) dashmap"

text \<open>A path as its components.\<close>

definition path_of :: "string \<Rightarrow> path" where
  "path_of s = filter (\<lambda>p. p \<noteq> []) (split_on CHR ''/'' s)"

record 'w edge_world =
  ew_engine :: "'w engine"
  ew_http :: "'w caddy_http"
  ew_rathole :: "'w host"
  ew_env :: env
  ew_parse_ip :: "string \<Rightarrow> ip option"
  ew_now :: "'w \<Rightarrow> nat"

definition app_caddy :: "'w caddy_http \<Rightarrow> edge_config \<Rightarrow> 'w admin_client" where
  "app_caddy http cfg =
     with_upstreams http (ec_caddy_admin_url cfg) (parse_dun_api_upstream (ec_dun_api_endpoint cfg))
       (ec_viewer_gate_upstream cfg) (Some (''127.0.0.1:'' @ to_dec (unat (ec_bind_port cfg))))"

text \<open>What is installed in Caddy; a failure is logged and ignored.\<close>

definition caddy_bootstrap :: "'w admin_client \<Rightarrow> edge_config \<Rightarrow> route_cache \<times> 'w \<Rightarrow> route_cache \<times> 'w" where
  "caddy_bootstrap caddy cfg s =
     (case (ec_share_tunnel_domain cfg, ec_cloudflare_api_token cfg) of
        (Some domain, Some token) \<Rightarrow>
          let s = snd (ensure_wildcard_tls_policy caddy (ec_region cfg) domain token s);
              s = snd (ensure_edge_admin_route caddy (ec_region cfg) domain (ec_bind_port cfg) s)
          in snd (ensure_session_ended_fallback caddy (ec_region cfg) domain s)
      | _ \<Rightarrow> s)"

text \<open>The map from sessions to hosts as the disk has it; without a readable directory it is empty.\<close>

definition load_subdomains :: "path \<Rightarrow> fs \<Rightarrow> (session_id, string) dashmap \<times> fs" where
  "load_subdomains base s =
     (case sub_load_all base (snd (sub_ensure_dir base s)) of
        (Ok m, s) \<Rightarrow> (fold (\<lambda>(k, v). dm_insert k v) m [], s)
      | (Err _, s) \<Rightarrow> ([], s))"

definition app_jwt :: "(string \<Rightarrow> string \<Rightarrow> 'w rev_oracle) \<Rightarrow> edge_config \<Rightarrow> 'w jwt_verifier" where
  "app_jwt new_oracle cfg =
     (let jwt = jwt_verifier_new;
          jwt = (case ec_jwt_secret_v1 cfg of Some s \<Rightarrow> add_key ''v1'' s jwt | None \<Rightarrow> jwt);
          jwt = (case ec_jwt_secret_v2 cfg of Some s \<Rightarrow> add_key ''v2'' s jwt | None \<Rightarrow> jwt)
      in case ec_dun_api_key cfg of
           Some api_key \<Rightarrow> with_revocation (new_oracle (ec_dun_api_endpoint cfg) api_key) jwt
         | None \<Rightarrow> jwt)"

definition app_initialize :: "'w edge_world \<Rightarrow> edge_config \<Rightarrow> fs \<times> 'w \<Rightarrow> (app_state, rm_error) result \<times> fs \<times> 'w" where
  "app_initialize ew cfg = (\<lambda>(s, w).
     case listen_from_env (ew_parse_ip ew) (ew_env ew) of
       Err e \<Rightarrow> (Err (Fail e), s, w)
     | Ok li \<Rightarrow>
         (case rm_new (ew_engine ew) (ec_sfu_workers cfg) li w of
            (Err e, w) \<Rightarrow> (Err e, s, w)
          | (Ok sfu, w) \<Rightarrow>
              (case caddy_bootstrap (app_caddy (ew_http ew) cfg) cfg ([], w) of
                 (routes, w) \<Rightarrow>
                   (case load_subdomains (path_of (ec_persistent_queue_dir cfg)) s of
                      (subdomains, s) \<Rightarrow>
                        (Ok \<lparr>ap_region = ec_region cfg, ap_started_at = ew_now ew w, ap_sfu = sfu,
                             ap_rathole = registry_new (ew_rathole ew) (path_of (ec_rathole_config_path cfg)),
                             ap_ports = port_allocator_new, ap_routes = routes,
                             ap_subdomains = subdomains\<rparr>, s, w)))))"

section \<open>Properties\<close>

lemma viewer_gate_configured:
  "edge_config_from_env parallelism env = Ok cfg \<Longrightarrow> \<exists>gate. ec_viewer_gate_upstream cfg = Some gate \<and> gate \<noteq> []"
  by (auto simp: edge_config_from_env_def viewer_gate_upstream_of_def option_filter_def
      split: option.splits if_splits)

text \<open>C21 The gate cannot be switched off: whatever the environment says, \<open>disabled\<close> included, the
  configuration names a gate, and so no path outside the public assets and dun-api's reaches the
  tunnel or the signalling server of a session before the gate has answered.\<close>

theorem gate_always_on:
  assumes "edge_config_from_env parallelism env = Ok cfg"
  shows "\<exists>gate. ec_viewer_gate_upstream cfg = Some gate \<and> gate \<noteq> [] \<and>
     (\<forall>route pm path r.
        picked pm path (inner_routes route (ac_dun_api_upstream (app_caddy http cfg))
            (ac_auth_gate_upstream (app_caddy http cfg)) (ac_edge_control_upstream (app_caddy http cfg))) = Some r
        \<and> \<not> any_path pm viewer_public_paths path \<and> \<not> any_path pm (with_subtree dun_api_path_prefixes) path
        \<longrightarrow> direct_dials r = (if any_path pm viewer_edge_block_paths path then [] else [gate]))"
proof -
  obtain gate where g: "ec_viewer_gate_upstream cfg = Some gate" "gate \<noteq> []"
    using viewer_gate_configured [OF assms] by blast
  have "ac_auth_gate_upstream (app_caddy http cfg) = Some gate"
    by (simp add: app_caddy_def with_upstreams_def g(1))
  with g gate_before_tunnel show ?thesis by (intro exI [of _ gate]) auto
qed

definition demo_env :: env where
  "demo_env k = (if k = ''REGION_ID'' then Some ''sin'' else if k = ''DUN_API_ENDPOINT'' then Some ''http://h:3010''
     else if k = ''EDGE_VIEWER_GATE_UPSTREAM'' then Some ''disabled'' else None)"

lemma gate_always_on_witness:
  "\<exists>cfg gate. edge_config_from_env None demo_env = Ok cfg \<and> ec_viewer_gate_upstream cfg = Some gate \<and> gate \<noteq> []"
proof -
  obtain cfg where c: "edge_config_from_env None demo_env = Ok cfg"
    by (simp add: edge_config_from_env_def demo_env_def)
  from gate_always_on [OF c] c show ?thesis by blast
qed

end
