(* ===== verification/EdgeRoutes.thy ===== *)
theory EdgeRoutes
  imports EdgeConfig SfuWs
begin

text \<open>
  \<open>edge-control/src/routes\<close>: the handlers for the life of a tunnel (\<open>tunnels.rs\<close>), the
  verification of a token, the SFU routes, the snapshot and the liveness probe; and the snapshot
  reporter of \<open>edge-sfu\<close>. A handler is a function of the application state, the disk and the
  world; the calls that \<open>deprovision\<close> joins run in the order they are written, their states
  being separate. A panic ends the process.
\<close>

record 'w edge_host =
  eh_engine :: "'w engine"
  eh_toml :: toml_enc
  eh_rathole :: "'w host"
  eh_caddy :: "'w admin_client"
  eh_store :: path
  eh_to_string :: "json \<Rightarrow> string"
  eh_jwt :: "'w jwt_verifier"
  eh_hdr :: "string \<Rightarrow> (string option, string) result"
  eh_dec :: "tunnel_claims jwt_decode"
  eh_now :: "'w \<Rightarrow> nat"
  eh_date :: "'w \<Rightarrow> date"

type_synonym 'w edge_state = "app_state \<times> fs \<times> 'w"

text \<open>
  The parts of \<open>AppState\<close> that never change after \<open>initialize\<close>: the clients, the verifier and the
  stores of this configuration. What is read at run time (clock, codecs of TOML, JSON and tokens)
  comes from the host record \<open>o'\<close>.
\<close>

definition edge_host_of ::
  "'w edge_world \<Rightarrow> (string \<Rightarrow> string \<Rightarrow> 'w rev_oracle) \<Rightarrow> 'w edge_host \<Rightarrow> edge_config \<Rightarrow> 'w edge_host" where
  "edge_host_of ew new_oracle o' cfg =
     o'\<lparr>eh_engine := ew_engine ew, eh_rathole := ew_rathole ew, eh_caddy := app_caddy (ew_http ew) cfg,
        eh_store := path_of (ec_persistent_queue_dir cfg), eh_jwt := app_jwt new_oracle cfg\<rparr>"

definition app_callback :: "env \<Rightarrow> edge_config \<Rightarrow> callback_client" where
  "app_callback env cfg = client_new env (ec_dun_api_endpoint cfg)"

text \<open>Every route that an edge with a configuration from the environment puts into Caddy is gated and
  sends the signalling paths to the port the edge listens on.\<close>

lemma edge_host_gated:
  assumes "edge_config_from_env parallelism env = Ok cfg"
  shows "\<exists>gate. gate \<noteq> [] \<and> route_body (eh_caddy (edge_host_of ew new_oracle o' cfg)) route =
     build_route route (parse_dun_api_upstream (ec_dun_api_endpoint cfg)) (Some gate)
       (Some (''127.0.0.1:'' @ to_dec (unat (ec_bind_port cfg))))"
proof -
  obtain gate where "ec_viewer_gate_upstream cfg = Some gate" "gate \<noteq> []"
    using viewer_gate_configured [OF assms] by blast
  then show ?thesis by (auto simp: edge_host_of_def route_body_def app_caddy_def with_upstreams_def)
qed

datatype 'a reply = Reply "('a, nat) result" | Abort string

text \<open>A call on one part of the state.\<close>

definition with_rathole ::
  "(registry \<times> fs \<times> 'w \<Rightarrow> 'r \<times> registry \<times> fs \<times> 'w) \<Rightarrow> 'w edge_state \<Rightarrow> 'r \<times> 'w edge_state" where
  "with_rathole f = (\<lambda>(a, s, w). case f (ap_rathole a, s, w) of (r, g, s, w) \<Rightarrow> (r, a\<lparr>ap_rathole := g\<rparr>, s, w))"

definition with_caddy :: "(route_cache \<times> 'w \<Rightarrow> 'r \<times> route_cache \<times> 'w) \<Rightarrow> 'w edge_state \<Rightarrow> 'r \<times> 'w edge_state" where
  "with_caddy f = (\<lambda>(a, s, w). case f (ap_routes a, w) of (r, c, w) \<Rightarrow> (r, a\<lparr>ap_routes := c\<rparr>, s, w))"

definition with_sfu :: "(router_manager \<times> 'w \<Rightarrow> 'r \<times> router_manager \<times> 'w) \<Rightarrow> 'w edge_state \<Rightarrow> 'r \<times> 'w edge_state" where
  "with_sfu f = (\<lambda>(a, s, w). case f (ap_sfu a, w) of (r, m, w) \<Rightarrow> (r, a\<lparr>ap_sfu := m\<rparr>, s, w))"

definition with_store :: "(fs \<Rightarrow> 'r \<times> fs) \<Rightarrow> 'w edge_state \<Rightarrow> 'r \<times> 'w edge_state" where
  "with_store f = (\<lambda>(a, s, w). case f s of (r, s) \<Rightarrow> (r, a, s, w))"

section \<open>Tunnels\<close>

definition service_of :: "create_session_req \<Rightarrow> u16 \<Rightarrow> rathole_service" where
  "service_of req local_port =
     \<lparr>rs_name = req_session_id req, rs_token_hash = req_tunnel_token req,
      rs_bind_addr = ''0.0.0.0:'' @ to_dec (unat local_port), rs_transport = None\<rparr>"

definition route_of :: "create_session_req \<Rightarrow> u16 \<Rightarrow> caddy_route" where
  "route_of req local_port =
     \<lparr>cr_host = req_subdomain req, cr_upstream = ''127.0.0.1:'' @ to_dec (unat local_port),
      cr_ws_paths = [''/api/ws'', ''/webrtc'']\<rparr>"

definition create_resp :: "'w edge_host \<Rightarrow> u16 \<Rightarrow> provisioned_router \<Rightarrow> string option \<Rightarrow> create_session_resp" where
  "create_resp h local_port p lan_host =
     \<lparr>resp_router_id = pr_router_id p,
      resp_producer_transport_encrypted = eh_to_string h (mk_obj
        [(''producerId'', JStr (pr_producer_id p)), (''rtpCapabilities'', pr_rtp_capabilities p),
         (''plainRtpPort'', JInt (uint (pr_plain_rtp_port p))), (''plainRtcpPort'', JInt (uint (pr_plain_rtcp_port p)))]),
      resp_consumer_template_encrypted = [],
      resp_local_upstream_port = local_port,
      resp_media_rtp_port = Some (pr_plain_rtp_port p),
      resp_media_payload_type = Some plain_payload_type,
      resp_media_ssrc = Some plain_ssrc,
      resp_media_lan_host = lan_host\<rparr>"

text \<open>What \<open>create\<close> undoes when the SFU fails: both errors are ignored.\<close>

definition create_rollback :: "'w edge_host \<Rightarrow> create_session_req \<Rightarrow> u16 \<Rightarrow> 'w edge_state \<Rightarrow> 'w edge_state" where
  "create_rollback h req local_port st =
     (let st = snd (with_caddy (remove_route (eh_caddy h) (req_subdomain req)) st);
          st = snd (with_rathole (registry_deregister (eh_toml h) (eh_rathole h) (req_session_id req)) st)
      in case st of (a, s, w) \<Rightarrow> (a\<lparr>ap_ports := release_port local_port (ap_ports a)\<rparr>, s, w))"

definition create :: "'w edge_host \<Rightarrow> create_session_req \<Rightarrow> 'w edge_state \<Rightarrow> create_session_resp reply \<times> 'w edge_state" where
  "create h req = (\<lambda>(a, s, w).
     case allocate (ap_ports a) of
       (Err _, ports) \<Rightarrow> (Reply (Err 503), a\<lparr>ap_ports := ports\<rparr>, s, w)
     | (Ok local_port, ports) \<Rightarrow>
         (case with_rathole (registry_register (eh_toml h) (eh_rathole h) (service_of req local_port))
                 (a\<lparr>ap_ports := ports\<rparr>, s, w) of
            (Err _, st) \<Rightarrow> (Reply (Err 500), st)
          | (Ok _, st) \<Rightarrow>
              (case with_caddy (add_route (eh_caddy h) (route_of req local_port)) st of
                 (Err _, st) \<Rightarrow> (Reply (Err 500), st)
               | (Ok _, st) \<Rightarrow>
                   (case with_sfu (provision_session (eh_engine h) (req_session_id req)) st of
                      (Err (Panic m), st) \<Rightarrow> (Abort m, st)
                    | (Err (Fail _), st) \<Rightarrow> (Reply (Err 500), create_rollback h req local_port st)
                    | (Ok p, a, s, w) \<Rightarrow>
                        let a = a\<lparr>ap_subdomains := dm_insert (req_session_id req) (req_subdomain req) (ap_subdomains a)\<rparr>;
                            st = snd (with_store (sub_save (eh_store h) (req_session_id req) (req_subdomain req)) (a, s, w))
                        in (Reply (Ok (create_resp h local_port p (media_lan_host (ap_sfu a)))), st)))))"

definition update_token :: "'w edge_host \<Rightarrow> session_id \<Rightarrow> string \<Rightarrow> 'w edge_state \<Rightarrow> nat \<times> 'w edge_state" where
  "update_token h sid tunnel_token st =
     (case with_rathole (registry_update_token (eh_toml h) (eh_rathole h) sid tunnel_token) st of
        (Ok True, st) \<Rightarrow> (204, st)
      | (Ok False, st) \<Rightarrow> (404, st)
      | (Err _, st) \<Rightarrow> (500, st))"

definition deprovision :: "'w edge_host \<Rightarrow> session_id \<Rightarrow> 'w edge_state \<Rightarrow> nat \<times> 'w edge_state" where
  "deprovision h sid = (\<lambda>(a, s, w).
     let subdomain = dm_get (ap_subdomains a) sid;
         st = (a\<lparr>ap_subdomains := dm_remove sid (ap_subdomains a)\<rparr>, s, w);
         st = snd (with_store (sub_remove (eh_store h) sid) st);
         st = (case subdomain of Some host \<Rightarrow> snd (with_caddy (remove_route (eh_caddy h) host) st) | None \<Rightarrow> st);
         st = snd (with_rathole (registry_deregister (eh_toml h) (eh_rathole h) sid) st);
         st = snd (with_rathole (registry_deregister (eh_toml h) (eh_rathole h) (sid @ ''-rtp'')) st);
         st = snd (with_sfu (\<lambda>x. ((), close_session (eh_engine h) sid x)) st)
     in (204, st))"

section \<open>Tokens\<close>

fun error_text :: "edge_error \<Rightarrow> string" where
  "error_text (SessionNotFound s) = ''session not found: '' @ s"
| "error_text (InvalidToken s) = ''invalid token: '' @ s"
| "error_text (TokenRevoked s) = ''token revoked: jti='' @ s"
| "error_text (RegionMismatch t e) = ''region mismatch: token='' @ t @ '', edge='' @ e"
| "error_text (ViewerCapReached s) = ''viewer cap reached for session '' @ s"
| "error_text PortPoolExhausted = ''port pool exhausted''"
| "error_text (UpstreamUnreachable s) = ''upstream unreachable: '' @ s"
| "error_text (Config s) = ''config error: '' @ s"
| "error_text Io = ''io error''"
| "error_text Serde = ''serde error''"
| "error_text (Other s) = s"

record verify_response =
  vr_ok :: bool
  vr_session_id :: "string option"
  vr_jti :: "string option"
  vr_reason :: "string option"

definition verify_tunnel_handler ::
  "'w edge_host \<Rightarrow> string \<Rightarrow> string \<Rightarrow> 'w \<Rightarrow> (nat \<times> verify_response) \<times> 'w" where
  "verify_tunnel_handler h token region w =
     (case verify_tunnel (eh_hdr h) (eh_dec h) (eh_jwt h) token region w of
        (Ok claims, w) \<Rightarrow>
          ((200, \<lparr>vr_ok = True, vr_session_id = Some (tc_sub claims), vr_jti = Some (tc_jti claims), vr_reason = None\<rparr>), w)
      | (Err e, w) \<Rightarrow>
          ((401, \<lparr>vr_ok = False, vr_session_id = None, vr_jti = None, vr_reason = Some (error_text e)\<rparr>), w))"

text \<open>The API key check, as the module defines it.\<close>

definition require_api_key :: "string \<Rightarrow> string option \<Rightarrow> 'r \<Rightarrow> ('r, nat) result" where
  "require_api_key expected header next_run =
     (if (case header of Some v \<Rightarrow> v | None \<Rightarrow> []) \<noteq> expected then Err 401 else Ok next_run)"

section \<open>Viewers over HTTP\<close>

definition create_router_status :: "string \<Rightarrow> nat" where
  "create_router_status msg =
     (if str_contains ''viewer cap'' msg then 429
      else if str_contains ''session not found'' msg then 404 else 500)"

definition create_router ::
  "'w edge_host \<Rightarrow> session_id \<Rightarrow> string \<Rightarrow> 'w edge_state
   \<Rightarrow> (consumer_transport_info \<times> consumer_transport_info, nat) result \<times> 'w edge_state" where
  "create_router h sid viewer_id st =
     (case with_sfu (create_consumer_transports (eh_engine h) sid viewer_id) st of
        (r, st) \<Rightarrow> (map_err (\<lambda>e. create_router_status (fail_text e)) r, st))"

definition remove_viewer_handler :: "'w edge_host \<Rightarrow> session_id \<Rightarrow> string \<Rightarrow> 'w edge_state \<Rightarrow> nat \<times> 'w edge_state" where
  "remove_viewer_handler h sid viewer_id st =
     (204, snd (with_sfu (\<lambda>x. ((), remove_viewer (eh_engine h) sid viewer_id x)) st))"

section \<open>Snapshots\<close>

definition route_entry_of :: "caddy_route \<Rightarrow> route_entry" where
  "route_entry_of r =
     \<lparr>re_session_id = cr_host r, re_subdomain = cr_host r,
      re_upstream_port = (case parse_u16 (last (split_on CHR '':'' (cr_upstream r))) of Some p \<Rightarrow> p | None \<Rightarrow> 0)\<rparr>"

definition router_entry_of :: "session_id \<Rightarrow> router_entry" where
  "router_entry_of sid = \<lparr>rte_session_id = sid, rte_router_id = ''router-'' @ sid, rte_viewer_count = 0\<rparr>"

definition tunnel_entry_of :: "date \<Rightarrow> rathole_service \<Rightarrow> tunnel_entry" where
  "tunnel_entry_of now svc = \<lparr>te_session_id = rs_name svc, te_connected = True, te_last_seen_at = now\<rparr>"

definition snapshot :: "'w edge_host \<Rightarrow> 'w edge_state \<Rightarrow> state_snapshot" where
  "snapshot h = (\<lambda>(a, s, w).
     \<lparr>ss_region = ap_region a, ss_captured_at = eh_date h w,
      ss_routes = map route_entry_of (list_routes (ap_routes a)),
      ss_routers = map router_entry_of (list_active_sessions (ap_sfu a)),
      ss_tunnels = map (tunnel_entry_of (eh_date h w)) (registry_list (ap_rathole a))\<rparr>)"

definition healthz :: "'w edge_host \<Rightarrow> 'w edge_state \<Rightarrow> health_response" where
  "healthz h = (\<lambda>(a, s, w).
     \<lparr>hr_region = ap_region a, hr_uptime_secs = word_of_nat ((eh_now h w - ap_started_at a) div 1000),
      hr_active_sessions = word_of_nat (length (list_active_sessions (ap_sfu a)))\<rparr>)"

text \<open>\<open>edge-sfu/src/snapshot_reporter.rs\<close>: one tick of the loop.\<close>

fun push_snapshots ::
  "(edge_callback_event \<Rightarrow> ('w, unit edge_result) io) \<Rightarrow> router_manager \<Rightarrow> session_id list \<Rightarrow> 'w \<Rightarrow> 'w" where
  "push_snapshots send rm [] w = w"
| "push_snapshots send rm (sid # sids) w =
     push_snapshots send rm sids (snd (send (SessionSnapshot sid (viewer_count rm sid)) w))"

definition snapshot_tick :: "(edge_callback_event \<Rightarrow> ('w, unit edge_result) io) \<Rightarrow> router_manager \<Rightarrow> 'w \<Rightarrow> 'w" where
  "snapshot_tick send rm = push_snapshots send rm (list_active_sessions rm)"

end
