(* ===== verification/TunnelLife.thy ===== *)
theory TunnelLife
  imports EdgeRoutes
begin

text \<open>
  What the tunnel routes guarantee over the life of the process: the edge server as a transition
  system whose steps are whole requests, with the other tasks (viewers, monitors, the disk, the
  world) free to change everything but the registry, the port pool, the route cache and the map
  of the hosts in between.
\<close>

section \<open>The effect on each part\<close>

lemma with_defs:
  "with_rathole f (a, s, w) = (case f (ap_rathole a, s, w) of (r, g, s, w) \<Rightarrow> (r, a\<lparr>ap_rathole := g\<rparr>, s, w))"
  "with_caddy f' (a, s, w) = (case f' (ap_routes a, w) of (r', c, w) \<Rightarrow> (r', a\<lparr>ap_routes := c\<rparr>, s, w))"
  "with_sfu f'' (a, s, w) = (case f'' (ap_sfu a, w) of (r'', m, w) \<Rightarrow> (r'', a\<lparr>ap_sfu := m\<rparr>, s, w))"
  "with_store f3 (a, s, w) = (case f3 s of (r3, s) \<Rightarrow> (r3, a, s, w))"
  by (simp_all add: with_rathole_def with_caddy_def with_sfu_def with_store_def)

lemma register_memory:
  "registry_register enc h svc (r, s, w) = (res, r', s', w') \<Longrightarrow>
     r' = r\<lparr>sr_services := dm_insert (rs_name svc) svc (sr_services r)\<rparr>"
  by (auto simp: registry_register_def Let_def split: prod.splits)

lemma deregister_memory:
  "registry_deregister enc h k (r, s, w) = (res, r', s', w') \<Longrightarrow>
     r' = r\<lparr>sr_services := dm_remove k (sr_services r)\<rparr>"
  by (auto simp: registry_deregister_def Let_def split: prod.splits)

lemma update_token_memory:
  "registry_update_token enc h k tok (r, s, w) = (res, r', s', w') \<Longrightarrow>
     r' = (case dm_get (sr_services r) k of None \<Rightarrow> r
           | Some svc \<Rightarrow> r\<lparr>sr_services := dm_insert k (svc\<lparr>rs_token_hash := tok\<rparr>) (sr_services r)\<rparr>)"
  by (auto simp: registry_update_token_def Let_def split: prod.splits option.splits result.splits)

text \<open>The registry and the pool: all that the port invariants look at.\<close>

definition core :: "'w edge_state \<Rightarrow> port_pool \<times> (session_id, rathole_service) dashmap" where
  "core st = (ap_ports (fst st), sr_services (ap_rathole (fst st)))"

lemma core_caddy: "with_caddy f st = (r, st') \<Longrightarrow> core st' = core st"
  by (cases st) (auto simp: with_defs core_def split: prod.splits)

lemma core_sfu: "with_sfu f st = (r, st') \<Longrightarrow> core st' = core st"
  by (cases st) (auto simp: with_defs core_def split: prod.splits)

lemma core_store: "with_store f st = (r, st') \<Longrightarrow> core st' = core st"
  by (cases st) (auto simp: with_defs core_def split: prod.splits)

lemma core_register:
  "with_rathole (registry_register enc h svc) st = (r, st') \<Longrightarrow> core st = (ports, m) \<Longrightarrow>
     core st' = (ports, dm_insert (rs_name svc) svc m)"
  by (cases st) (auto simp: with_defs core_def split: prod.splits dest!: register_memory)

lemma core_deregister:
  "with_rathole (registry_deregister enc h k) st = (r, st') \<Longrightarrow> core st = (ports, m) \<Longrightarrow>
     core st' = (ports, dm_remove k m)"
  by (cases st) (auto simp: with_defs core_def split: prod.splits dest!: deregister_memory)

lemma core_update_token:
  "with_rathole (registry_update_token enc h k tok) st = (r, st') \<Longrightarrow> core st = (ports, m) \<Longrightarrow>
     core st' = (ports, case dm_get m k of None \<Rightarrow> m | Some svc \<Rightarrow> dm_insert k (svc\<lparr>rs_token_hash := tok\<rparr>) m)"
  by (cases st) (auto simp: with_defs core_def split: prod.splits option.splits dest!: update_token_memory)

lemma core_rollback:
  assumes "core st = (ports, m)"
  shows "core (create_rollback h req p st) = (release_port p ports, dm_remove (req_session_id req) m)"
proof -
  obtain r1 st1 where 1: "with_caddy (remove_route (eh_caddy h) (req_subdomain req)) st = (r1, st1)" by (metis surj_pair)
  obtain r2 st2 where 2: "with_rathole (registry_deregister (eh_toml h) (eh_rathole h) (req_session_id req)) st1 = (r2, st2)"
    by (metis surj_pair)
  have "core st2 = (ports, dm_remove (req_session_id req) m)"
    using core_deregister [OF 2] core_caddy [OF 1] assms by simp
  with 1 2 show ?thesis
    by (cases st2) (auto simp: create_rollback_def Let_def core_def)
qed

section \<open>What a request does to the ports\<close>

text \<open>
  The three outcomes of \<open>create\<close>: no port left; the service registered under the first free
  port; or the same undone. Only the first and the last can be answers other than success.
\<close>

lemma create_core:
  assumes "create h req st = (Reply res, st')" and "core st = (ports, m)"
  shows "ports = [] \<and> (\<exists>e. res = Err e) \<and> core st' = (ports, m)
    \<or> (\<exists>p free. ports = p # free \<and>
        (core st' = (free, dm_insert (req_session_id req) (service_of req p) m)
         \<or> (\<exists>e. res = Err e) \<and> core st' = (release_port p free, dm_remove (req_session_id req)
               (dm_insert (req_session_id req) (service_of req p) m))))"
proof -
  obtain a s w where st: "st = (a, s, w)" by (metis prod_cases3)
  have ports: "ap_ports a = ports" "sr_services (ap_rathole a) = m" using assms(2) by (simp_all add: st core_def)
  show ?thesis
  proof (cases ports)
    case Nil
    with assms(1) ports show ?thesis by (auto simp: st create_def core_def)
  next
    case (Cons p free)
    let ?st0 = "(a\<lparr>ap_ports := free\<rparr>, s, w)" let ?sid = "req_session_id req"
    obtain r1 st1 where 1: "with_rathole (registry_register (eh_toml h) (eh_rathole h) (service_of req p)) ?st0 = (r1, st1)"
      by (metis surj_pair)
    obtain r2 st2 where 2: "with_caddy (add_route (eh_caddy h) (route_of req p)) st1 = (r2, st2)" by (metis surj_pair)
    obtain r3 st3 where 3: "with_sfu (provision_session (eh_engine h) ?sid) st2 = (r3, st3)" by (metis surj_pair)
    obtain a3 s3 w3 where st3: "st3 = (a3, s3, w3)" by (metis prod_cases3)
    have c1: "core st1 = (free, dm_insert ?sid (service_of req p) m)"
      using core_register [OF 1, of free m] ports(2) by (simp add: core_def service_of_def)
    have c2: "core st2 = core st1" by (rule core_caddy [OF 2])
    have c3: "core st3 = core st1" using core_sfu [OF 3] c2 by simp
    have al: "allocate (ap_ports a) = (Ok p, free)" by (simp add: ports Cons)
    note eq = assms(1) [unfolded st create_def] al
    have "core st' = core st1 \<or> (\<exists>e. res = Err e) \<and> core st' = core (create_rollback h req p st3)"
    proof (cases r1)
      case (Err e)
      with eq 1 show ?thesis by simp
    next
      case o1: (Ok u)
      show ?thesis
      proof (cases r2)
        case (Err e)
        with eq 1 2 o1 c2 show ?thesis by simp
      next
        case o2: (Ok u')
        show ?thesis
        proof (cases r3)
          case (Ok pr)
          with eq 1 2 3 o1 o2 show ?thesis
            using c3 st3 by (auto simp: core_def with_defs Let_def split: prod.splits)
        next
          case (Err e)
          with eq 1 2 3 o1 o2 show ?thesis by (cases e) auto
        qed
      qed
    qed
    then show ?thesis
      using core_rollback [of st3 free "dm_insert ?sid (service_of req p) m" h req p] c1 c3 Cons by auto
  qed
qed

lemma deprovision_core:
  assumes "deprovision h sid st = (code, st')" and "core st = (ports, m)"
  shows "core st' = (ports, dm_remove (sid @ ''-rtp'') (dm_remove sid m))"
proof -
  obtain a s w where st: "st = (a, s, w)" by (metis prod_cases3)
  let ?a = "a\<lparr>ap_subdomains := dm_remove sid (ap_subdomains a)\<rparr>"
  obtain r1 st1 where 1: "with_store (sub_remove (eh_store h) sid) (?a, s, w) = (r1, st1)" by (metis surj_pair)
  obtain r2 st2 where 2: "(case dm_get (ap_subdomains a) sid of
      Some host \<Rightarrow> with_caddy (remove_route (eh_caddy h) host) st1 | None \<Rightarrow> (Ok (), st1)) = (r2, st2)" by (metis surj_pair)
  obtain r3 st3 where 3: "with_rathole (registry_deregister (eh_toml h) (eh_rathole h) sid) st2 = (r3, st3)"
    by (metis surj_pair)
  obtain r4 st4 where 4: "with_rathole (registry_deregister (eh_toml h) (eh_rathole h) (sid @ ''-rtp'')) st3 = (r4, st4)"
    by (metis surj_pair)
  obtain r5 st5 where 5: "with_sfu (\<lambda>x. ((), close_session (eh_engine h) sid x)) st4 = (r5, st5)" by (metis surj_pair)
  have "core st2 = (ports, m)"
    using 2 core_store [OF 1] assms(2) by (auto simp: st core_def split: option.splits dest!: core_caddy)
  then have "core st5 = (ports, dm_remove (sid @ ''-rtp'') (dm_remove sid m))"
    using core_sfu [OF 5] core_deregister [OF 4 core_deregister [OF 3]] by simp
  moreover have "st' = st5"
    using assms(1) 1 2 3 4 5 by (auto simp: st deprovision_def Let_def split: option.splits)
  ultimately show ?thesis by simp
qed

lemma update_token_core:
  "update_token h sid tok st = (code, st') \<Longrightarrow> core st = (ports, m) \<Longrightarrow>
     core st' = (ports, case dm_get m sid of None \<Rightarrow> m | Some svc \<Rightarrow> dm_insert sid (svc\<lparr>rs_token_hash := tok\<rparr>) m)"
  by (auto simp: update_token_def split: prod.splits result.splits bool.splits dest!: core_update_token)

section \<open>The life of the process\<close>

text \<open>
  A run from a state, with the number of creations that were answered with success. Between two
  requests the other tasks may change the sessions of the SFU, the disk and the world.
\<close>

inductive edge_run :: "'w edge_host \<Rightarrow> 'w edge_state \<Rightarrow> nat \<Rightarrow> 'w edge_state \<Rightarrow> bool" for h st0 where
  start: "edge_run h st0 0 st0"
| created: "edge_run h st0 n st \<Longrightarrow> create h req st = (Reply (Ok resp), st') \<Longrightarrow> edge_run h st0 (Suc n) st'"
| refused: "edge_run h st0 n st \<Longrightarrow> create h req st = (Reply (Err code), st') \<Longrightarrow> edge_run h st0 n st'"
| deleted: "edge_run h st0 n st \<Longrightarrow> deprovision h sid st = (code, st') \<Longrightarrow> edge_run h st0 n st'"
| rotated: "edge_run h st0 n st \<Longrightarrow> update_token h sid tok st = (code, st') \<Longrightarrow> edge_run h st0 n st'"
| others: "edge_run h st0 n (a, s, w) \<Longrightarrow> edge_run h st0 n (a\<lparr>ap_sfu := rm\<rparr>, s', w')"

inductive_cases edge_run_zero: "edge_run h st0 0 st"

text \<open>No more ports are in the pool than were, less the successes.\<close>

lemma create_pool_length:
  assumes "create h req st = (Reply res, st')"
  shows "length (ap_ports (fst st')) + (if is_ok res then 1 else 0) \<le> length (ap_ports (fst st))"
proof -
  obtain ports m where c: "core st = (ports, m)" by force
  have len: "length (release_port p free) \<le> Suc (length free)" for p free
    by (simp add: release_port_def length_insort insort_insert_key_def)
  from create_core [OF assms c] c len show ?thesis
    by (auto simp: core_def split: if_splits)
qed

lemma edge_run_pool_length:
  "edge_run h st0 n st \<Longrightarrow> length (ap_ports (fst st)) + n \<le> length (ap_ports (fst st0))"
proof (induction rule: edge_run.induct)
  case (created n st req resp st')
  from create_pool_length [OF created(2)] created.IH show ?case by simp
next
  case (refused n st req code st')
  from create_pool_length [OF refused(2)] refused.IH show ?case by simp
next
  case (deleted n st sid code st')
  obtain ports m where c: "core st = (ports, m)" by force
  from deprovision_core [OF deleted(2) c] c deleted.IH show ?case by (simp add: core_def)
next
  case (rotated n st sid tok code st')
  obtain ports m where c: "core st = (ports, m)" by force
  from update_token_core [OF rotated(2) c] c rotated.IH show ?case by (simp add: core_def)
qed simp_all

lemma app_initialize_fresh:
  "app_initialize ew cfg (s, w) = (Ok a, s', w') \<Longrightarrow>
     ap_ports a = port_allocator_new \<and> sr_services (ap_rathole a) = [] \<and> registry_ok (ap_rathole a)"
  by (auto simp: app_initialize_def registry_new_def registry_ok_def split: result.splits prod.splits)

lemma length_port_allocator_new: "length port_allocator_new = 1000"
  by (simp only: port_allocator_new_def length_map length_upt) (simp add: port_min_def port_max_def)

text \<open>A deleted session does not give its port back: however many sessions are deleted in between,
  the process answers at most 1000 creations with success in its whole life.\<close>

lemma lifetime_create_limit:
  assumes "app_initialize ew cfg (s0, w0) = (Ok a0, s1, w1)"
    and "edge_run h (a0, s1, w1) n st"
  shows "n \<le> 1000"
  using edge_run_pool_length [OF assms(2)] app_initialize_fresh [OF assms(1)] length_port_allocator_new by simp

section \<open>Ports and services\<close>

definition bind_addr :: "u16 \<Rightarrow> string" where
  "bind_addr p = ''0.0.0.0:'' @ to_dec (unat p)"

lemma bind_addr_inj: "bind_addr p = bind_addr q \<longleftrightarrow> p = q"
  by (simp add: bind_addr_def to_dec_inj word_unat_eq_iff)

lemma service_of_simps [simp]:
  "rs_name (service_of req p) = req_session_id req" "rs_bind_addr (service_of req p) = bind_addr p"
  by (simp_all add: service_of_def bind_addr_def)

text \<open>Every service has a port of the range that is not free, and no two the same.\<close>

definition owned :: "port_pool \<Rightarrow> (session_id, rathole_service) dashmap \<Rightarrow> bool" where
  "owned ports m \<longleftrightarrow> pool_ok ports
     \<and> (\<forall>k svc. dm_get m k = Some svc \<longrightarrow>
          (\<exists>p. rs_bind_addr svc = bind_addr p \<and> port_min \<le> p \<and> p \<le> port_max \<and> p \<notin> set ports))
     \<and> (\<forall>k l svc svc'. dm_get m k = Some svc \<and> dm_get m l = Some svc' \<and> rs_bind_addr svc = rs_bind_addr svc'
          \<longrightarrow> k = l)"

lemma owned_remove: "owned ports m \<Longrightarrow> owned ports (dm_remove k m)"
  by (auto simp: owned_def)

lemma owned_take:
  assumes "owned (p # free) m"
  shows "owned free (dm_insert k (svc\<lparr>rs_bind_addr := bind_addr p\<rparr>) m)"
    and "dm_get m l = Some svc' \<Longrightarrow> rs_bind_addr svc' \<noteq> bind_addr p"
proof -
  have p: "port_min \<le> p" "p \<le> port_max" "p \<notin> set free" "pool_ok free"
    using assms by (auto simp: owned_def pool_ok_def)
  show new: "rs_bind_addr svc' \<noteq> bind_addr p" if h: "dm_get m l = Some svc'" for l svc'
  proof -
    obtain q where "rs_bind_addr svc' = bind_addr q" "q \<notin> set (p # free)"
      using assms h unfolding owned_def by blast
    then show ?thesis by (auto simp: bind_addr_inj)
  qed
  show "owned free (dm_insert k (svc\<lparr>rs_bind_addr := bind_addr p\<rparr>) m)"
    unfolding owned_def
  proof (intro conjI allI impI)
    show "pool_ok free" by (rule p)
  next
    fix l s assume a: "dm_get (dm_insert k (svc\<lparr>rs_bind_addr := bind_addr p\<rparr>) m) l = Some s"
    show "\<exists>q. rs_bind_addr s = bind_addr q \<and> port_min \<le> q \<and> q \<le> port_max \<and> q \<notin> set free"
    proof (cases "k = l")
      case True
      with a p show ?thesis by auto
    next
      case False
      with a have "dm_get m l = Some s" by simp
      with assms show ?thesis unfolding owned_def by (meson list.set_intros(2))
    qed
  next
    fix l1 l2 s1 s2
    assume a: "dm_get (dm_insert k (svc\<lparr>rs_bind_addr := bind_addr p\<rparr>) m) l1 = Some s1
      \<and> dm_get (dm_insert k (svc\<lparr>rs_bind_addr := bind_addr p\<rparr>) m) l2 = Some s2 \<and> rs_bind_addr s1 = rs_bind_addr s2"
    show "l1 = l2"
    proof (cases "l1 = k \<or> l2 = k")
      case True
      then show ?thesis
        using a new [of l1 s1] new [of l2 s2] by (cases "l1 = k"; cases "l2 = k") auto
    next
      case False
      with a have "dm_get m l1 = Some s1" "dm_get m l2 = Some s2" by auto
      with a assms show ?thesis unfolding owned_def by blast
    qed
  qed
qed

lemma owned_release:
  assumes "owned free m" and "port_min \<le> p" "p \<le> port_max"
    and "\<And>l svc. dm_get m l = Some svc \<Longrightarrow> rs_bind_addr svc \<noteq> bind_addr p"
  shows "owned (release_port p free) m"
proof -
  have "pool_ok (release_port p free) \<and> set (release_port p free) = insert p (set free)"
    using assms(1-3) ports.release [of free p] by (simp add: owned_def)
  then have r: "pool_ok (release_port p free)" "set (release_port p free) = insert p (set free)" by simp_all
  show ?thesis
    unfolding owned_def r(2)
  proof (intro conjI allI impI)
    show "pool_ok (release_port p free)" by (rule r)
  next
    fix l svc assume m: "dm_get m l = Some svc"
    then obtain q where q: "rs_bind_addr svc = bind_addr q" "port_min \<le> q" "q \<le> port_max" "q \<notin> set free"
      using assms(1) unfolding owned_def by blast
    moreover have "q \<noteq> p" using assms(4) [OF m] q(1) by auto
    ultimately show "\<exists>q. rs_bind_addr svc = bind_addr q \<and> port_min \<le> q \<and> q \<le> port_max \<and> q \<notin> insert p (set free)"
      by blast
  next
    fix k l s1 s2
    assume "dm_get m k = Some s1 \<and> dm_get m l = Some s2 \<and> rs_bind_addr s1 = rs_bind_addr s2"
    then show "k = l" using assms(1) unfolding owned_def by blast
  qed
qed

lemma create_owned:
  assumes "create h req st = (Reply res, st')" and "core st = (ports, m)" and "owned ports m"
  shows "case core st' of (ports', m') \<Rightarrow> owned ports' m'"
proof -
  have svc: "service_of req p = (service_of req p)\<lparr>rs_bind_addr := bind_addr p\<rparr>" for p
    by (simp add: service_of_def bind_addr_def)
  from create_core [OF assms(1,2)] consider
      "core st' = (ports, m)"
    | p free where "ports = p # free" "core st' = (free, dm_insert (req_session_id req) (service_of req p) m)"
    | p free where "ports = p # free" "core st' = (release_port p free, dm_remove (req_session_id req)
          (dm_insert (req_session_id req) (service_of req p) m))"
    by blast
  then show ?thesis
  proof cases
    case 1
    with assms(3) show ?thesis by simp
  next
    case 2
    with owned_take(1) [of p free m "req_session_id req" "service_of req p"] assms(3) show ?thesis
      by (simp add: svc [symmetric])
  next
    case 3
    have o: "owned (p # free) m" using assms(3) 3 by simp
    have "owned free (dm_remove (req_session_id req) (dm_insert (req_session_id req) (service_of req p) m))"
      using owned_remove [OF owned_take(1) [OF o, of "req_session_id req" "service_of req p"]]
      by (simp add: svc [symmetric])
    moreover have "port_min \<le> p" "p \<le> port_max" using o by (auto simp: owned_def pool_ok_def)
    ultimately have "owned (release_port p free) (dm_remove (req_session_id req)
        (dm_insert (req_session_id req) (service_of req p) m))"
      by (rule owned_release) (use owned_take(2) [OF o] in \<open>auto split: if_splits\<close>)
    with 3 show ?thesis by simp
  qed
qed

lemma owned_token:
  assumes "owned ports m" and "dm_get m k = Some svc"
  shows "owned ports (dm_insert k (svc\<lparr>rs_token_hash := tok\<rparr>) m)"
proof -
  let ?m = "dm_insert k (svc\<lparr>rs_token_hash := tok\<rparr>) m"
  have same: "\<exists>s'. dm_get m l = Some s' \<and> rs_bind_addr s' = rs_bind_addr s" if "dm_get ?m l = Some s" for l s
    using that assms(2) by (auto split: if_splits)
  show ?thesis
    unfolding owned_def
  proof (intro conjI allI impI)
    show "pool_ok ports" using assms(1) by (simp add: owned_def)
  next
    fix l s assume "dm_get ?m l = Some s"
    then obtain s' where "dm_get m l = Some s'" "rs_bind_addr s' = rs_bind_addr s" using same by blast
    with assms(1) show "\<exists>p. rs_bind_addr s = bind_addr p \<and> port_min \<le> p \<and> p \<le> port_max \<and> p \<notin> set ports"
      unfolding owned_def by metis
  next
    fix l1 l2 s1 s2
    assume a: "dm_get ?m l1 = Some s1 \<and> dm_get ?m l2 = Some s2 \<and> rs_bind_addr s1 = rs_bind_addr s2"
    then obtain t1 t2 where "dm_get m l1 = Some t1" "dm_get m l2 = Some t2" "rs_bind_addr t1 = rs_bind_addr t2"
      using same by metis
    with assms(1) show "l1 = l2" unfolding owned_def by blast
  qed
qed

lemma edge_run_owned:
  "edge_run h st0 n st \<Longrightarrow> (case core st0 of (ports, m) \<Rightarrow> owned ports m) \<Longrightarrow>
     (case core st of (ports, m) \<Rightarrow> owned ports m)"
proof (induction rule: edge_run.induct)
  case (created n st req resp st')
  then show ?case using create_owned [OF created(2)] by (auto split: prod.splits)
next
  case (refused n st req code st')
  then show ?case using create_owned [OF refused(2)] by (auto split: prod.splits)
next
  case (deleted n st sid code st')
  obtain ports m where c: "core st = (ports, m)" by force
  with deprovision_core [OF deleted(2) c] deleted show ?case by (simp add: owned_remove)
next
  case (rotated n st sid tok code st')
  obtain ports m where c: "core st = (ports, m)" by force
  with update_token_core [OF rotated(2) c] rotated show ?case
    by (auto simp: owned_token split: option.splits)
next
  case (others n a s w rm s' w')
  then show ?case by (simp add: core_def)
qed

text \<open>In every state the process can reach, whatever failed on the way, no two tunnels listen on the
  same port and none on a port that the pool would hand out next: a new session never gets the
  traffic of another.\<close>

lemma tunnel_ports_exclusive:
  assumes "app_initialize ew cfg (s0, w0) = (Ok a0, s1, w1)"
    and "edge_run h (a0, s1, w1) n (a, s, w)"
    and "dm_get (sr_services (ap_rathole a)) k = Some svc"
  shows "(\<forall>l svc'. dm_get (sr_services (ap_rathole a)) l = Some svc' \<and> l \<noteq> k \<longrightarrow> rs_bind_addr svc' \<noteq> rs_bind_addr svc)
     \<and> (\<forall>p ports. allocate (ap_ports a) = (Ok p, ports) \<longrightarrow> rs_bind_addr svc \<noteq> bind_addr p)"
proof -
  have "owned port_allocator_new []"
    using port_allocator_new_ok by (simp add: owned_def ports.partitioned_def)
  then have "case core (a0, s1, w1) of (ports, m) \<Rightarrow> owned ports m"
    using app_initialize_fresh [OF assms(1)] by (simp add: core_def)
  from edge_run_owned [OF assms(2) this] have o: "owned (ap_ports a) (sr_services (ap_rathole a))"
    by (simp add: core_def)
  show ?thesis
  proof (intro conjI allI impI)
    fix l svc' assume "dm_get (sr_services (ap_rathole a)) l = Some svc' \<and> l \<noteq> k"
    with o assms(3) show "rs_bind_addr svc' \<noteq> rs_bind_addr svc" unfolding owned_def by metis
  next
    fix p ports assume "allocate (ap_ports a) = (Ok p, ports)"
    then have "ap_ports a = p # ports" by (cases "ap_ports a") auto
    with o owned_take(2) assms(3) show "rs_bind_addr svc \<noteq> bind_addr p" by metis
  qed
qed

section \<open>Consistency of a success, completeness of a deletion\<close>

lemma provision_Ok_session:
  "provision_session eng sid (rm, w) = (Ok p, rm', w') \<Longrightarrow> dm_get (rm_sessions rm') sid \<noteq> None"
  by (auto simp: provision_session_def commit_session_def Let_def split: option.splits prod.splits result.splits)

lemma create_Ok_parts:
  assumes "create h req (a, s, w) = (Reply (Ok resp), a', s', w')"
  defines "p \<equiv> resp_local_upstream_port resp" and "sid \<equiv> req_session_id req"
  shows "ap_ports a = p # ap_ports a'
    \<and> sr_services (ap_rathole a') = dm_insert sid (service_of req p) (sr_services (ap_rathole a))
    \<and> ap_routes a' = dm_insert (req_subdomain req) (route_of req p) (ap_routes a)
    \<and> (\<exists>w1 pr w2. provision_session (eh_engine h) sid (ap_sfu a, w1) = (Ok pr, ap_sfu a', w2))
    \<and> ap_subdomains a' = dm_insert sid (req_subdomain req) (ap_subdomains a)"
proof -
  let ?sid = "req_session_id req"
  obtain q free where q: "ap_ports a = q # free"
    using assms(1) by (cases "ap_ports a") (auto simp: create_def)
  obtain r1 g s1 w1 where 1: "registry_register (eh_toml h) (eh_rathole h) (service_of req q) (ap_rathole a, s, w) = (r1, g, s1, w1)"
    by (metis prod_cases4)
  obtain r2 c w2 where 2: "add_route (eh_caddy h) (route_of req q) (ap_routes a, w1) = (r2, c, w2)" by (metis prod_cases3)
  obtain r3 m w3 where 3: "provision_session (eh_engine h) ?sid (ap_sfu a, w2) = (r3, m, w3)" by (metis prod_cases3)
  obtain r4 s4 where 4: "sub_save (eh_store h) ?sid (req_subdomain req) s1 = (r4, s4)" by force
  note eval = assms(1) q 1 2 3 4
  obtain u1 where r1: "r1 = Ok u1" using eval by (cases r1) (simp_all add: create_def with_defs)
  obtain u2 where r2: "r2 = Ok u2" using eval r1 by (cases r2) (simp_all add: create_def with_defs)
  obtain pr where r3: "r3 = Ok pr"
    using eval r1 r2 by (cases r3) (simp_all add: create_def with_defs split: rm_error.splits)
  have res: "resp = create_resp h q pr (media_lan_host m)"
    "a' = a\<lparr>ap_ports := free, ap_rathole := g, ap_routes := c, ap_sfu := m,
            ap_subdomains := dm_insert ?sid (req_subdomain req) (ap_subdomains a)\<rparr>"
    using eval r1 r2 r3 by (auto simp: create_def with_defs Let_def)
  have "c = dm_insert (req_subdomain req) (route_of req q) (ap_routes a)"
    using add_route_Ok_cache 2 r2 by (fastforce simp: route_of_def)
  then show ?thesis
    using res q register_memory [OF 1] 3 r3
    by (auto simp: p_def sid_def create_resp_def)
qed


lemma deprovision_forget:
  assumes "deprovision h sid (a, s, w) = (code, a', s', w')"
  shows "code = 204 \<and> dm_get (sr_services (ap_rathole a')) sid = None
    \<and> dm_get (rm_sessions (ap_sfu a')) sid = None \<and> dm_get (ap_subdomains a') sid = None
    \<and> ap_ports a' = ap_ports a"
proof -
  obtain ports m where c: "core (a, s, w) = (ports, m)" by force
  have close: "dm_get (rm_sessions (fst (close_session eng sid x))) sid = None" for eng :: "'a engine" and x
    by (cases x) (auto simp: close_session_def split: option.split)
  have "dm_get (rm_sessions (ap_sfu a')) sid = None \<and> dm_get (ap_subdomains a') sid = None \<and> code = 204"
    using assms
    by (auto simp: deprovision_def Let_def with_store_def with_caddy_def with_rathole_def with_sfu_def
        split: prod.splits option.splits dest!: arg_cong [where f = fst]) (metis close fst_conv)+
  with deprovision_core [OF assms c] c show ?thesis by (simp add: core_def)
qed

text \<open>A deletion removes the session from the registry, from the SFU and from the map of the hosts
  whatever fails on the way, and always answers 204; the pool gets no port back.\<close>

lemma deprovision_forgets:
  assumes "deprovision h sid (a, s, w) = (code, a', s', w')"
  shows "code = 204 \<and> dm_get (sr_services (ap_rathole a')) sid = None
    \<and> dm_get (rm_sessions (ap_sfu a')) sid = None \<and> dm_get (ap_subdomains a') sid = None
    \<and> ap_ports a' = ap_ports a"
  using assms by (rule deprovision_forget)

section \<open>A concrete edge\<close>

definition ok_http :: "bool caddy_http" where
  "ok_http = \<lparr>h_get = (\<lambda>_ w. (answer 200 [] JNull, w)), h_put = (\<lambda>_ _ w. (answer 200 [] JNull, w)),
     h_post = (\<lambda>_ _ w. (answer 200 [] JNull, w)), h_patch = (\<lambda>_ _ w. (answer 200 [] JNull, w)),
     h_delete = (\<lambda>_ w. (answer 200 [] JNull, w))\<rparr>"

definition bool_host :: "bool host" where
  "bool_host = \<lparr>h_env = (\<lambda>_. None), h_kill = (\<lambda>_ w. (True, w)), h_exec = (\<lambda>_ _ w. (Ok True, w))\<rparr>"

definition demo_cfg :: edge_config where
  "demo_cfg =
     \<lparr>ec_region = ''sin'', ec_bind_port = 9443, ec_dun_api_endpoint = ''http://h:3010'', ec_dun_api_key = None,
      ec_mtls_cert_path = None, ec_mtls_key_path = None, ec_mtls_ca_path = None, ec_caddy_admin_url = ''c'',
      ec_rathole_config_path = ''r.toml'', ec_persistent_queue_dir = ''q'', ec_sfu_workers = 1,
      ec_jwt_secret_v1 = None, ec_jwt_secret_v2 = None, ec_share_tunnel_domain = None,
      ec_cloudflare_api_token = None, ec_viewer_gate_upstream = Some ''g''\<rparr>"

definition demo_world :: "bool edge_world" where
  "demo_world = \<lparr>ew_engine = demo_engine, ew_http = ok_http, ew_rathole = bool_host, ew_env = (\<lambda>_. None),
     ew_parse_ip = Some, ew_now = (\<lambda>_. 0)\<rparr>"

definition demo_edge :: "bool edge_host" where
  "demo_edge =
     \<lparr>eh_engine = demo_engine, eh_toml = demo_enc, eh_rathole = bool_host, eh_caddy = app_caddy ok_http demo_cfg,
      eh_store = [''q''], eh_to_string = (\<lambda>_. []), eh_jwt = jwt_verifier_new, eh_hdr = (\<lambda>_. Err []),
      eh_dec = (\<lambda>_ _ _. Err []), eh_now = (\<lambda>_. 0), eh_date = (\<lambda>_. 0)\<rparr>"

definition demo_req :: create_session_req where
  "demo_req = \<lparr>req_session_id = ''s'', req_subdomain = ''a.b'', req_tunnel_token_hash = ''h'', req_tunnel_token = ''t'',
     req_viewer_token_hash = ''v'', req_codecs = [], req_expires_at = 0\<rparr>"

text \<open>The disk refuses to list the stored hosts, and then works.\<close>

definition demo_fs :: fs where
  "demo_fs = \<lparr>nodes = [([], Dir)], faults = [Fails 0, Fails 0]\<rparr>"

lemma demo_init:
  "\<exists>a. app_initialize demo_world demo_cfg (demo_fs, True) = (Ok a, \<lparr>nodes = [([], Dir)], faults = []\<rparr>, True)
     \<and> ap_sfu a = demo_rm \<and> ap_rathole a = registry_new bool_host [''r.toml''] \<and> ap_ports a = port_allocator_new
     \<and> ap_routes a = [] \<and> ap_subdomains a = []"
proof -
  have li: "listen_from_env Some (\<lambda>_. None) = Ok demo_listen"
    by (simp add: listen_from_env_def env_ip_def env_u16_def res_bind_def demo_listen_def default_rtc_min_port_def
        default_rtc_max_port_def default_plain_rtp_min_port_def default_plain_rtp_max_port_def)
  have rm: "rm_new demo_engine 1 demo_listen True = (Ok demo_rm, True)"
    by (simp add: rm_new_def rbind_def io_ctx_def demo_engine_def demo_rm_def)
  have sub: "load_subdomains [''q''] demo_fs = ([], \<lparr>nodes = [([], Dir)], faults = []\<rparr>)"
    by (simp add: load_subdomains_def sub_ensure_dir_def sub_load_all_def load_dir_def demo_fs_def fs_defs)
  show ?thesis
    by (simp add: app_initialize_def demo_world_def demo_cfg_def caddy_bootstrap_def li rm [simplified]
        sub path_of_def)
qed

lemma demo_create:
  assumes "ap_sfu a = demo_rm" "ap_rathole a = registry_new bool_host [''r.toml'']" "ap_ports a = port_allocator_new"
    "ap_routes a = []" "ap_subdomains a = []"
  shows "\<exists>resp st. create demo_edge demo_req (a, \<lparr>nodes = [([], Dir)], faults = []\<rparr>, True) = (Reply (Ok resp), st)
    \<and> dm_get (sr_services (ap_rathole (fst st))) ''s'' = Some (service_of demo_req 11000)"
proof -
  let ?s = "\<lparr>nodes = [([], Dir)], faults = []\<rparr>" let ?svc = "service_of demo_req 11000"
  obtain free where ports: "port_allocator_new = 11000 # free" using port_allocator_new_Cons by blast
  obtain s1 where 1: "registry_register demo_enc bool_host ?svc (ap_rathole a, ?s, True)
      = (Ok (), (ap_rathole a)\<lparr>sr_services := [(''s'', ?svc)]\<rparr>, s1, True)"
    by (simp add: assms(2) registry_new_def registry_register_def persist_and_reload_def render_toml_def demo_enc_def
        config_atomic_write_def path_parent_def file_name_def write_tmp_and_rename_def then_io_def
        remove_if_exists_def fs_defs tmp_path_def trigger_reload_def bool_host_def service_of_def demo_req_def btree_def
        service_entry_of_def)
  have 2: "add_route (app_caddy ok_http demo_cfg) (route_of demo_req 11000) ([], True)
      = (Ok (), [(''a.b'', route_of demo_req 11000)], True)"
    by (simp add: add_route_def Let_def put_with_dedup_retry_def rbind_def request_def app_caddy_def with_upstreams_def
        ok_http_def answer_def settled_def is_success_def remember_def verify_route_present_def ok_resp_def
        route_of_def demo_req_def)
  obtain pr m where 3: "provision_session demo_engine ''s'' (demo_rm, True) = (Ok pr, m, True)"
    using demo_provision by blast
  have sid: "req_session_id demo_req = ''s''" by (simp add: demo_req_def)
  have "\<exists>resp st. create demo_edge demo_req (a, ?s, True) = (Reply (Ok resp), st)
      \<and> ap_rathole (fst st) = (ap_rathole a)\<lparr>sr_services := [(''s'', ?svc)]\<rparr>"
    using 1 2 3 by (simp add: create_def demo_edge_def assms ports with_defs sid split: prod.split)
  then show ?thesis by auto
qed

lemma lifetime_create_limit_witness:
  "\<exists>a s w st. app_initialize demo_world demo_cfg (demo_fs, True) = (Ok a, s, w)
     \<and> edge_run demo_edge (a, s, w) 1 st \<and> (1 :: nat) \<le> 1000"
proof -
  obtain a where i: "app_initialize demo_world demo_cfg (demo_fs, True) = (Ok a, \<lparr>nodes = [([], Dir)], faults = []\<rparr>, True)"
    and a: "ap_sfu a = demo_rm" "ap_rathole a = registry_new bool_host [''r.toml'']" "ap_ports a = port_allocator_new"
      "ap_routes a = []" "ap_subdomains a = []" using demo_init by blast
  obtain resp st where c: "create demo_edge demo_req (a, \<lparr>nodes = [([], Dir)], faults = []\<rparr>, True) = (Reply (Ok resp), st)"
    using demo_create [OF a] by blast
  have r: "edge_run demo_edge (a, \<lparr>nodes = [([], Dir)], faults = []\<rparr>, True) 1 st"
    using edge_run.created [OF edge_run.start c] by simp
  from lifetime_create_limit [OF i r] i r show ?thesis by blast
qed

lemma tunnel_ports_exclusive_witness:
  "\<exists>(a :: app_state) svc. dm_get (sr_services (ap_rathole a)) ''s'' = Some svc
     \<and> (\<forall>p ports. allocate (ap_ports a) = (Ok p, ports) \<longrightarrow> rs_bind_addr svc \<noteq> bind_addr p)"
proof -
  obtain a where i: "app_initialize demo_world demo_cfg (demo_fs, True) = (Ok a, \<lparr>nodes = [([], Dir)], faults = []\<rparr>, True)"
    and a: "ap_sfu a = demo_rm" "ap_rathole a = registry_new bool_host [''r.toml'']" "ap_ports a = port_allocator_new"
      "ap_routes a = []" "ap_subdomains a = []" using demo_init by blast
  obtain resp a1 s1 w1 where c: "create demo_edge demo_req (a, \<lparr>nodes = [([], Dir)], faults = []\<rparr>, True)
      = (Reply (Ok resp), a1, s1, w1)" "dm_get (sr_services (ap_rathole a1)) ''s'' = Some (service_of demo_req 11000)"
    using demo_create [OF a] by (metis fst_conv prod_cases3)
  have r: "edge_run demo_edge (a, \<lparr>nodes = [([], Dir)], faults = []\<rparr>, True) 1 (a1, s1, w1)"
    using edge_run.created [OF edge_run.start c(1)] by simp
  from tunnel_ports_exclusive [OF i r c(2)] c(2) show ?thesis by blast
qed


lemma deprovision_forgets_witness:
  "\<exists>a s w a' s' w'. deprovision demo_edge ''s'' (a, s, w) = (204, a', s', w') \<and> ap_ports a' = ap_ports a"
proof -
  obtain a :: app_state and s :: fs where True by blast
  obtain code a' s' w' where d: "deprovision demo_edge ''s'' (a, s, True) = (code, a', s', w')" by (metis prod_cases4)
  from deprovision_forgets [OF d] d show ?thesis by blast
qed

section \<open>A route that cannot be deleted any more\<close>

lemma routes_of_calls:
  "with_store f st = (r, st') \<Longrightarrow> ap_routes (fst st') = ap_routes (fst st) \<and> ap_subdomains (fst st') = ap_subdomains (fst st)"
  "with_rathole g st = (r1, st') \<Longrightarrow> ap_routes (fst st') = ap_routes (fst st) \<and> ap_subdomains (fst st') = ap_subdomains (fst st)"
  "with_sfu k st = (r2, st') \<Longrightarrow> ap_routes (fst st') = ap_routes (fst st) \<and> ap_subdomains (fst st') = ap_subdomains (fst st)"
  by (cases st; auto simp: with_defs split: prod.splits)+

lemma ap_routes_same: "a\<lparr>ap_subdomains := x, ap_routes := ap_routes a\<rparr> = a\<lparr>ap_subdomains := x\<rparr>"
  by (cases a) simp

lemma deprovision_routes:
  assumes "deprovision h sid (a, s, w) = (code, a', s', w')"
  shows "ap_routes a' = (case dm_get (ap_subdomains a) sid of
      None \<Rightarrow> ap_routes a
    | Some host \<Rightarrow> fst (snd (remove_route (eh_caddy h) host (ap_routes a, w))))"
proof -
  obtain r1 s1 where 1: "sub_remove (eh_store h) sid s = (r1, s1)" by force
  obtain r2 c w2 where 2: "(case dm_get (ap_subdomains a) sid of
      Some host \<Rightarrow> remove_route (eh_caddy h) host (ap_routes a, w) | None \<Rightarrow> (Ok (), ap_routes a, w)) = (r2, c, w2)"
    by (metis prod_cases3)
  let ?st2 = "(a\<lparr>ap_subdomains := dm_remove sid (ap_subdomains a), ap_routes := c\<rparr>, s1, w2)"
  obtain r3 st3 where 3: "with_rathole (registry_deregister (eh_toml h) (eh_rathole h) sid) ?st2 = (r3, st3)"
    by (metis surj_pair)
  obtain r4 st4 where 4: "with_rathole (registry_deregister (eh_toml h) (eh_rathole h) (sid @ ''-rtp'')) st3 = (r4, st4)"
    by (metis surj_pair)
  obtain r5 st5 where 5: "with_sfu (\<lambda>x. ((), close_session (eh_engine h) sid x)) st4 = (r5, st5)" by (metis surj_pair)
  have "(a', s', w') = st5"
    using assms 1 2 3 4 5
    by (cases "dm_get (ap_subdomains a) sid")
      (auto simp: deprovision_def Let_def with_store_def with_caddy_def ap_routes_same)
  then have "ap_routes a' = c"
    using routes_of_calls(2) [OF 3] routes_of_calls(2) [OF 4] routes_of_calls(3) [OF 5] by auto
  with 2 show ?thesis by (auto split: option.splits)
qed

text \<open>C29 A deletion that fails to reach Caddy cannot be repeated: it answers 204 and forgets the host, so
  the route stays listed, and no later deletion of the same session touches the routes again.\<close>

theorem failed_delete_keeps_route:
  assumes "dm_get (ap_subdomains a) sid = Some host"
    and "remove_route (eh_caddy h) host (ap_routes a, w) = (Err e, c, w1)"
    and "deprovision h sid (a, s, w) = (code, a1, s1, w2)"
    and "deprovision h sid (a1, s2, w3) = (code', a2, s3, w4)"
  shows "code = 204 \<and> code' = 204 \<and> ap_routes a2 = ap_routes a"
proof -
  have "c = ap_routes a" using remove_route_cache [OF assms(2)] by simp
  then have "ap_routes a1 = ap_routes a" using deprovision_routes [OF assms(3)] assms(1,2) by simp
  moreover have "dm_get (ap_subdomains a1) sid = None" "code = 204" "code' = 204"
    using deprovision_forget [OF assms(3)] deprovision_forget [OF assms(4)] by simp_all
  ultimately show ?thesis using deprovision_routes [OF assms(4)] by simp
qed

definition down_http :: "bool caddy_http" where
  "down_http = ok_http\<lparr>h_delete := (\<lambda>_ w. (Err ''refused'', w))\<rparr>"

lemma failed_delete_keeps_route_witness:
  "\<exists>(a :: app_state) code a1 s1 w1 code' a2 s2 w2. ap_routes a = [(''a.b'', route_of demo_req 11000)]
     \<and> deprovision (demo_edge\<lparr>eh_caddy := app_caddy down_http demo_cfg\<rparr>) ''s'' (a, demo_fs, True) = (code, a1, s1, w1)
     \<and> deprovision (demo_edge\<lparr>eh_caddy := app_caddy down_http demo_cfg\<rparr>) ''s'' (a1, s1, w1) = (code', a2, s2, w2)
     \<and> ap_routes a2 = [(''a.b'', route_of demo_req 11000)]"
proof -
  let ?h = "demo_edge\<lparr>eh_caddy := app_caddy down_http demo_cfg\<rparr>"
  let ?a = "(undefined :: app_state)\<lparr>ap_routes := [(''a.b'', route_of demo_req 11000)], ap_subdomains := [(''s'', ''a.b'')]\<rparr>"
  have r: "\<exists>e c w1. remove_route (eh_caddy ?h) ''a.b'' (ap_routes ?a, True) = (Err e, c, w1)"
    by (auto simp: remove_route_def rbind_def request_def app_caddy_def with_upstreams_def down_http_def)
  then obtain e c w1 where r: "remove_route (eh_caddy ?h) ''a.b'' (ap_routes ?a, True) = (Err e, c, w1)" by blast
  obtain code a1 s1 w1 where d1: "deprovision ?h ''s'' (?a, demo_fs, True) = (code, a1, s1, w1)" by (metis prod_cases4)
  obtain code' a2 s2 w2 where d2: "deprovision ?h ''s'' (a1, s1, w1) = (code', a2, s2, w2)" by (metis prod_cases4)
  have "ap_routes a2 = [(''a.b'', route_of demo_req 11000)]"
    using failed_delete_keeps_route [OF _ r d1 d2] by simp
  with d1 d2 show ?thesis by (intro exI [of _ ?a]) auto
qed

section \<open>What the snapshot shows\<close>

lemma to_dec_no_colon: "CHR '':'' \<notin> set (to_dec n)"
  using to_dec_digits [of "CHR '':''" n] by (auto simp: is_digit_def less_eq_char_def)

text \<open>The snapshot reads the port back from the route: it is the one the session was created with.\<close>

lemma snapshot_port_roundtrip: "re_upstream_port (route_entry_of (route_of req p)) = p"
proof -
  have "split_on CHR '':'' (''127.0.0.1:'' @ to_dec (unat p)) = [''127.0.0.1'', to_dec (unat p)]"
    using split_on_append [of "CHR '':''" "''127.0.0.1''" "to_dec (unat p)"] split_on_notin [OF to_dec_no_colon]
    by simp
  moreover have "unat p < 2 ^ LENGTH(16)" by (rule unsigned_less)
  then have "unat p \<le> 65535" by simp
  then have "parse_u16 (to_dec (unat p)) = Some p" by (simp add: parse_u16_def parse_uint_to_dec)
  ultimately show ?thesis by (simp add: route_entry_of_def route_of_def)
qed

end
