(* ===== verification/TunnelRoundtrip.thy ===== *)
theory TunnelRoundtrip
  imports TunnelLife
begin

text \<open>
  A session from its creation to its deletion: what the edge keeps in memory is afterwards what it was
  before, whatever happened to the session in between, but for the port. With the plan of the
  repository's smoke test (\<open>tests/it_smoke.rs\<close>: create, delete, ask for the health).
\<close>

section \<open>Nothing but one session\<close>

text \<open>The two states differ at most in what they hold for the session itself: its service, its SFU session.\<close>

definition apart_from :: "session_id \<Rightarrow> app_state \<Rightarrow> app_state \<Rightarrow> bool" where
  "apart_from sid a b \<longleftrightarrow>
     ap_ports b = ap_ports a \<and> ap_routes b = ap_routes a \<and> ap_subdomains b = ap_subdomains a
     \<and> dm_remove sid (sr_services (ap_rathole b)) = dm_remove sid (sr_services (ap_rathole a))
     \<and> dm_remove sid (rm_sessions (ap_sfu b)) = dm_remove sid (rm_sessions (ap_sfu a))"

lemma apart_from_refl [simp]: "apart_from sid a a"
  by (simp add: apart_from_def)

lemma apart_from_trans: "apart_from sid a b \<Longrightarrow> apart_from sid b c \<Longrightarrow> apart_from sid a c"
  by (simp add: apart_from_def)

lemma dm_remove_insert [simp]: "dm_remove k (dm_insert k v m) = dm_remove k m"
  by (rule delete_update_same)

lemma dm_remove_fresh: "dm_get m k = None \<Longrightarrow> dm_remove k m = m"
  by (simp add: map_of_eq_None_iff)

lemma put_session_apart [simp]:
  "dm_remove sid (rm_sessions (put_session sid s rm)) = dm_remove sid (rm_sessions rm)"
  by (simp add: put_session_def)

text \<open>A new token, and the viewers of the session that come over HTTP and go, touch nothing else.\<close>

lemma update_token_apart:
  assumes "update_token h sid tok (a, s, w) = (code, b, s', w')"
  shows "apart_from sid a b"
proof -
  obtain r g s1 w1 where u: "registry_update_token (eh_toml h) (eh_rathole h) sid tok (ap_rathole a, s, w) = (r, g, s1, w1)"
    by (metis prod_cases4)
  have "b = a\<lparr>ap_rathole := g\<rparr>"
    using assms u by (auto simp: update_token_def with_defs split: result.splits bool.splits)
  with update_token_memory [OF u] show ?thesis by (auto simp: apart_from_def split: option.splits)
qed

lemma create_router_apart:
  assumes "create_router h sid viewer_id (a, s, w) = (r, b, s', w')"
  shows "apart_from sid a b"
  using assms
  by (auto simp: create_router_def with_defs create_consumer_transports_def apart_from_def Let_def
      split: prod.splits option.splits result.splits if_splits)

lemma remove_viewer_apart:
  assumes "remove_viewer_handler h sid viewer_id (a, s, w) = (code, b, s', w')"
  shows "apart_from sid a b"
  using assms
  by (auto simp: remove_viewer_handler_def with_defs remove_viewer_def apart_from_def
      split: prod.splits option.splits)

section \<open>Creation and deletion\<close>

lemma provision_fresh_sessions:
  assumes "provision_session eng sid (rm, w) = (Ok p, rm', w')" and "dm_get (rm_sessions rm) sid = None"
  shows "dm_remove sid (rm_sessions rm') = rm_sessions rm"
  using assms
  by (auto simp: provision_session_def pick_worker_index_def commit_session_def dm_remove_fresh
      split: prod.splits result.splits)

lemma close_session_sessions: "rm_sessions (fst (close_session eng sid (rm, w))) = dm_remove sid (rm_sessions rm)"
  by (auto simp: close_session_def dm_remove_fresh split: option.splits)

text \<open>What a deletion leaves in memory.\<close>

lemma deprovision_parts:
  assumes "deprovision h sid (a, s, w) = (code, a', s', w')"
  shows "code = 204 \<and> ap_ports a' = ap_ports a
    \<and> sr_services (ap_rathole a') = dm_remove (sid @ ''-rtp'') (dm_remove sid (sr_services (ap_rathole a)))
    \<and> rm_sessions (ap_sfu a') = dm_remove sid (rm_sessions (ap_sfu a))
    \<and> ap_subdomains a' = dm_remove sid (ap_subdomains a)"
proof -
  obtain ports m where c: "core (a, s, w) = (ports, m)" by force
  have "rm_sessions (ap_sfu a') = dm_remove sid (rm_sessions (ap_sfu a)) \<and> ap_subdomains a' = dm_remove sid (ap_subdomains a)"
    using assms
    by (auto simp: deprovision_def Let_def with_store_def with_caddy_def with_rathole_def with_sfu_def
        split: prod.splits option.splits dest!: arg_cong [where f = fst]) (metis close_session_sessions fst_conv)+
  with deprovision_core [OF assms c] deprovision_forget [OF assms] c show ?thesis by (auto simp: core_def)
qed

text \<open>The names of a session are new to the edge.\<close>

definition new_to :: "create_session_req \<Rightarrow> app_state \<Rightarrow> bool" where
  "new_to req a \<longleftrightarrow>
     (let sid = req_session_id req in
      dm_get (sr_services (ap_rathole a)) sid = None \<and> dm_get (sr_services (ap_rathole a)) (sid @ ''-rtp'') = None
      \<and> dm_get (rm_sessions (ap_sfu a)) sid = None \<and> dm_get (ap_subdomains a) sid = None
      \<and> dm_get (ap_routes a) (req_subdomain req) = None)"

text \<open>C5 A deletion undoes a creation, whatever happened to the session in between (new tokens, viewers): the
  tunnels, the SFU sessions and the hosts are exactly what they were before, and so are the routes
  unless the deletion could not reach Caddy; only the port of the session does not come back.\<close>

theorem create_delete_roundtrip:
  assumes "create h req (a, s, w) = (Reply (Ok resp), a1, s1, w1)" and "new_to req a"
    and "apart_from (req_session_id req) a1 b"
    and "deprovision h (req_session_id req) (b, s2, w2) = (code, a2, s3, w3)"
  shows "code = 204
    \<and> sr_services (ap_rathole a2) = sr_services (ap_rathole a)
    \<and> rm_sessions (ap_sfu a2) = rm_sessions (ap_sfu a)
    \<and> ap_subdomains a2 = ap_subdomains a
    \<and> ap_routes a2 = (if is_ok (fst (remove_route (eh_caddy h) (req_subdomain req) (ap_routes b, w2)))
                       then ap_routes a else ap_routes a1)
    \<and> ap_ports a = resp_local_upstream_port resp # ap_ports a2"
proof -
  let ?sid = "req_session_id req" and ?host = "req_subdomain req"
  note new = assms(2) [unfolded new_to_def Let_def]
  note made = create_Ok_parts [OF assms(1)] and gone = deprovision_parts [OF assms(4)]
  have apart: "ap_ports b = ap_ports a1" "ap_routes b = ap_routes a1" "ap_subdomains b = ap_subdomains a1"
    "dm_remove ?sid (sr_services (ap_rathole b)) = dm_remove ?sid (sr_services (ap_rathole a1))"
    "dm_remove ?sid (rm_sessions (ap_sfu b)) = dm_remove ?sid (rm_sessions (ap_sfu a1))"
    using assms(3) by (simp_all add: apart_from_def)
  have "sr_services (ap_rathole a2) = sr_services (ap_rathole a)"
    using made gone apart new by (simp add: dm_remove_fresh)
  moreover have "rm_sessions (ap_sfu a2) = rm_sessions (ap_sfu a)"
    using made gone apart new provision_fresh_sessions by metis
  moreover have "ap_subdomains a2 = ap_subdomains a"
    using made gone apart new by (simp add: dm_remove_fresh)
  moreover have "ap_routes a2 = (if is_ok (fst (remove_route (eh_caddy h) ?host (ap_routes b, w2)))
      then ap_routes a else ap_routes a1)"
  proof -
    obtain r c w' where r: "remove_route (eh_caddy h) ?host (ap_routes b, w2) = (r, c, w')" by (metis prod_cases3)
    have "dm_get (ap_subdomains b) ?sid = Some ?host" using made apart by simp
    then have "ap_routes a2 = c" using deprovision_routes [OF assms(4)] r by simp
    with remove_route_cache [OF r] r made apart new show ?thesis by (simp add: dm_remove_fresh)
  qed
  ultimately show ?thesis using made gone apart by simp
qed

lemma create_delete_roundtrip_witness:
  "\<exists>(a :: app_state) (a1 :: app_state) (a2 :: app_state). dm_get (sr_services (ap_rathole a1)) ''s'' = Some (service_of demo_req 11000)
     \<and> dm_get (ap_subdomains a1) ''s'' = Some ''a.b'' \<and> dm_get (rm_sessions (ap_sfu a1)) ''s'' \<noteq> None
     \<and> sr_services (ap_rathole a2) = [] \<and> ap_subdomains a2 = [] \<and> rm_sessions (ap_sfu a2) = []
     \<and> ap_ports a = 11000 # ap_ports a2"
proof -
  let ?s = "\<lparr>nodes = [([], Dir)], faults = []\<rparr>"
  obtain a :: app_state where a: "ap_sfu a = demo_rm" "ap_rathole a = registry_new bool_host [''r.toml'']"
      "ap_ports a = port_allocator_new" "ap_routes a = []" "ap_subdomains a = []" using demo_init by blast
  obtain resp a1 s1 w1 where c: "create demo_edge demo_req (a, ?s, True) = (Reply (Ok resp), a1, s1, w1)"
    and svc: "dm_get (sr_services (ap_rathole a1)) ''s'' = Some (service_of demo_req 11000)"
    using demo_create [OF a] by fastforce
  have sid: "req_session_id demo_req = ''s''" "req_subdomain demo_req = ''a.b''" by (simp_all add: demo_req_def)
  have new: "new_to demo_req a" by (simp add: new_to_def a registry_new_def demo_rm_def)
  obtain code b s2 w2 where t: "update_token demo_edge ''s'' ''t2'' (a1, s1, w1) = (code, b, s2, w2)" by (metis prod_cases4)
  have ap: "apart_from (req_session_id demo_req) a1 b" using update_token_apart [OF t] by (simp add: sid)
  obtain code' a2 s3 w3 where d: "deprovision demo_edge (req_session_id demo_req) (b, s2, w2) = (code', a2, s3, w3)"
    by (metis prod_cases4)
  note end_state = create_delete_roundtrip [OF c new ap d]
  have "ap_ports a = resp_local_upstream_port resp # ap_ports a2" using end_state by blast
  moreover obtain free where "port_allocator_new = 11000 # free" using port_allocator_new_Cons by blast
  ultimately have "ap_ports a = 11000 # ap_ports a2" using a(3) by (metis list.inject)
  moreover have "dm_get (ap_subdomains a1) ''s'' = Some ''a.b''" "dm_get (rm_sessions (ap_sfu a1)) ''s'' \<noteq> None"
    using create_Ok_parts [OF c] provision_Ok_session unfolding sid by auto
  moreover have "sr_services (ap_rathole a2) = [] \<and> ap_subdomains a2 = [] \<and> rm_sessions (ap_sfu a2) = []"
    using end_state by (simp add: a registry_new_def demo_rm_def)
  ultimately show ?thesis using svc by blast
qed

text \<open>The smoke test the repository plans: after a creation and a deletion the health and the snapshot show
  what they showed before.\<close>

lemma smoke_test:
  assumes "create h req (a, s, w) = (Reply (Ok resp), a1, s1, w1)" and "new_to req a"
    and "deprovision h (req_session_id req) (a1, s1, w1) = (code, a2, s2, w2)"
  shows "hr_active_sessions (healthz h (a2, s2, w2)) = hr_active_sessions (healthz h (a, s, w))
    \<and> ss_routers (snapshot h (a2, s2, w2)) = ss_routers (snapshot h (a, s, w))"
proof -
  have "rm_sessions (ap_sfu a2) = rm_sessions (ap_sfu a)"
    using create_Ok_parts [OF assms(1)] deprovision_parts [OF assms(3)] assms(2) provision_fresh_sessions
    unfolding new_to_def Let_def by metis
  then show ?thesis by (simp add: healthz_def snapshot_def list_active_sessions_def)
qed

end
