(* ===== verification/EdgeConcurrent.thy ===== *)
theory EdgeConcurrent
  imports TunnelLife
begin

text \<open>
  The tunnel handlers as the runtime runs them: many requests in flight, each suspended at an
  \<open>await\<close>, their steps interleaved. A step is what a handler does between two awaits on the state
  that the requests share: the registry is changed first and written under its lock in a step of
  its own, so another request can run in between. The calls to Caddy and to mediasoup are one
  step each. The theory shows that every handler run alone is the function of \<open>EdgeRoutes\<close>, what
  stays true under every interleaving, and what does not.
\<close>

section \<open>One creation\<close>

datatype create_pc =
    CStart
  | CInsert u16
  | CPersist u16
  | CRoute u16
  | CProvision u16
  | CUnroute u16
  | CUndo u16
  | CUndoPersist u16
  | CRelease u16
  | CMap u16 provisioned_router
  | CSave u16 provisioned_router
  | CDone "create_session_resp reply"

definition registry_write :: "'w edge_host \<Rightarrow> 'w edge_state \<Rightarrow> unit edge_result \<times> 'w edge_state" where
  "registry_write h =
     with_rathole (\<lambda>(r, sw). case persist_and_reload (eh_toml h) (eh_rathole h) r sw of (res, sw) \<Rightarrow> (res, r, sw))"

definition registry_memory :: "reg_op \<Rightarrow> 'w edge_state \<Rightarrow> 'w edge_state" where
  "registry_memory op = (\<lambda>(a, s, w). (a\<lparr>ap_rathole := reg_services op (ap_rathole a)\<rparr>, s, w))"

fun create_step ::
  "'w edge_host \<Rightarrow> create_session_req \<Rightarrow> create_pc \<times> 'w edge_state \<Rightarrow> create_pc \<times> 'w edge_state" where
  "create_step h req (CStart, a, s, w) =
     (case allocate (ap_ports a) of
        (Err _, ports) \<Rightarrow> (CDone (Reply (Err 503)), a\<lparr>ap_ports := ports\<rparr>, s, w)
      | (Ok p, ports) \<Rightarrow> (CInsert p, a\<lparr>ap_ports := ports\<rparr>, s, w))"
| "create_step h req (CInsert p, st) = (CPersist p, registry_memory (Register (service_of req p)) st)"
| "create_step h req (CPersist p, st) =
     (case registry_write h st of
        (Err _, st) \<Rightarrow> (CDone (Reply (Err 500)), st)
      | (Ok _, st) \<Rightarrow> (CRoute p, st))"
| "create_step h req (CRoute p, st) =
     (case with_caddy (add_route (eh_caddy h) (route_of req p)) st of
        (Err _, st) \<Rightarrow> (CDone (Reply (Err 500)), st)
      | (Ok _, st) \<Rightarrow> (CProvision p, st))"
| "create_step h req (CProvision p, st) =
     (case with_sfu (provision_session (eh_engine h) (req_session_id req)) st of
        (Err (Panic m), st) \<Rightarrow> (CDone (Abort m), st)
      | (Err (Fail _), st) \<Rightarrow> (CUnroute p, st)
      | (Ok pr, st) \<Rightarrow> (CMap p pr, st))"
| "create_step h req (CUnroute p, st) = (CUndo p, snd (with_caddy (remove_route (eh_caddy h) (req_subdomain req)) st))"
| "create_step h req (CUndo p, st) = (CUndoPersist p, registry_memory (Deregister (req_session_id req)) st)"
| "create_step h req (CUndoPersist p, st) = (CRelease p, snd (registry_write h st))"
| "create_step h req (CRelease p, a, s, w) =
     (CDone (Reply (Err 500)), a\<lparr>ap_ports := release_port p (ap_ports a)\<rparr>, s, w)"
| "create_step h req (CMap p pr, a, s, w) =
     (CSave p pr, a\<lparr>ap_subdomains := dm_insert (req_session_id req) (req_subdomain req) (ap_subdomains a)\<rparr>, s, w)"
| "create_step h req (CSave p pr, a, s, w) =
     (CDone (Reply (Ok (create_resp h p pr (media_lan_host (ap_sfu a))))),
      snd (with_store (sub_save (eh_store h) (req_session_id req) (req_subdomain req)) (a, s, w)))"
| "create_step h req (CDone r, st) = (CDone r, st)"

section \<open>One deletion\<close>

text \<open>
  The futures that \<open>tokio::join!\<close> polls, as lists of the steps they still have to do; the join may
  run any of them that is not finished.
\<close>

datatype delete_task = JRoute string | JForget session_id | JPersist | JClose session_id

datatype delete_pc = DStart | DUnlink "string option" | DJoin "delete_task list list" | DDone nat

fun delete_task_run :: "'w edge_host \<Rightarrow> delete_task \<Rightarrow> 'w edge_state \<Rightarrow> 'w edge_state" where
  "delete_task_run h (JRoute host) st = snd (with_caddy (remove_route (eh_caddy h) host) st)"
| "delete_task_run h (JForget k) st = registry_memory (Deregister k) st"
| "delete_task_run h JPersist st = snd (registry_write h st)"
| "delete_task_run h (JClose sid) st = snd (with_sfu (\<lambda>x. ((), close_session (eh_engine h) sid x)) st)"

definition join_of :: "session_id \<Rightarrow> string option \<Rightarrow> delete_task list list" where
  "join_of sid subdomain =
     [case subdomain of Some host \<Rightarrow> [JRoute host] | None \<Rightarrow> [],
      [JForget sid, JPersist], [JForget (sid @ ''-rtp''), JPersist], [JClose sid]]"

fun delete_step ::
  "'w edge_host \<Rightarrow> session_id \<Rightarrow> nat \<Rightarrow> delete_pc \<times> 'w edge_state \<Rightarrow> delete_pc \<times> 'w edge_state" where
  "delete_step h sid i (DStart, a, s, w) =
     (DUnlink (dm_get (ap_subdomains a) sid), a\<lparr>ap_subdomains := dm_remove sid (ap_subdomains a)\<rparr>, s, w)"
| "delete_step h sid i (DUnlink subdomain, st) =
     (DJoin (join_of sid subdomain), snd (with_store (sub_remove (eh_store h) sid) st))"
| "delete_step h sid i (DJoin ts, st) =
     (if list_all (\<lambda>t. t = []) ts then (DDone 204, st)
      else if i < length ts then
        (case ts ! i of
           [] \<Rightarrow> (DJoin ts, st)
         | t # rest \<Rightarrow> (DJoin (ts[i := rest]), delete_task_run h t st))
      else (DJoin ts, st))"
| "delete_step h sid i (DDone code, st) = (DDone code, st)"

section \<open>One rotation\<close>

datatype token_pc = KStart | KPersist | KDone nat

fun token_step ::
  "'w edge_host \<Rightarrow> session_id \<Rightarrow> string \<Rightarrow> token_pc \<times> 'w edge_state \<Rightarrow> token_pc \<times> 'w edge_state" where
  "token_step h sid tok (KStart, st) =
     (if dm_get (sr_services (ap_rathole (fst st))) sid = None then (KDone 404, st)
      else (KPersist, registry_memory (UpdateToken sid tok) st))"
| "token_step h sid tok (KPersist, st) =
     (case registry_write h st of (Ok _, st) \<Rightarrow> (KDone 204, st) | (Err _, st) \<Rightarrow> (KDone 500, st))"
| "token_step h sid tok (KDone code, st) = (KDone code, st)"

section \<open>The requests in flight\<close>

datatype flight =
    FCreate create_session_req create_pc
  | FDelete session_id delete_pc
  | FToken session_id string token_pc

fun flight_step :: "'w edge_host \<Rightarrow> nat \<Rightarrow> flight \<Rightarrow> 'w edge_state \<Rightarrow> flight \<times> 'w edge_state" where
  "flight_step h i (FCreate req pc) st = (case create_step h req (pc, st) of (pc, st) \<Rightarrow> (FCreate req pc, st))"
| "flight_step h i (FDelete sid pc) st = (case delete_step h sid i (pc, st) of (pc, st) \<Rightarrow> (FDelete sid pc, st))"
| "flight_step h i (FToken sid tok pc) st = (case token_step h sid tok (pc, st) of (pc, st) \<Rightarrow> (FToken sid tok pc, st))"

fun arriving :: "flight \<Rightarrow> bool" where
  "arriving (FCreate req pc) \<longleftrightarrow> pc = CStart"
| "arriving (FDelete sid pc) \<longleftrightarrow> pc = DStart"
| "arriving (FToken sid tok pc) \<longleftrightarrow> pc = KStart"

fun aborted :: "flight \<Rightarrow> bool" where
  "aborted (FCreate req (CDone (Abort m))) \<longleftrightarrow> True"
| "aborted _ \<longleftrightarrow> False"

type_synonym 'w conc_state = "flight list \<times> 'w edge_state"

text \<open>
  A request arrives, a request runs to its next await, or another task (a viewer, a monitor, the
  snapshot reporter, the world) changes the SFU, the disk or the world. A panic ends the process.
\<close>

inductive conc_step :: "'w edge_host \<Rightarrow> 'w conc_state \<Rightarrow> 'w conc_state \<Rightarrow> bool" for h where
  arrive: "\<not> list_ex aborted fls \<Longrightarrow> arriving fl \<Longrightarrow> conc_step h (fls, st) (fls @ [fl], st)"
| run: "\<not> list_ex aborted fls \<Longrightarrow> i < length fls \<Longrightarrow> flight_step h j (fls ! i) st = (fl, st') \<Longrightarrow>
     conc_step h (fls, st) (fls[i := fl], st')"
| others: "\<not> list_ex aborted fls \<Longrightarrow> conc_step h (fls, a, s, w) (fls, a\<lparr>ap_sfu := m\<rparr>, s', w')"

inductive_cases conc_stepE: "conc_step h c c'"

section \<open>A handler run alone\<close>

lemma registry_write_memory:
  "registry_write h (registry_memory (Register svc) st) = with_rathole (registry_register (eh_toml h) (eh_rathole h) svc) st"
  "registry_write h (registry_memory (Deregister k) st) = with_rathole (registry_deregister (eh_toml h) (eh_rathole h) k) st"
  by (cases st; auto simp: registry_write_def registry_memory_def with_rathole_def registry_register_def
      registry_deregister_def reg_services_def Let_def split: prod.splits)+

lemma update_token_steps:
  "with_rathole (registry_update_token (eh_toml h) (eh_rathole h) sid tok) st =
     (if dm_get (sr_services (ap_rathole (fst st))) sid = None then (Ok False, st)
      else case registry_write h (registry_memory (UpdateToken sid tok) st) of (r, st) \<Rightarrow>
        (case r of Ok _ \<Rightarrow> Ok True | Err e \<Rightarrow> Err e, st))"
  by (cases st) (auto simp: registry_write_def registry_memory_def with_rathole_def registry_update_token_def
      reg_services_def Let_def split: prod.splits option.splits result.splits)

lemma funpow_front: "(f ^^ Suc n) x = (f ^^ n) (f x)"
  by (simp add: funpow_swap1)

lemma create_done [simp]: "(create_step h req ^^ n) (CDone r, st) = (CDone r, st)"
  by (induction n) simp_all

lemma token_done [simp]: "(token_step h sid tok ^^ n) (KDone r, st) = (KDone r, st)"
  by (induction n) simp_all

text \<open>The join run in the order in which the futures are written.\<close>

definition join_order :: "nat list" where
  "join_order = [0, 0, 0, 1, 1, 2, 2, 3, 0]"

lemma delete_done [simp]: "fold (delete_step h sid) is (DDone code, st) = (DDone code, st)"
  by (induction "is") simp_all

lemma handlers_alone:
  "(create_step h req ^^ 9) (CStart, st) = (case create h req st of (r, st') \<Rightarrow> (CDone r, st'))"
  "(token_step h sid tok ^^ 2) (KStart, st) = (case update_token h sid tok st of (code, st') \<Rightarrow> (KDone code, st'))"
  "fold (delete_step h sid) join_order (DStart, st) = (case deprovision h sid st of (code, st') \<Rightarrow> (DDone code, st'))"
proof -
  obtain a s w where st: "st = (a, s, w)" by (metis prod_cases3)
  note front = numeral_eq_Suc pred_numeral_simps funpow_front
  show "(create_step h req ^^ 9) (CStart, st) = (case create h req st of (r, st') \<Rightarrow> (CDone r, st'))"
    by (simp add: st create_def create_rollback_def Let_def front registry_write_memory del: funpow.simps
        split: prod.split result.split rm_error.split)
  show "(token_step h sid tok ^^ 2) (KStart, st) = (case update_token h sid tok st of (code, st') \<Rightarrow> (KDone code, st'))"
    by (simp add: update_token_def update_token_steps front del: funpow.simps split: prod.split result.split)
  show "fold (delete_step h sid) join_order (DStart, st) = (case deprovision h sid st of (code, st') \<Rightarrow> (DDone code, st'))"
    by (cases "dm_get (ap_subdomains a) sid")
      (simp_all add: st deprovision_def Let_def join_order_def join_of_def registry_write_memory)
qed


text \<open>The steps of one creation beside a deletion, as a run of the edge.\<close>

lemma create_steps_alive:
  "\<not> aborted (FCreate req (fst ((create_step h req ^^ Suc n) x))) \<Longrightarrow> \<not> aborted (FCreate req (fst ((create_step h req ^^ n) x)))"
  by (cases "(create_step h req ^^ n) x") (auto elim!: aborted.elims)

lemma create_run:
  "(create_step h req ^^ n) (pc, st) = (pc', st') \<Longrightarrow> \<not> aborted (FCreate req pc') \<Longrightarrow>
     (conc_step h)\<^sup>*\<^sup>* ([FCreate req pc, FDelete sid d], st) ([FCreate req pc', FDelete sid d], st')"
proof (induction n arbitrary: pc' st')
  case (Suc n)
  obtain pc1 st1 where 1: "(create_step h req ^^ n) (pc, st) = (pc1, st1)" by (metis surj_pair)
  have "\<not> aborted (FCreate req pc1)" using create_steps_alive [where req = req and h = h and n = n and x = "(pc, st)"] Suc.prems 1 by simp
  moreover from this have "conc_step h ([FCreate req pc1, FDelete sid d], st1) ([FCreate req pc', FDelete sid d], st')"
    using conc_step.run [where fls = "[FCreate req pc1, FDelete sid d]" and i = 0 and fl = "FCreate req pc'" and st = st1 and st' = st'] Suc.prems(1) 1 by simp
  ultimately show ?case using Suc.IH [OF 1] by simp
qed simp

lemma delete_run:
  "fold (delete_step h sid) is (d, st) = (d', st') \<Longrightarrow> \<not> aborted (FCreate req pc) \<Longrightarrow>
     (conc_step h)\<^sup>*\<^sup>* ([FCreate req pc, FDelete sid d], st) ([FCreate req pc, FDelete sid d'], st')"
proof (induction "is" arbitrary: d st)
  case (Cons i "is")
  obtain d1 st1 where 1: "delete_step h sid i (d, st) = (d1, st1)" by (metis surj_pair)
  have "conc_step h ([FCreate req pc, FDelete sid d], st) ([FCreate req pc, FDelete sid d1], st1)"
    using conc_step.run [where fls = "[FCreate req pc, FDelete sid d]" and i = 1 and j = i and fl = "FDelete sid d1" and st = st and st' = st1] Cons.prems(2) 1 by simp
  with Cons.IH [of d1 st1] Cons.prems 1 show ?case by (simp add: converse_rtranclp_into_rtranclp)
qed simp

section \<open>Every request is answered\<close>

fun create_rank :: "create_pc \<Rightarrow> nat" where
  "create_rank CStart = 9"
| "create_rank (CInsert p) = 8"
| "create_rank (CPersist p) = 7"
| "create_rank (CRoute p) = 6"
| "create_rank (CProvision p) = 5"
| "create_rank (CUnroute p) = 4"
| "create_rank (CUndo p) = 3"
| "create_rank (CUndoPersist p) = 2"
| "create_rank (CRelease p) = 1"
| "create_rank (CMap p pr) = 2"
| "create_rank (CSave p pr) = 1"
| "create_rank (CDone r) = 0"

fun delete_rank :: "delete_pc \<Rightarrow> nat" where
  "delete_rank DStart = 9"
| "delete_rank (DUnlink subdomain) = 8"
| "delete_rank (DJoin ts) = Suc (length (concat ts))"
| "delete_rank (DDone code) = 0"

fun token_rank :: "token_pc \<Rightarrow> nat" where
  "token_rank KStart = 2"
| "token_rank KPersist = 1"
| "token_rank (KDone code) = 0"

fun flight_rank :: "flight \<Rightarrow> nat" where
  "flight_rank (FCreate req pc) = create_rank pc"
| "flight_rank (FDelete sid pc) = delete_rank pc"
| "flight_rank (FToken sid tok pc) = token_rank pc"

lemma create_step_rank:
  "create_step h req (pc, st) = (pc, st) \<and> create_rank pc = 0 \<or> create_rank (fst (create_step h req (pc, st))) < create_rank pc"
proof (cases pc)
  case (CRoute p)
  then show ?thesis by (cases "with_caddy (add_route (eh_caddy h) (route_of req p)) st") (simp split: result.split)
next
  case (CProvision p)
  then show ?thesis
    by (cases "with_sfu (provision_session (eh_engine h) (req_session_id req)) st") (simp split: result.split rm_error.split)
next
  case CStart
  then show ?thesis by (cases st; cases "ap_ports (fst st)") simp_all
next
  case (CPersist p)
  then show ?thesis by (cases "registry_write h st") (simp split: result.split)
qed (cases st; simp)+

lemma token_step_rank:
  "token_step h sid tok (pc, st) = (pc, st) \<and> token_rank pc = 0 \<or> token_rank (fst (token_step h sid tok (pc, st))) < token_rank pc"
  by (cases pc) (simp_all split: prod.split result.split)

lemma length_concat_update:
  "i < length ts \<Longrightarrow> ts ! i = t # rest \<Longrightarrow> length (concat ts) = Suc (length (concat (ts[i := rest])))"
  by (induction ts arbitrary: i) (auto simp: nth_Cons split: nat.splits)

lemma join_of_rank: "length (concat (join_of sid subdomain)) \<le> 6"
  by (cases subdomain) (simp_all add: join_of_def)

lemma delete_step_rank:
  "delete_step h sid i (pc, st) = (pc, st) \<or> delete_rank (fst (delete_step h sid i (pc, st))) < delete_rank pc"
proof (cases pc)
  case DStart
  then show ?thesis by (cases st) simp
next
  case (DUnlink subdomain)
  with join_of_rank [of sid subdomain] show ?thesis by simp
next
  case (DJoin ts)
  then show ?thesis using length_concat_update [of i ts] by (auto split: list.split)
qed simp

lemma delete_step_progress:
  assumes "delete_rank pc \<noteq> 0"
  shows "\<exists>i. delete_rank (fst (delete_step h sid i (pc, st))) < delete_rank pc"
proof (cases pc)
  case (DJoin ts)
  show ?thesis
  proof (cases "list_all (\<lambda>t. t = []) ts")
    case False
    then obtain i where "i < length ts" "ts ! i \<noteq> []" by (auto simp: list_all_length)
    then show ?thesis using False length_concat_update [of i ts] by (intro exI [of _ i]) (auto simp: DJoin split: list.split)
  qed (simp add: DJoin)
next
  case DStart
  then show ?thesis by (cases st) simp
next
  case (DUnlink subdomain)
  with join_of_rank [of sid subdomain] show ?thesis by simp
qed (use assms in simp)

lemma flight_step_rank:
  "flight_rank (fst (flight_step h i (FCreate req pc) st)) = create_rank (fst (create_step h req (pc, st)))"
  "flight_rank (fst (flight_step h i (FDelete sid dpc) st)) = delete_rank (fst (delete_step h sid i (dpc, st)))"
  "flight_rank (fst (flight_step h i (FToken sid tok kpc) st)) = token_rank (fst (token_step h sid tok (kpc, st)))"
  by (simp_all add: case_prod_beta)


section \<open>The types of the shared state\<close>

text \<open>
  What the code relies on without checking: the maps have one entry per key, a service is filed under
  its name and a route under its host, and the free ports are sorted, distinct and of the range.
\<close>

definition cache_ok :: "route_cache \<Rightarrow> bool" where
  "cache_ok c \<longleftrightarrow> dm_ok c \<and> (\<forall>k r. dm_get c k = Some r \<longrightarrow> cr_host r = k)"

definition edge_typed :: "app_state \<Rightarrow> bool" where
  "edge_typed a \<longleftrightarrow> pool_ok (ap_ports a) \<and> registry_ok (ap_rathole a) \<and> cache_ok (ap_routes a) \<and> dm_ok (ap_subdomains a)"

lemma cache_ok_insert: "cache_ok c \<Longrightarrow> cache_ok (dm_insert (cr_host r) r c)"
  by (simp add: cache_ok_def)

lemma cache_ok_remove: "cache_ok c \<Longrightarrow> cache_ok (dm_remove k c)"
  by (simp add: cache_ok_def)

lemma typed_memory: "edge_typed (fst st) \<Longrightarrow> edge_typed (fst (registry_memory op st))"
  by (cases st) (simp add: edge_typed_def registry_memory_def reg_services_ok)

lemma typed_write: "registry_write h st = (r, st') \<Longrightarrow> edge_typed (fst st) \<Longrightarrow> edge_typed (fst st')"
  by (cases st) (auto simp: registry_write_def with_rathole_def edge_typed_def split: prod.splits)

lemma typed_sfu: "with_sfu f st = (r, st') \<Longrightarrow> edge_typed (fst st) \<Longrightarrow> edge_typed (fst st')"
  by (cases st) (auto simp: with_sfu_def edge_typed_def split: prod.splits)

lemma typed_store: "with_store f st = (r, st') \<Longrightarrow> edge_typed (fst st) \<Longrightarrow> edge_typed (fst st')"
  by (cases st) (auto simp: with_store_def split: prod.splits)

lemma typed_add_route: "with_caddy (add_route ac route) st = (r, st') \<Longrightarrow> edge_typed (fst st) \<Longrightarrow> edge_typed (fst st')"
  by (cases st) (auto simp: with_caddy_def edge_typed_def cache_ok_insert split: prod.splits dest!: add_route_cache)

lemma typed_remove_route: "with_caddy (remove_route ac host) st = (r, st') \<Longrightarrow> edge_typed (fst st) \<Longrightarrow> edge_typed (fst st')"
  by (cases st) (auto simp: with_caddy_def edge_typed_def cache_ok_remove split: prod.splits dest!: remove_route_cache)

lemma typed_snd:
  "edge_typed (fst st) \<Longrightarrow> edge_typed (fst (snd (registry_write h st)))"
  "edge_typed (fst st) \<Longrightarrow> edge_typed (fst (snd (with_sfu f st)))"
  "edge_typed (fst st) \<Longrightarrow> edge_typed (fst (snd (with_store g st)))"
  "edge_typed (fst st) \<Longrightarrow> edge_typed (fst (snd (with_caddy (remove_route ac host) st)))"
  by (metis typed_write typed_sfu typed_store typed_remove_route prod.collapse)+

lemma pool_ok_release: "pool_ok ps \<Longrightarrow> pool_ok (release_port p ps)"
  using ports.release [of ps p] by (cases "port_min \<le> p \<and> p \<le> port_max") (auto simp: release_port_def)

lemma typed_create_step: "create_step h req (pc, st) = (pc', st') \<Longrightarrow> edge_typed (fst st) \<Longrightarrow> edge_typed (fst st')"
proof (cases pc)
  case CStart
  assume "create_step h req (pc, st) = (pc', st')" "edge_typed (fst st)"
  with CStart show ?thesis
    by (cases st; cases "ap_ports (fst st)") (auto simp: edge_typed_def pool_ok_def)
next
  case (CRelease p)
  assume "create_step h req (pc, st) = (pc', st')" "edge_typed (fst st)"
  with CRelease show ?thesis by (cases st) (auto simp: edge_typed_def pool_ok_release)
next
  case (CMap p pr)
  assume "create_step h req (pc, st) = (pc', st')" "edge_typed (fst st)"
  with CMap show ?thesis by (cases st) (auto simp: edge_typed_def)
next
  case (CSave p pr)
  assume "create_step h req (pc, st) = (pc', st')" "edge_typed (fst st)"
  with CSave show ?thesis by (cases st) (auto intro: typed_snd(3))
qed (auto simp: typed_memory typed_snd split: prod.splits result.splits rm_error.splits
    dest: typed_write typed_add_route typed_sfu)

lemma typed_delete_step: "delete_step h sid i (pc, st) = (pc', st') \<Longrightarrow> edge_typed (fst st) \<Longrightarrow> edge_typed (fst st')"
proof -
  assume d: "delete_step h sid i (pc, st) = (pc', st')" and t: "edge_typed (fst st)"
  have task: "edge_typed (fst (delete_task_run h task st))" for task
    using t by (cases task) (simp_all add: typed_memory typed_snd)
  show ?thesis
  proof (cases pc)
    case DStart
    with d t show ?thesis by (cases st) (auto simp: edge_typed_def)
  next
    case (DJoin ts)
    with d t task show ?thesis by (auto split: if_splits list.splits)
  qed (use d t in \<open>auto simp: typed_snd\<close>)
qed

lemma typed_token_step: "token_step h sid tok (pc, st) = (pc', st') \<Longrightarrow> edge_typed (fst st) \<Longrightarrow> edge_typed (fst st')"
  by (cases pc) (auto simp: typed_memory split: if_splits prod.splits result.splits dest: typed_write)

lemma typed_flight_step: "flight_step h i fl st = (fl', st') \<Longrightarrow> edge_typed (fst st) \<Longrightarrow> edge_typed (fst st')"
  by (cases fl) (auto split: prod.splits dest: typed_create_step typed_delete_step typed_token_step)

interpretation typed: invariant_system "conc_step h" "\<lambda>c. edge_typed (fst (snd c))" for h
proof unfold_locales
  fix c c' :: "'a conc_state" assume t: "edge_typed (fst (snd c))" and s: "conc_step h c c'"
  from s show "edge_typed (fst (snd c'))"
  proof (cases rule: conc_step.cases)
    case (run fls i j st fl st')
    with t show ?thesis using typed_flight_step by fastforce
  qed (use t in \<open>auto simp: edge_typed_def\<close>)
qed

lemma typed_bootstrap:
  assumes "caddy_bootstrap ac cfg (c, w) = (c', w')" and "cache_ok c"
  shows "cache_ok c'"
proof -
  have *: "cache_ok (fst (snd (ensure_wildcard_tls_policy ac r d t s)))" "cache_ok (fst (snd (ensure_session_ended_fallback ac r d s)))"
    "cache_ok (fst (snd (ensure_edge_admin_route ac r d p s)))" if "cache_ok (fst s)" for r d t s p
  proof -
    obtain c w where s: "s = (c, w)" by force
    obtain x c1 w1 where 1: "ensure_wildcard_tls_policy ac r d t (c, w) = (x, c1, w1)" by (metis prod_cases3)
    obtain y c2 w2 where 2: "ensure_session_ended_fallback ac r d (c, w) = (y, c2, w2)" by (metis prod_cases3)
    obtain z c3 w3 where 3: "ensure_edge_admin_route ac r d p (c, w) = (z, c3, w3)" by (metis prod_cases3)
    show "cache_ok (fst (snd (ensure_wildcard_tls_policy ac r d t s)))" "cache_ok (fst (snd (ensure_session_ended_fallback ac r d s)))"
      using that ensure_wildcard_tls_policy_cache [OF 1] ensure_session_ended_fallback_cache [OF 2] 1 2 by (simp_all add: s)
    from 3 have "c3 = c \<or> (\<exists>r. c3 = dm_insert (cr_host r) r c)"
      unfolding ensure_edge_admin_route_def by (metis add_route_cache)
    with that 3 cache_ok_insert show "cache_ok (fst (snd (ensure_edge_admin_route ac r d p s)))" by (auto simp: s)
  qed
  from assms show ?thesis
    by (auto simp: caddy_bootstrap_def Let_def split: option.splits) (metis * fst_conv)+
qed

lemma dm_ok_fold_insert: "dm_ok m \<Longrightarrow> dm_ok (fold (\<lambda>(k, v). dm_insert k v) xs m)"
  by (induction xs arbitrary: m) auto

lemma typed_start:
  assumes "app_initialize ew cfg (s0, w0) = (Ok a0, s1, w1)"
  shows "edge_typed a0"
proof -
  have "cache_ok []" by (simp add: cache_ok_def)
  then have "cache_ok (ap_routes a0)" "dm_ok (ap_subdomains a0)"
    using assms typed_bootstrap
    by (fastforce simp: app_initialize_def load_subdomains_def dm_ok_fold_insert split: result.splits prod.splits)+
  with app_initialize_fresh [OF assms] port_allocator_new_ok show ?thesis
    by (simp add: edge_typed_def ports.partitioned_def)
qed

text \<open>The types that the code relies on are kept by every interleaving of requests: the free ports are
  sorted, distinct and of the range, every service is filed under its name and every listed route
  under its host, and no map ever has two entries for a key.\<close>

lemma edge_well_typed:
  assumes "app_initialize ew cfg (s0, w0) = (Ok a0, s1, w1)"
    and "(conc_step h)\<^sup>*\<^sup>* ([], a0, s1, w1) (fls, a, s, w)"
  shows "edge_typed a"
  using typed.inv_run [OF assms(2)] typed_start [OF assms(1)] by simp

section \<open>Concrete runs\<close>

definition demo_disk :: "fs \<Rightarrow> bool" where
  "demo_disk s \<longleftrightarrow> faults s = [] \<and> (nodes s = [([], Dir)] \<or> (\<exists>c. nodes s = [([], Dir), ([''r.toml''], File c)]))"

lemma demo_persist:
  assumes "demo_disk s" and "sr_config_path r = [''r.toml'']"
  shows "\<exists>s'. persist_and_reload demo_enc bool_host r (s, w) = (Ok (), s', w) \<and> demo_disk s'"
proof -
  obtain ns where s: "s = \<lparr>nodes = ns, faults = []\<rparr>" "ns = [([], Dir)] \<or> (\<exists>c. ns = [([], Dir), ([''r.toml''], File c)])"
    using assms(1) by (cases s) (auto simp: demo_disk_def)
  from s(2) show ?thesis
    by (auto simp: s(1) assms(2) persist_and_reload_def render_toml_def demo_enc_def config_atomic_write_def path_parent_def
        file_name_def write_tmp_and_rename_def then_io_def remove_if_exists_def fs_defs tmp_path_def trigger_reload_def
        bool_host_def demo_disk_def Let_def)
qed

lemma demo_write:
  assumes "demo_disk s" and "sr_config_path (ap_rathole a) = [''r.toml'']" and "eh_toml h = demo_enc" "eh_rathole h = bool_host"
  shows "\<exists>s'. registry_write h (a, s, w) = (Ok (), a, s', w) \<and> demo_disk s'"
proof -
  obtain s' where "persist_and_reload demo_enc bool_host (ap_rathole a) (s, w) = (Ok (), s', w)" "demo_disk s'"
    using demo_persist [OF assms(1,2)] by blast
  then show ?thesis by (intro exI [of _ s']) (simp add: registry_write_def with_rathole_def assms(3,4))
qed

lemma demo_add:
  assumes "h_put (ac_http ac) = h_put ok_http" and "h_get (ac_http ac) = h_get ok_http"
  shows "add_route ac r (c, w) = (Ok (), dm_insert (cr_host r) r c, w)"
  by (simp add: add_route_def Let_def put_with_dedup_retry_def rbind_def request_def assms ok_http_def answer_def
      settled_def is_success_def remember_def verify_route_present_def ok_resp_def)

lemma demo_provision_any:
  assumes "rm_sessions rm = []" and "rm_webrtc_servers rm = [''srv'']" and "rm_workers rm = 1"
  shows "\<exists>pr m. provision_session demo_engine sid (rm, True) = (Ok pr, m, True)"
    and "\<exists>e m. provision_session demo_engine sid (rm, False) = (Err (Fail e), m, False)
       \<and> rm_sessions m = [] \<and> rm_webrtc_servers m = [''srv''] \<and> rm_workers m = 1"
  using assms
  by (auto simp: provision_session_def pick_worker_index_def build_session_def rbind_def io_ctx_def or_drop_def
      commit_session_def demo_engine_def)

text \<open>The first four steps of a creation in the demonstration world.\<close>

lemma demo_four:
  assumes "demo_disk s" and "sr_config_path (ap_rathole a) = [''r.toml'']" and "ap_ports a = p # free"
    and "eh_toml h = demo_enc" "eh_rathole h = bool_host"
    and "h_put (ac_http (eh_caddy h)) = h_put ok_http" "h_get (ac_http (eh_caddy h)) = h_get ok_http"
  shows "\<exists>s'. (create_step h req ^^ 4) (CStart, a, s, w) = (CProvision p,
      a\<lparr>ap_ports := free, ap_rathole := reg_services (Register (service_of req p)) (ap_rathole a),
        ap_routes := dm_insert (req_subdomain req) (route_of req p) (ap_routes a)\<rparr>, s', w) \<and> demo_disk s'"
proof -
  let ?a = "a\<lparr>ap_ports := free, ap_rathole := reg_services (Register (service_of req p)) (ap_rathole a)\<rparr>"
  obtain s' where s': "registry_write h (?a, s, w) = (Ok (), ?a, s', w)" "demo_disk s'"
    using demo_write [OF assms(1) _ assms(4,5), of ?a] assms(2) by auto
  have m: "registry_memory (Register (service_of req p)) (a\<lparr>ap_ports := free\<rparr>, s, w) = (?a, s, w)"
    by (simp add: registry_memory_def)
  show ?thesis
    using s' demo_add [OF assms(6,7)]
    by (intro exI [of _ s']) (simp add: numeral_eq_Suc funpow_front assms(3) m with_caddy_def route_of_def del: funpow.simps)
qed

definition demo_start :: "app_state \<Rightarrow> bool" where
  "demo_start a \<longleftrightarrow> ap_sfu a = demo_rm \<and> ap_rathole a = registry_new bool_host [''r.toml''] \<and> ap_ports a = port_allocator_new
     \<and> ap_routes a = [] \<and> ap_subdomains a = []"

definition clean_disk :: fs where
  "clean_disk = \<lparr>nodes = [([], Dir)], faults = []\<rparr>"

lemma demo_started:
  obtains a where "app_initialize demo_world demo_cfg (demo_fs, True) = (Ok a, clean_disk, True)" and "demo_start a"
  using demo_init by (auto simp: clean_disk_def demo_start_def)

text \<open>One creation that succeeds, a deletion that waits.\<close>

lemma demo_conc:
  obtains a resp a' s' w' where "app_initialize demo_world demo_cfg (demo_fs, True) = (Ok a, clean_disk, True)"
    and "(conc_step demo_edge)\<^sup>*\<^sup>* ([], a, clean_disk, True)
          ([FCreate demo_req (CDone (Reply (Ok resp))), FDelete ''s'' DStart], a', s', w')"
    and "dm_get (sr_services (ap_rathole a')) ''s'' = Some (service_of demo_req 11000)"
proof -
  obtain a where a: "app_initialize demo_world demo_cfg (demo_fs, True) = (Ok a, clean_disk, True)" "demo_start a"
    by (rule demo_started)
  obtain resp a' s' w' where c: "create demo_edge demo_req (a, clean_disk, True) = (Reply (Ok resp), a', s', w')"
    "dm_get (sr_services (ap_rathole a')) ''s'' = Some (service_of demo_req 11000)"
    using demo_create [of a] a(2) unfolding demo_start_def clean_disk_def by (metis fst_conv prod_cases3)
  have "conc_step demo_edge ([], a, clean_disk, True) ([FCreate demo_req CStart], a, clean_disk, True)"
    using conc_step.arrive [of "[]" "FCreate demo_req CStart"] by simp
  moreover have "conc_step demo_edge ([FCreate demo_req CStart], a, clean_disk, True)
      ([FCreate demo_req CStart, FDelete ''s'' DStart], a, clean_disk, True)"
    using conc_step.arrive [of "[FCreate demo_req CStart]" "FDelete ''s'' DStart"] by simp
  moreover have "(create_step demo_edge demo_req ^^ 9) (CStart, a, clean_disk, True) = (CDone (Reply (Ok resp)), a', s', w')"
    using handlers_alone(1) [of demo_edge demo_req "(a, clean_disk, True)"] c(1) by simp
  ultimately have "(conc_step demo_edge)\<^sup>*\<^sup>* ([], a, clean_disk, True)
      ([FCreate demo_req (CDone (Reply (Ok resp))), FDelete ''s'' DStart], a', s', w')"
    using create_run [of 9 demo_edge demo_req CStart "(a, clean_disk, True)" "CDone (Reply (Ok resp))" "(a', s', w')" "''s''" DStart]
    by (auto intro: converse_rtranclp_into_rtranclp)
  with that a(1) c(2) show thesis by blast
qed

lemma edge_well_typed_witness:
  "\<exists>a. edge_typed a \<and> dm_get (sr_services (ap_rathole a)) ''s'' \<noteq> None"
proof (rule demo_conc)
  fix a resp a' s' w'
  assume "app_initialize demo_world demo_cfg (demo_fs, True) = (Ok a, clean_disk, True)"
    and "(conc_step demo_edge)\<^sup>*\<^sup>* ([], a, clean_disk, True)
          ([FCreate demo_req (CDone (Reply (Ok resp))), FDelete ''s'' DStart], a', s', w')"
    and s: "dm_get (sr_services (ap_rathole a')) ''s'' = Some (service_of demo_req 11000)"
  from edge_well_typed [OF this(1,2)] s show ?thesis by blast
qed

end
