(* ===== verification/PortLeases.thy ===== *)
theory PortLeases
  imports EdgeConcurrent
begin

text \<open>
  The ports under every interleaving of requests. What a request holds of the pool is its \<^emph>\<open>lease\<close>;
  every step of every handler follows one of nine rules on leases, pool and registry, and all that
  is shown of the ports is shown of the rules: who owns a port, how many there are, and how the
  status of a port can change, which the edge refines.
\<close>

section \<open>The lease of a port\<close>

text \<open>
  What a request holds of the pool: the session, the port, and whether its service can be in the
  registry. An answered success keeps its port; a failed answer has let go of it.
\<close>

datatype lease_phase = LUnbound | LBound | LKept

type_synonym lease = "(session_id \<times> u16 \<times> lease_phase) option"

fun create_lease :: "session_id \<Rightarrow> create_pc \<Rightarrow> lease" where
  "create_lease sid CStart = None"
| "create_lease sid (CInsert p) = Some (sid, p, LUnbound)"
| "create_lease sid (CPersist p) = Some (sid, p, LBound)"
| "create_lease sid (CRoute p) = Some (sid, p, LBound)"
| "create_lease sid (CProvision p) = Some (sid, p, LBound)"
| "create_lease sid (CUnroute p) = Some (sid, p, LBound)"
| "create_lease sid (CUndo p) = Some (sid, p, LBound)"
| "create_lease sid (CUndoPersist p) = Some (sid, p, LUnbound)"
| "create_lease sid (CRelease p) = Some (sid, p, LUnbound)"
| "create_lease sid (CMap p pr) = Some (sid, p, LBound)"
| "create_lease sid (CSave p pr) = Some (sid, p, LBound)"
| "create_lease sid (CDone (Reply (Ok resp))) = Some (sid, resp_local_upstream_port resp, LKept)"
| "create_lease sid (CDone _) = None"

fun lease_of :: "flight \<Rightarrow> lease" where
  "lease_of (FCreate req pc) = create_lease (req_session_id req) pc"
| "lease_of _ = None"

definition lease_port :: "lease \<Rightarrow> u16 option" where
  "lease_port l = map_option (fst \<circ> snd) l"

definition flight_port :: "flight \<Rightarrow> u16 option" where
  "flight_port fl = lease_port (lease_of fl)"

lemma lease_port_simps [simp]: "lease_port None = None" "lease_port (Some (sid, p, b)) = Some p"
  by (simp_all add: lease_port_def)

text \<open>
  The abstract machine: how one step of one request changes its lease, the pool and the registry.
\<close>

type_synonym services = "(session_id, rathole_service) dashmap"

inductive lease_rule :: "lease \<times> port_pool \<times> services \<Rightarrow> lease \<times> port_pool \<times> services \<Rightarrow> bool" where
  idle: "lease_rule (l, ps, m) (l, ps, m)"
| leak: "lease_rule (Some (sid, p, LBound), ps, m) (None, ps, m)"
| keep: "lease_rule (Some (sid, p, LBound), ps, m) (Some (sid, p, LKept), ps, m)"
| take: "lease_rule (None, p # ps, m) (Some (sid, p, LUnbound), ps, m)"
| bind: "rs_bind_addr svc = bind_addr p \<Longrightarrow> rs_name svc = sid \<Longrightarrow>
     lease_rule (Some (sid, p, LUnbound), ps, m) (Some (sid, p, LBound), ps, dm_insert sid svc m)"
| unbind: "lease_rule (Some (sid, p, LBound), ps, m) (Some (sid, p, LUnbound), ps, dm_remove sid m)"
| give: "lease_rule (Some (sid, p, LUnbound), ps, m) (None, release_port p ps, m)"
| forget: "lease_rule (l, ps, m) (l, ps, dm_remove k m)"
| rotate: "dm_get m k = Some svc \<Longrightarrow> lease_rule (l, ps, m) (l, ps, dm_insert k (svc\<lparr>rs_token_hash := tok\<rparr>) m)"

lemma core_write: "registry_write h st = (r, st') \<Longrightarrow> core st' = core st"
  by (cases st) (auto simp: registry_write_def with_rathole_def core_def split: prod.splits)

lemma core_memory:
  "core st = (ps, m) \<Longrightarrow> core (registry_memory op st) = (ps, case op of
      Register svc \<Rightarrow> dm_insert (rs_name svc) svc m
    | Deregister k \<Rightarrow> dm_remove k m
    | UpdateToken k tok \<Rightarrow> (case dm_get m k of None \<Rightarrow> m | Some svc \<Rightarrow> dm_insert k (svc\<lparr>rs_token_hash := tok\<rparr>) m))"
  by (cases st; cases op) (auto simp: registry_memory_def core_def reg_services_def split: option.split)

lemma core_snd:
  "core (snd (registry_write h st)) = core st" "core (snd (with_caddy f st)) = core st"
  "core (snd (with_sfu g st)) = core st" "core (snd (with_store k st)) = core st"
  by (metis core_write core_caddy core_sfu core_store prod.collapse)+

lemma create_step_lease:
  assumes "create_step h req (pc, st) = (pc', st')"
  shows "lease_rule (create_lease (req_session_id req) pc, core st) (create_lease (req_session_id req) pc', core st')"
proof -
  obtain ps m where c: "core st = (ps, m)" by force
  obtain a s w where st: "st = (a, s, w)" by (metis prod_cases3)
  show ?thesis
  proof (cases pc)
    case CStart
    with assms c show ?thesis
      by (cases ps) (auto simp: st core_def intro: lease_rule.intros)
  next
    case (CInsert p)
    with assms have "st' = registry_memory (Register (service_of req p)) st" "pc' = CPersist p" by auto
    with core_memory [OF c] c CInsert show ?thesis by (auto intro: lease_rule.intros)
  next
    case (CUndo p)
    with assms have "st' = registry_memory (Deregister (req_session_id req)) st" "pc' = CUndoPersist p" by auto
    with core_memory [OF c] c CUndo show ?thesis by (auto intro: lease_rule.intros)
  next
    case (CRelease p)
    with assms c show ?thesis by (auto simp: st core_def intro: lease_rule.intros)
  next
    case (CMap p pr)
    with assms c show ?thesis by (auto simp: st core_def intro: lease_rule.intros)
  next
    case (CSave p pr)
    with assms c show ?thesis by (auto simp: st create_resp_def core_snd intro: lease_rule.intros)
  next
    case (CProvision p)
    with assms c show ?thesis
      by (auto split: prod.splits result.splits rm_error.splits dest!: core_sfu intro: lease_rule.intros)
  qed (use assms c in \<open>auto simp: core_snd split: prod.splits result.splits
      dest!: core_write core_caddy intro: lease_rule.intros\<close>)
qed

lemma delete_step_lease:
  assumes "delete_step h sid i (pc, st) = (pc', st')"
  shows "lease_rule (None, core st) (None, core st')"
proof -
  obtain ps m where c: "core st = (ps, m)" by force
  have task: "lease_rule (None, core st) (None, core (delete_task_run h t st))" for t
  proof (cases t)
    case (JForget k)
    with core_memory [OF c] c show ?thesis by (auto intro: lease_rule.intros)
  qed (simp_all add: core_snd c lease_rule.idle)
  show ?thesis
  proof (cases pc)
    case DStart
    with assms c show ?thesis by (cases st) (auto simp: core_def intro: lease_rule.intros)
  next
    case (DJoin ts)
    with assms task c show ?thesis by (auto split: if_splits list.splits intro: lease_rule.intros)
  qed (use assms c in \<open>auto simp: core_snd intro: lease_rule.intros\<close>)
qed

lemma token_step_lease:
  assumes "token_step h sid tok (pc, st) = (pc', st')"
  shows "lease_rule (None, core st) (None, core st')"
proof -
  obtain ps m where c: "core st = (ps, m)" by force
  then have m: "m = sr_services (ap_rathole (fst st))" by (simp add: core_def)
  show ?thesis
  proof (cases pc)
    case KStart
    with assms core_memory [OF c, of "UpdateToken sid tok"] c m show ?thesis
      by (auto split: if_splits intro: lease_rule.intros)
  qed (use assms c in \<open>auto split: prod.splits result.splits dest!: core_write intro: lease_rule.intros\<close>)
qed

lemma flight_step_lease:
  "flight_step h i fl st = (fl', st') \<Longrightarrow> lease_rule (lease_of fl, core st) (lease_of fl', core st')"
  by (cases fl) (auto split: prod.splits dest: create_step_lease delete_step_lease token_step_lease)

section \<open>The invariant of the leases\<close>

text \<open>
  A leased port is of the range and not free, and a service listening on it belongs to the session of
  the lease, at a time when the lease says so; no two leases have the same port.
\<close>

fun lease_ok :: "port_pool \<Rightarrow> services \<Rightarrow> lease \<Rightarrow> bool" where
  "lease_ok ps m None \<longleftrightarrow> True"
| "lease_ok ps m (Some (sid, p, b)) \<longleftrightarrow> port_min \<le> p \<and> p \<le> port_max \<and> p \<notin> set ps
     \<and> (\<forall>k svc. dm_get m k = Some svc \<and> rs_bind_addr svc = bind_addr p \<longrightarrow> b \<noteq> LUnbound \<and> k = sid)"

definition apart :: "lease list \<Rightarrow> bool" where
  "apart ls \<longleftrightarrow> (\<forall>i < length ls. \<forall>j < length ls. i \<noteq> j \<longrightarrow>
     lease_port (ls ! i) = None \<or> lease_port (ls ! i) \<noteq> lease_port (ls ! j))"

definition lease_inv :: "lease list \<times> port_pool \<times> services \<Rightarrow> bool" where
  "lease_inv c = (case c of (ls, ps, m) \<Rightarrow> owned ps m \<and> (\<forall>l \<in> set ls. lease_ok ps m l) \<and> apart ls)"

inductive_cases lease_ruleE [consumes 1, case_names idle leak keep take bind unbind give forget rotate]: "lease_rule (l, ps, m) (l', ps', m')"

lemma owned_bind:
  assumes "owned ps m" and "lease_ok ps m (Some (sid, p, LUnbound))" and "rs_bind_addr svc = bind_addr p"
  shows "owned ps (dm_insert k svc m)"
  unfolding owned_def
proof (intro conjI allI impI)
  show "pool_ok ps" using assms(1) by (simp add: owned_def)
next
  fix l s assume l: "dm_get (dm_insert k svc m) l = Some s"
  show "\<exists>q. rs_bind_addr s = bind_addr q \<and> port_min \<le> q \<and> q \<le> port_max \<and> q \<notin> set ps"
  proof (cases "k = l")
    case False
    with l assms(1) show ?thesis by (auto simp: owned_def)
  qed (use l assms(2,3) in auto)
next
  fix l1 l2 s1 s2
  assume a: "dm_get (dm_insert k svc m) l1 = Some s1 \<and> dm_get (dm_insert k svc m) l2 = Some s2
    \<and> rs_bind_addr s1 = rs_bind_addr s2"
  have "rs_bind_addr s \<noteq> bind_addr p" if "dm_get m l = Some s" for l s using that assms(2) by auto
  moreover have "l1 = l2" if "dm_get m l1 = Some s1" "dm_get m l2 = Some s2"
    using that a assms(1) by (auto simp: owned_def)
  ultimately show "l1 = l2" using a assms(3) by (auto split: if_splits)
qed

lemma owned_tail: "owned (p # ps) m \<Longrightarrow> owned ps m"
  unfolding owned_def pool_ok_def by (simp only: sorted_simps distinct.simps set_simps insert_iff insert_subset) blast

lemma owned_give: "owned ps m \<Longrightarrow> lease_ok ps m (Some (sid, p, LUnbound)) \<Longrightarrow> owned (release_port p ps) m"
  by (rule owned_release) auto

lemma set_release_port: "pool_ok ps \<Longrightarrow> port_min \<le> p \<Longrightarrow> p \<le> port_max \<Longrightarrow> set (release_port p ps) = insert p (set ps)"
  using ports.release [of ps p] by simp

lemma token_bind:
  assumes "dm_get m k = Some svc" and "dm_get (dm_insert k (svc\<lparr>rs_token_hash := tok\<rparr>) m) l = Some s"
  shows "\<exists>s'. dm_get m l = Some s' \<and> rs_bind_addr s' = rs_bind_addr s"
  using assms by (auto split: if_splits)

lemma lease_ok_token:
  assumes "dm_get m k = Some svc" and "lease_ok ps m l"
  shows "lease_ok ps (dm_insert k (svc\<lparr>rs_token_hash := tok\<rparr>) m) l"
proof (cases l)
  case (Some x)
  obtain sid p b where x: "x = (sid, p, b)" by (metis prod_cases3)
  have "b \<noteq> LUnbound \<and> k' = sid" if h: "dm_get (dm_insert k (svc\<lparr>rs_token_hash := tok\<rparr>) m) k' = Some s" "rs_bind_addr s = bind_addr p" for k' s
  proof -
    obtain s' where "dm_get m k' = Some s'" "rs_bind_addr s' = bind_addr p" using token_bind [OF assms(1) h(1)] h(2) by auto
    with assms(2) show ?thesis by (auto simp: Some x)
  qed
  with assms(2) show ?thesis by (auto simp only: Some x lease_ok.simps)
qed simp

lemma lease_ok_remove: "lease_ok ps m l \<Longrightarrow> lease_ok ps (dm_remove k m) l"
  by (cases "(ps, m, l)" rule: lease_ok.cases) auto

lemma lease_rule_local:
  assumes "lease_rule (l, ps, m) (l', ps', m')" and "owned ps m" and "lease_ok ps m l"
  shows "owned ps' m' \<and> lease_ok ps' m' l'"
  using assms(1)
proof (cases rule: lease_ruleE)
  case (take p sid)
  with assms(2) have "pool_ok (p # ps')" by (simp add: owned_def)
  moreover have "owned ps' m" using assms(2) take owned_tail by simp
  moreover have "rs_bind_addr s \<noteq> bind_addr p" if "dm_get m k = Some s" for k s
    using that assms(2) take owned_take(2) by blast
  ultimately show ?thesis using take by (auto simp: pool_ok_def)
next
  case (bind svc p)
  with assms(2,3) owned_bind [of ps m "rs_name svc" p svc "rs_name svc"] show ?thesis by auto
next
  case (unbind sid p)
  with assms(2,3) owned_remove [of ps m sid] show ?thesis by auto
next
  case (give sid p)
  with assms(2,3) owned_give [of ps m sid p] show ?thesis by simp
next
  case (forget k)
  with assms(2,3) owned_remove [of ps m k] lease_ok_remove show ?thesis by simp
next
  case (rotate k svc tok)
  with assms(2,3) owned_token lease_ok_token show ?thesis by simp
qed (use assms(2,3) in simp_all)

lemma lease_rule_frame:
  assumes "lease_rule (l, ps, m) (l', ps', m')" and "owned ps m" and "lease_ok ps m l"
    and "lease_ok ps m x" and "lease_port x = None \<or> lease_port x \<noteq> lease_port l"
  shows "lease_ok ps' m' x"
proof (cases x)
  case (Some y)
  then obtain sid q b where x: "x = Some (sid, q, b)" by (metis prod_cases3)
  show ?thesis
    using assms(1)
  proof (cases rule: lease_ruleE)
    case (bind svc p)
    with assms(4,5) show ?thesis by (auto simp: x bind_addr_inj)
  next
    case (give sid p)
    have "set (release_port p ps) = insert p (set ps)"
      using assms(2,3) give by (intro set_release_port) (auto simp: owned_def)
    with give assms(4,5) show ?thesis by (simp add: x)
  next
    case (rotate k svc tok)
    with assms(4) lease_ok_token show ?thesis by simp
  next
    case (forget k)
    with assms(4) lease_ok_remove show ?thesis by simp
  next
    case (unbind sid p)
    with assms(4) lease_ok_remove show ?thesis by simp
  qed (use assms(4) in \<open>auto simp: x\<close>)
qed simp

lemma lease_rule_port:
  "lease_rule (l, ps, m) (l', ps', m') \<Longrightarrow>
     lease_port l' = None \<or> lease_port l' = lease_port l \<or> (\<exists>p \<in> set ps. lease_port l' = Some p)"
  by (auto elim: lease_ruleE)

lemma lease_inv_step:
  assumes "lease_inv (ls, ps, m)" and "i < length ls" and "lease_rule (ls ! i, ps, m) (l', ps', m')"
  shows "lease_inv (ls[i := l'], ps', m')"
proof -
  have inv: "owned ps m" "\<And>j. j < length ls \<Longrightarrow> lease_ok ps m (ls ! j)" "apart ls"
    using assms(1) by (auto simp: lease_inv_def)
  have other: "lease_port (ls ! j) = None \<or> lease_port (ls ! j) \<noteq> lease_port (ls ! i)" if "j < length ls" "j \<noteq> i" for j
    using inv(3) that assms(2) by (auto simp: apart_def)
  note loc = lease_rule_local [OF assms(3) inv(1) inv(2) [OF assms(2)]]
  have ok: "lease_ok ps' m' (ls[i := l'] ! j)" if "j < length ls" for j
  proof (cases "j = i")
    case False
    with lease_rule_frame [OF assms(3) inv(1) inv(2) [OF assms(2)] inv(2) [OF that] other] that show ?thesis by simp
  qed (use loc assms(2) in simp)
  have new: "lease_port (ls ! j) = None \<or> lease_port (ls ! j) \<noteq> lease_port l' " if "j < length ls" "j \<noteq> i" for j
  proof (cases "ls ! j")
    case (Some x)
    then obtain sid q b where x: "ls ! j = Some (sid, q, b)" by (metis prod_cases3)
    then have "q \<notin> set ps" using inv(2) [OF that(1)] by simp
    with lease_rule_port [OF assms(3)] other [OF that] x show ?thesis by auto
  qed simp
  have "apart (ls[i := l'])"
    unfolding apart_def
  proof (intro allI impI)
    fix j k assume "j < length (ls[i := l'])" "k < length (ls[i := l'])" "j \<noteq> k"
    then show "lease_port (ls[i := l'] ! j) = None \<or> lease_port (ls[i := l'] ! j) \<noteq> lease_port (ls[i := l'] ! k)"
      using new [of j] new [of k] inv(3) assms(2) by (cases "j = i"; cases "k = i") (auto simp: apart_def)
  qed
  moreover have "\<forall>l \<in> set (ls[i := l']). lease_ok ps' m' l"
    using ok by (metis in_set_conv_nth length_list_update)
  ultimately show ?thesis using loc by (simp add: lease_inv_def)
qed

lemma lease_inv_arrive: "lease_inv (ls, ps, m) \<Longrightarrow> lease_inv (ls @ [None], ps, m)"
  by (auto simp: lease_inv_def apart_def nth_append)

section \<open>Every interleaving\<close>

definition conc_inv :: "'w conc_state \<Rightarrow> bool" where
  "conc_inv c = (case c of (fls, st) \<Rightarrow> lease_inv (map lease_of fls, core st))"

lemma lease_arriving: "arriving fl \<Longrightarrow> lease_of fl = None"
  by (cases fl) auto

lemma conc_inv_step:
  assumes "conc_inv c" and "conc_step h c c'"
  shows "conc_inv c'"
  using assms(2)
proof (cases rule: conc_step.cases)
  case (arrive fls fl st)
  with assms(1) lease_inv_arrive [of "map lease_of fls"] show ?thesis
    by (cases "core st") (simp add: conc_inv_def lease_arriving)
next
  case (run fls i j st fl st')
  obtain ps m where c: "core st = (ps, m)" by force
  obtain ps' m' where c': "core st' = (ps', m')" by force
  have "lease_rule (map lease_of fls ! i, ps, m) (lease_of fl, ps', m')"
    using flight_step_lease [OF run(5)] run(4) c c' by simp
  with lease_inv_step [of "map lease_of fls" ps m i] assms(1) run c c' show ?thesis
    by (simp add: conc_inv_def map_update)
next
  case (others fls a s w m s' w')
  with assms(1) show ?thesis by (simp add: conc_inv_def core_def)
qed

interpretation conc: invariant_system "conc_step h" conc_inv for h
  by unfold_locales (rule conc_inv_step)

lemma conc_inv_start:
  assumes "app_initialize ew cfg (s0, w0) = (Ok a0, s1, w1)"
  shows "conc_inv ([], a0, s1, w1)"
proof -
  have "owned port_allocator_new []"
    using port_allocator_new_ok by (simp add: owned_def ports.partitioned_def)
  then show ?thesis
    using app_initialize_fresh [OF assms] by (simp add: conc_inv_def core_def lease_inv_def apart_def)
qed

lemma conc_inv_reachable:
  assumes "app_initialize ew cfg (s0, w0) = (Ok a0, s1, w1)" and "(conc_step h)\<^sup>*\<^sup>* ([], a0, s1, w1) c"
  shows "conc_inv c"
  by (rule conc.inv_run [OF assms(2) conc_inv_start [OF assms(1)]])

lemma conc_invD:
  assumes "conc_inv (fls, a, s, w)"
  shows "owned (ap_ports a) (sr_services (ap_rathole a))"
    and "i < length fls \<Longrightarrow> lease_ok (ap_ports a) (sr_services (ap_rathole a)) (lease_of (fls ! i))"
    and "i < length fls \<Longrightarrow> j < length fls \<Longrightarrow> i \<noteq> j \<Longrightarrow> flight_port (fls ! i) = Some p \<Longrightarrow> flight_port (fls ! j) \<noteq> Some p"
proof -
  show "owned (ap_ports a) (sr_services (ap_rathole a))"
    "i < length fls \<Longrightarrow> lease_ok (ap_ports a) (sr_services (ap_rathole a)) (lease_of (fls ! i))"
    using assms by (auto simp: conc_inv_def lease_inv_def core_def)
  assume i: "i < length fls" "j < length fls" "i \<noteq> j" "flight_port (fls ! i) = Some p"
  have "apart (map lease_of fls)" using assms by (simp add: conc_inv_def lease_inv_def core_def)
  with i show "flight_port (fls ! j) \<noteq> Some p" unfolding apart_def flight_port_def
    by (metis length_map nth_map option.distinct(1))
qed

lemma flight_portE:
  assumes "flight_port fl = Some p"
  obtains sid b where "lease_of fl = Some (sid, p, b)"
  using assms by (cases "lease_of fl") (auto simp: flight_port_def)

lemma flight_port_ok:
  "lease_ok ps m (lease_of fl) \<Longrightarrow> flight_port fl = Some p \<Longrightarrow> p \<in> {port_min..port_max} - set ps"
  by (auto elim: flight_portE)

text \<open>C2 Under every interleaving of the requests, whatever fails in them, a port has one owner: no two
  registered services listen on the same one, no two creations underway or answered with success
  hold the same one, and the port that the pool hands out next belongs to none of them.\<close>

theorem conc_ports_exclusive:
  assumes "app_initialize ew cfg (s0, w0) = (Ok a0, s1, w1)"
    and "(conc_step h)\<^sup>*\<^sup>* ([], a0, s1, w1) (fls, a, s, w)"
  shows "(\<forall>k l svc svc'. dm_get (sr_services (ap_rathole a)) k = Some svc \<and> dm_get (sr_services (ap_rathole a)) l = Some svc'
        \<and> k \<noteq> l \<longrightarrow> rs_bind_addr svc \<noteq> rs_bind_addr svc')
    \<and> (\<forall>i j p. i < length fls \<and> j < length fls \<and> i \<noteq> j \<and> flight_port (fls ! i) = Some p \<longrightarrow> flight_port (fls ! j) \<noteq> Some p)
    \<and> (\<forall>p ports. allocate (ap_ports a) = (Ok p, ports) \<longrightarrow>
        (\<forall>k svc. dm_get (sr_services (ap_rathole a)) k = Some svc \<longrightarrow> rs_bind_addr svc \<noteq> bind_addr p)
        \<and> (\<forall>fl \<in> set fls. flight_port fl \<noteq> Some p))"
proof -
  note inv = conc_invD [OF conc_inv_reachable [OF assms]]
  show ?thesis
  proof (intro conjI allI impI ballI)
    fix k l svc svc'
    assume "dm_get (sr_services (ap_rathole a)) k = Some svc \<and> dm_get (sr_services (ap_rathole a)) l = Some svc' \<and> k \<noteq> l"
    with inv(1) show "rs_bind_addr svc \<noteq> rs_bind_addr svc'" unfolding owned_def by blast
  next
    fix i j p
    assume "i < length fls \<and> j < length fls \<and> i \<noteq> j \<and> flight_port (fls ! i) = Some p"
    then show "flight_port (fls ! j) \<noteq> Some p" using inv(3) by blast
  next
    fix p ports k svc
    assume "allocate (ap_ports a) = (Ok p, ports)" "dm_get (sr_services (ap_rathole a)) k = Some svc"
    then show "rs_bind_addr svc \<noteq> bind_addr p" using inv(1) owned_take(2) by (cases "ap_ports a") auto
  next
    fix p ports fl
    assume "allocate (ap_ports a) = (Ok p, ports)" "fl \<in> set fls"
    then obtain i where "i < length fls" "fl = fls ! i" "p \<in> set (ap_ports a)"
      by (cases "ap_ports a") (auto simp: in_set_conv_nth)
    with inv(2) [of i] show "flight_port fl \<noteq> Some p" by (auto elim: flight_portE)
  qed
qed

text \<open>C28 The pool never grows back: at any time the ports left in it, the creations underway that hold a port
  and all the creations ever answered with success are together at most 1000, however many
  sessions were deleted in between.\<close>

theorem conc_create_limit:
  assumes "app_initialize ew cfg (s0, w0) = (Ok a0, s1, w1)"
    and "(conc_step h)\<^sup>*\<^sup>* ([], a0, s1, w1) (fls, a, s, w)"
  shows "length (ap_ports a) + length (filter (\<lambda>fl. flight_port fl \<noteq> None) fls) \<le> 1000"
proof -
  note inv = conc_invD [OF conc_inv_reachable [OF assms]]
  let ?I = "{i. i < length fls \<and> flight_port (fls ! i) \<noteq> None}" let ?f = "\<lambda>i. the (flight_port (fls ! i))"
  have "inj_on ?f ?I"
    using inv(3) by (intro inj_onI) (metis (mono_tags, lifting) mem_Collect_eq option.collapse)
  moreover have "?f ` ?I \<subseteq> {port_min..port_max} - set (ap_ports a)"
    using flight_port_ok [OF inv(2)] by (intro image_subsetI) auto
  ultimately have "card ?I \<le> card ({port_min..port_max} - set (ap_ports a))"
    by (rule card_inj_on_le) simp
  also have "\<dots> = 1000 - length (ap_ports a)"
    using inv(1) by (subst card_Diff_subset) (auto simp: owned_def pool_ok_def port_range_card distinct_card)
  finally have "length (filter (\<lambda>fl. flight_port fl \<noteq> None) fls) \<le> 1000 - length (ap_ports a)"
    by (simp add: length_filter_conv_card)
  moreover have "length (ap_ports a) \<le> 1000"
    using inv(1) card_mono [of "{port_min..port_max}" "set (ap_ports a)"]
    by (simp add: owned_def pool_ok_def port_range_card distinct_card)
  ultimately show ?thesis by linarith
qed

section \<open>The life of a port\<close>

text \<open>
  What the outside can rely on, as a system of its own: a port is free, leased by a creation that is
  not answered yet, or used up; a lease ends by the port going back or by using it up.
\<close>

datatype port_status = PFree | PLeased | PUsed

inductive status_step :: "(u16 \<Rightarrow> port_status) \<Rightarrow> (u16 \<Rightarrow> port_status) \<Rightarrow> bool" where
  leased: "f p = PFree \<Longrightarrow> status_step f (f(p := PLeased))"
| returned: "f p = PLeased \<Longrightarrow> status_step f (f(p := PFree))"
| used_up: "f p = PLeased \<Longrightarrow> status_step f (f(p := PUsed))"

definition open_ports :: "lease list \<Rightarrow> u16 set" where
  "open_ports ls = {p. \<exists>sid b. Some (sid, p, b) \<in> set ls \<and> b \<noteq> LKept}"

definition lease_status :: "lease list \<Rightarrow> port_pool \<Rightarrow> u16 \<Rightarrow> port_status" where
  "lease_status ls ps p = (if p \<in> set ps then PFree else if p \<in> open_ports ls then PLeased else PUsed)"

definition port_status :: "'w conc_state \<Rightarrow> u16 \<Rightarrow> port_status" where
  "port_status c = (case c of (fls, st) \<Rightarrow> lease_status (map lease_of fls) (fst (core st)))"

lemma open_ports_update:
  assumes "apart ls" and "i < length ls"
  shows "open_ports (ls[i := l]) = (open_ports ls - set_option (lease_port (ls ! i))) \<union> open_ports [l]"
proof (rule set_eqI)
  fix p
  have other: "lease_port (ls ! j) \<noteq> Some p" if "j < length ls" "j \<noteq> i" "lease_port (ls ! i) = Some p" for j
    using assms that unfolding apart_def by (metis option.distinct(1))
  show "p \<in> open_ports (ls[i := l]) \<longleftrightarrow> p \<in> (open_ports ls - set_option (lease_port (ls ! i))) \<union> open_ports [l]"
  proof
    assume "p \<in> open_ports (ls[i := l])"
    then obtain j sid b where j: "j < length ls" "ls[i := l] ! j = Some (sid, p, b)" "b \<noteq> LKept"
      by (auto simp: open_ports_def in_set_conv_nth)
    show "p \<in> (open_ports ls - set_option (lease_port (ls ! i))) \<union> open_ports [l]"
    proof (cases "j = i")
      case True
      with j assms(2) show ?thesis by (auto simp: open_ports_def)
    next
      case False
      with j have ls: "Some (sid, p, b) \<in> set ls" "lease_port (ls ! j) = Some p" using nth_mem [OF j(1)] by auto
      then have "lease_port (ls ! i) \<noteq> Some p" using other [OF j(1) False] by blast
      with ls(1) j(3) show ?thesis by (auto simp: open_ports_def)
    qed
  next
    assume p: "p \<in> (open_ports ls - set_option (lease_port (ls ! i))) \<union> open_ports [l]"
    show "p \<in> open_ports (ls[i := l])"
    proof (cases "p \<in> open_ports [l]")
      case True
      with set_update_memI [OF assms(2), of l] show ?thesis by (auto simp: open_ports_def)
    next
      case False
      with p obtain j sid b where j: "j < length ls" "ls ! j = Some (sid, p, b)" "b \<noteq> LKept" "lease_port (ls ! i) \<noteq> Some p"
        by (auto simp: open_ports_def in_set_conv_nth)
      then have "j \<noteq> i" by auto
      with j have "ls[i := l] ! j = Some (sid, p, b)" "j < length (ls[i := l])" by simp_all
      with j(3) show ?thesis unfolding open_ports_def by (metis (mono_tags, lifting) mem_Collect_eq nth_mem)
    qed
  qed
qed

lemma open_ports_one [simp]:
  "open_ports [None] = {}" "open_ports [Some (sid, p, b)] = (if b = LKept then {} else {p})"
  by (auto simp: open_ports_def)

lemma lease_status_step:
  assumes "lease_inv (ls, ps, m)" and "i < length ls" and "lease_rule (ls ! i, ps, m) (l', ps', m')"
  shows "status_step\<^sup>*\<^sup>* (lease_status ls ps) (lease_status (ls[i := l']) ps')"
proof -
  have inv: "lease_ok ps m (ls ! i)" "apart ls" "pool_ok ps"
    using assms(1,2) by (auto simp: lease_inv_def owned_def)
  note up = open_ports_update [OF inv(2) assms(2)]
  have mem: "p \<in> open_ports ls" if "ls ! i = Some (sid, p, b)" "b \<noteq> LKept" for sid p b
    using that nth_mem [OF assms(2)] by (auto simp: open_ports_def)
  have same: ?thesis if "ps' = ps" "l' = ls ! i \<or> (\<exists>sid p b b'. ls ! i = Some (sid, p, b) \<and> l' = Some (sid, p, b') \<and> b \<noteq> LKept \<and> b' \<noteq> LKept)"
  proof -
    have "open_ports (ls[i := l']) = open_ports ls"
      using that(2)
    proof
      assume "l' = ls ! i"
      then show ?thesis by simp
    qed (use up mem in auto)
    with that(1) have "lease_status (ls[i := l']) ps' = lease_status ls ps"
      by (simp add: lease_status_def fun_eq_iff)
    then show ?thesis by simp
  qed
  from assms(3) show ?thesis
  proof (cases rule: lease_ruleE)
    case (take p sid)
    then have "p \<notin> set ps'" using inv(3) by (simp add: pool_ok_def)
    then have "lease_status (ls[i := l']) ps' = (lease_status ls ps)(p := PLeased)"
      using take up by (auto simp: lease_status_def fun_eq_iff)
    moreover have "lease_status ls ps p = PFree" using take by (simp add: lease_status_def)
    ultimately show ?thesis by (auto intro: status_step.leased)
  next
    case (give sid p)
    then have "set ps' = insert p (set ps)" using inv set_release_port [of ps p] by simp
    then have "lease_status (ls[i := l']) ps' = (lease_status ls ps)(p := PFree)"
      using give up inv(1) by (auto simp: lease_status_def fun_eq_iff)
    moreover have "lease_status ls ps p = PLeased" using give inv(1) mem by (simp add: lease_status_def)
    ultimately show ?thesis by (auto intro: status_step.returned)
  next
    case (leak sid p)
    then have "lease_status (ls[i := l']) ps' = (lease_status ls ps)(p := PUsed)"
      using up inv(1) by (auto simp: lease_status_def fun_eq_iff)
    moreover have "lease_status ls ps p = PLeased" using leak inv(1) mem by (simp add: lease_status_def)
    ultimately show ?thesis by (auto intro: status_step.used_up)
  next
    case (keep sid p)
    then have "lease_status (ls[i := l']) ps' = (lease_status ls ps)(p := PUsed)"
      using up inv(1) by (auto simp: lease_status_def fun_eq_iff)
    moreover have "lease_status ls ps p = PLeased" using keep inv(1) mem by (simp add: lease_status_def)
    ultimately show ?thesis by (auto intro: status_step.used_up)
  qed (use same in auto)
qed

lemma lease_status_arrive: "lease_status (ls @ [None]) ps = lease_status ls ps"
proof -
  have "open_ports (ls @ [None]) = open_ports ls" by (simp add: open_ports_def)
  then show ?thesis by (simp add: lease_status_def fun_eq_iff)
qed

lemma port_status_step:
  assumes "conc_inv c" and "conc_step h c c'"
  shows "status_step\<^sup>*\<^sup>* (port_status c) (port_status c')"
  using assms(2)
proof (cases rule: conc_step.cases)
  case (arrive fls fl st)
  then show ?thesis by (simp add: port_status_def lease_arriving lease_status_arrive)
next
  case (run fls i j st fl st')
  obtain ps m where c: "core st = (ps, m)" by force
  obtain ps' m' where c': "core st' = (ps', m')" by force
  have "lease_rule (map lease_of fls ! i, ps, m) (lease_of fl, ps', m')"
    using flight_step_lease [OF run(5)] run(4) c c' by simp
  with lease_status_step [of "map lease_of fls" ps m i] assms(1) run c c' show ?thesis
    by (simp add: conc_inv_def port_status_def map_update)
next
  case (others fls a s w m s' w')
  then show ?thesis by (simp add: port_status_def core_def)
qed

interpretation lifecycle: refined_system "conc_step h" conc_inv status_step "\<lambda>f. \<forall>p \<in> P. f p = PUsed" port_status for h P
proof unfold_locales
  show "\<forall>p \<in> P. g p = PUsed" if "\<forall>p \<in> P. f p = PUsed" "status_step f g" for f g
    using that(2,1) by (cases rule: status_step.cases) auto
qed (rule port_status_step)


section \<open>Concrete instances\<close>

lemma conc_ports_exclusive_witness:
  "\<exists>(a :: app_state) svc. dm_get (sr_services (ap_rathole a)) ''s'' = Some svc
     \<and> (\<forall>p ports. allocate (ap_ports a) = (Ok p, ports) \<longrightarrow> rs_bind_addr svc \<noteq> bind_addr p)"
proof (rule demo_conc)
  fix a resp a' s' w'
  assume "app_initialize demo_world demo_cfg (demo_fs, True) = (Ok a, clean_disk, True)"
    and "(conc_step demo_edge)\<^sup>*\<^sup>* ([], a, clean_disk, True)
          ([FCreate demo_req (CDone (Reply (Ok resp))), FDelete ''s'' DStart], a', s', w')"
    and s: "dm_get (sr_services (ap_rathole a')) ''s'' = Some (service_of demo_req 11000)"
  note ex = conc_ports_exclusive [OF this(1,2), THEN conjunct2, THEN conjunct2, rule_format, THEN conjunct1, rule_format, OF _ s]
  show ?thesis by (intro exI [of _ a'] exI conjI, rule s) (use ex in blast)
qed

lemma conc_create_limit_witness:
  "\<exists>(a :: app_state) (resp :: create_session_resp). length (ap_ports a)
     + length (filter (\<lambda>fl. flight_port fl \<noteq> None) [FCreate demo_req (CDone (Reply (Ok resp))), FDelete ''s'' DStart]) \<le> 1000"
proof (rule demo_conc)
  fix a resp a' s' w'
  assume "app_initialize demo_world demo_cfg (demo_fs, True) = (Ok a, clean_disk, True)"
    and "(conc_step demo_edge)\<^sup>*\<^sup>* ([], a, clean_disk, True)
          ([FCreate demo_req (CDone (Reply (Ok resp))), FDelete ''s'' DStart], a', s', w')"
  from conc_create_limit [OF this] show ?thesis by blast
qed


end
