(* ===== verification/EdgeRaces.thy ===== *)
theory EdgeRaces
  imports EdgeConcurrent PortLeases
begin

text \<open>
  Two ways in which concurrent or failing requests leave the parts of a session apart: a deletion
  that overtakes a creation, and a rollback that returns a port while its route is still there.
\<close>

section \<open>What interleaving breaks\<close>

lemma routes_of_memory:
  "ap_routes (fst (registry_memory op st)) = ap_routes (fst st)"
  "ap_subdomains (fst (registry_memory op st)) = ap_subdomains (fst st)"
  "ap_ports (fst (registry_memory op st)) = ap_ports (fst st)"
  by (cases st; simp add: registry_memory_def)+

lemma routes_of_write:
  "registry_write h st = (r, st') \<Longrightarrow> ap_routes (fst st') = ap_routes (fst st) \<and> ap_subdomains (fst st') = ap_subdomains (fst st)
     \<and> ap_ports (fst st') = ap_ports (fst st)"
  by (cases st) (auto simp: registry_write_def with_rathole_def split: prod.splits)

lemma add_route_Ok_fst:
  "with_caddy (add_route ac r) st = (Ok u, st') \<Longrightarrow> ap_routes (fst st') = dm_insert (cr_host r) r (ap_routes (fst st))
     \<and> ap_subdomains (fst st') = ap_subdomains (fst st) \<and> ap_ports (fst st') = ap_ports (fst st)"
  by (cases st) (auto simp: with_caddy_def split: prod.splits dest!: add_route_Ok_cache)

text \<open>A creation that is about to call the SFU.\<close>

lemma create_before_sfu:
  assumes "(create_step h req ^^ 4) (CStart, st) = (CProvision p, st1)"
  shows "ap_ports (fst st) = p # ap_ports (fst st1) \<and> ap_subdomains (fst st1) = ap_subdomains (fst st)
    \<and> dm_get (ap_routes (fst st1)) (req_subdomain req) = Some (route_of req p)"
proof -
  obtain a s w where st: "st = (a, s, w)" by (metis prod_cases3)
  obtain q free where q: "ap_ports a = q # free"
    using assms by (cases "ap_ports a") (auto simp: st numeral_eq_Suc funpow_front simp del: funpow.simps)
  let ?st0 = "(a\<lparr>ap_ports := free\<rparr>, s, w)"
  obtain r1 st' where 1: "registry_write h (registry_memory (Register (service_of req q)) ?st0) = (r1, st')" by (metis surj_pair)
  obtain r2 st'' where 2: "with_caddy (add_route (eh_caddy h) (route_of req q)) st' = (r2, st'')" by (metis surj_pair)
  have "r1 = Ok () \<and> r2 = Ok () \<and> q = p \<and> st'' = st1"
    using assms 1 2
    by (cases r1; cases r2) (simp_all add: st q numeral_eq_Suc funpow_front del: funpow.simps)
  with q routes_of_write [OF 1] add_route_Ok_fst [of _ _ st' _ st''] 2 show ?thesis
    by (auto simp: st routes_of_memory route_of_def)
qed

text \<open>C10 A deletion that overtakes a creation of the same session, between its route and its SFU session,
  leaves half a session: both are answered with success, the host is routed and the SFU session
  lives, but the tunnel behind the route is registered nowhere.\<close>

theorem create_races_delete:
  assumes "(create_step h req ^^ 4) (CStart, st) = (CProvision p, st1)"
    and "dm_get (ap_subdomains (fst st)) (req_session_id req) = None"
    and "deprovision h (req_session_id req) st1 = (code, st2)"
    and "(create_step h req ^^ 3) (CProvision p, st2) = (CDone (Reply (Ok resp)), a, s, w)"
  shows "(conc_step h)\<^sup>*\<^sup>* ([FCreate req CStart, FDelete (req_session_id req) DStart], st)
      ([FCreate req (CDone (Reply (Ok resp))), FDelete (req_session_id req) (DDone 204)], a, s, w)
    \<and> dm_get (sr_services (ap_rathole a)) (req_session_id req) = None
    \<and> dm_get (ap_routes a) (req_subdomain req) = Some (route_of req (resp_local_upstream_port resp))
    \<and> dm_get (rm_sessions (ap_sfu a)) (req_session_id req) \<noteq> None"
proof -
  let ?sid = "req_session_id req"
  obtain a1 s1 w1 where st1: "st1 = (a1, s1, w1)" by (metis prod_cases3)
  obtain a2 s2 w2 where st2: "st2 = (a2, s2, w2)" by (metis prod_cases3)
  note before = create_before_sfu [OF assms(1)]
  have del: "code = 204" "dm_get (sr_services (ap_rathole a2)) ?sid = None"
    using deprovision_forget [of h ?sid a1 s1 w1 code a2 s2 w2] assms(3) st1 st2 by simp_all
  have "dm_get (ap_subdomains a1) ?sid = None" using before assms(2) st1 by simp
  then have routes: "ap_routes a2 = ap_routes a1"
    using deprovision_routes [of h ?sid a1 s1 w1 code a2 s2 w2] assms(3) st1 st2 by simp
  obtain r m w3 where pr: "provision_session (eh_engine h) ?sid (ap_sfu a2, w2) = (r, m, w3)" by (metis prod_cases3)
  obtain pr' where r: "r = Ok pr'"
    using assms(4) pr by (cases r) (auto simp: st2 numeral_eq_Suc funpow_front with_defs split: rm_error.splits simp del: funpow.simps)
  have last: "a = a2\<lparr>ap_sfu := m, ap_subdomains := dm_insert ?sid (req_subdomain req) (ap_subdomains a2)\<rparr>"
    "resp_local_upstream_port resp = p"
    using assms(4) pr r
    by (auto simp: st2 numeral_eq_Suc funpow_front with_defs create_resp_def split: prod.splits simp del: funpow.simps)
  have "fold (delete_step h ?sid) join_order (DStart, st1) = (DDone 204, st2)"
    using handlers_alone(3) [of h ?sid st1] assms(3) del(1) by simp
  then have "(conc_step h)\<^sup>*\<^sup>* ([FCreate req CStart, FDelete ?sid DStart], st)
      ([FCreate req (CDone (Reply (Ok resp))), FDelete ?sid (DDone 204)], a, s, w)"
    using create_run [OF assms(1)] delete_run [of h ?sid join_order DStart st1 "DDone 204" st2 req "CProvision p"]
      create_run [OF assms(4)] by (meson aborted.simps rtranclp_trans)
  then show ?thesis
    using del routes before provision_Ok_session [OF pr [unfolded r]] by (auto simp: last st1)
qed

lemma release_lowest: "pool_ok (p # free) \<Longrightarrow> release_port p free = p # free"
  by (cases free) (auto simp: pool_ok_def release_port_def insort_insert_key_def)

text \<open>C3 A creation that fails in the SFU ignores that it could not take its route back, and returns the port
  at once: the next creation gets that very port, and the host of the failed session now leads into
  the tunnel of another session.\<close>

theorem rollback_route_reused:
  assumes "pool_ok (ap_ports (fst st))"
    and "(create_step h req ^^ 4) (CStart, st) = (CProvision p, a1, s1, w1)"
    and "provision_session (eh_engine h) (req_session_id req) (ap_sfu a1, w1) = (Err (Fail e), m, w2)"
    and "remove_route (eh_caddy h) (req_subdomain req) (ap_routes a1, w2) = (Err e', c, w3)"
    and "create h req st = (reply, st2)"
    and "create h req' st2 = (Reply (Ok resp), a, s, w)" and "req_subdomain req' \<noteq> req_subdomain req"
  shows "reply = Reply (Err 500) \<and> resp_local_upstream_port resp = p
    \<and> dm_get (sr_services (ap_rathole a)) (req_session_id req') = Some (service_of req' p)
    \<and> dm_get (ap_routes a) (req_subdomain req) = Some (route_of req p)"
proof -
  have before: "ap_ports (fst st) = p # ap_ports a1" "dm_get (ap_routes a1) (req_subdomain req) = Some (route_of req p)"
    using create_before_sfu [OF assms(2)] by simp_all
  have c: "c = ap_routes a1" using remove_route_cache [OF assms(4)] by simp
  let ?st5 = "registry_memory (Deregister (req_session_id req)) (a1\<lparr>ap_sfu := m, ap_routes := c\<rparr>, s1, w3)"
  obtain r6 a6 s6 w6 where w: "registry_write h ?st5 = (r6, a6, s6, w6)" by (metis prod_cases4)
  have "(create_step h req ^^ 9) (CStart, st) = (create_step h req ^^ 5) (CProvision p, a1, s1, w1)"
    using assms(2) funpow_add [of 5 4 "create_step h req"] by simp
  also have "\<dots> = (CDone (Reply (Err 500)), a6\<lparr>ap_ports := release_port p (ap_ports a6)\<rparr>, s6, w6)"
    using assms(3,4) w by (simp add: numeral_eq_Suc funpow_front with_defs del: funpow.simps)
  finally have "reply = Reply (Err 500)" "st2 = (a6\<lparr>ap_ports := release_port p (ap_ports a6)\<rparr>, s6, w6)"
    using handlers_alone(1) [of h req st] assms(5) by auto
  moreover have "ap_ports a6 = ap_ports a1" "ap_routes a6 = ap_routes a1"
    using routes_of_write [OF w] by (simp_all add: routes_of_memory c)
  moreover have "release_port p (ap_ports a1) = p # ap_ports a1"
    using release_lowest assms(1) before(1) by simp
  ultimately show ?thesis
    using create_Ok_parts [of h req' "a6\<lparr>ap_ports := release_port p (ap_ports a6)\<rparr>" s6 w6 resp a s w] assms(6,7) before(2)
    by simp
qed

section \<open>Concrete runs\<close>

lemma demo_started_simps:
  "demo_start a \<Longrightarrow> ap_sfu a = demo_rm" "demo_start a \<Longrightarrow> sr_config_path (ap_rathole a) = [''r.toml'']"
  "demo_start a \<Longrightarrow> ap_routes a = []" "demo_start a \<Longrightarrow> ap_subdomains a = []" "demo_start a \<Longrightarrow> ap_ports a = port_allocator_new"
  by (simp_all add: demo_start_def registry_new_def)

lemma demo_edge_simps [simp]:
  "eh_toml demo_edge = demo_enc" "eh_rathole demo_edge = bool_host" "eh_engine demo_edge = demo_engine"
  "ac_http (eh_caddy demo_edge) = ok_http" "req_session_id demo_req = ''s''" "req_subdomain demo_req = ''a.b''"
  by (simp_all add: demo_edge_def app_caddy_def with_upstreams_def demo_req_def)

lemma clean_demo_disk: "demo_disk clean_disk"
  by (simp add: clean_disk_def demo_disk_def)

text \<open>A deletion of a session that only the registry knows leaves the SFU and the world alone.\<close>

lemma demo_deprovision:
  assumes "rm_sessions (ap_sfu a) = []" and "dm_get (ap_subdomains a) ''s'' = None"
  shows "\<exists>a' s'. deprovision demo_edge ''s'' (a, s, w) = (204, a', s', w) \<and> ap_sfu a' = ap_sfu a"
proof -
  have persist: "\<exists>res s'. persist_and_reload demo_enc bool_host r (s, w) = (res, s', w)" for r s and w :: bool
    by (auto simp: persist_and_reload_def trigger_reload_def bool_host_def Let_def split: prod.splits result.splits)
  have dereg: "\<exists>res a' s'. with_rathole (registry_deregister demo_enc bool_host k) (a, s, w) = (res, a', s', w) \<and> ap_sfu a' = ap_sfu a"
    for k a s and w :: bool
  proof -
    let ?r = "(ap_rathole a)\<lparr>sr_services := dm_remove k (sr_services (ap_rathole a))\<rparr>"
    obtain res s' where "persist_and_reload demo_enc bool_host ?r (s, w) = (res, s', w)" using persist by blast
    then show ?thesis by (auto simp: with_rathole_def registry_deregister_def Let_def)
  qed
  let ?a = "a\<lparr>ap_subdomains := dm_remove ''s'' (ap_subdomains a)\<rparr>"
  obtain r1 s1 where 1: "sub_remove (eh_store demo_edge) ''s'' s = (r1, s1)" by force
  obtain r2 a2 s2 where 2: "with_rathole (registry_deregister demo_enc bool_host ''s'') (?a, s1, w) = (r2, a2, s2, w)"
    "ap_sfu a2 = ap_sfu a" using dereg [of "''s''" ?a s1 w] by auto
  obtain r3 a3 s3 where 3: "with_rathole (registry_deregister demo_enc bool_host (''s'' @ ''-rtp'')) (a2, s2, w) = (r3, a3, s3, w)"
    "ap_sfu a3 = ap_sfu a" using dereg [of "''s'' @ ''-rtp''" a2 s2 w] 2(2) by metis
  have "close_session demo_engine ''s'' (ap_sfu a, w) = (ap_sfu a, w)"
    using assms(1) by (simp add: close_session_def)
  then have "deprovision demo_edge ''s'' (a, s, w) = (204, a3\<lparr>ap_sfu := ap_sfu a\<rparr>, s3, w)"
    using 1 2 3 assms(2) by (simp add: deprovision_def Let_def with_store_def with_sfu_def)
  then show ?thesis by (intro exI [of _ "a3\<lparr>ap_sfu := ap_sfu a\<rparr>"] exI [of _ s3]) simp
qed

lemma create_races_delete_witness:
  "\<exists>(a :: app_state) (resp :: create_session_resp). dm_get (sr_services (ap_rathole a)) ''s'' = None
     \<and> dm_get (ap_routes a) ''a.b'' = Some (route_of demo_req (resp_local_upstream_port resp))
     \<and> dm_get (rm_sessions (ap_sfu a)) ''s'' \<noteq> None"
proof -
  obtain a where a: "demo_start a" using demo_started by blast
  obtain free where ports: "ap_ports a = 11000 # free" using port_allocator_new_Cons demo_started_simps(5) [OF a] by auto
  obtain a1 s1 where 1: "(create_step demo_edge demo_req ^^ 4) (CStart, a, clean_disk, True) = (CProvision 11000, a1, s1, True)"
    "ap_sfu a1 = demo_rm" "ap_subdomains a1 = []"
    using demo_four [OF clean_demo_disk demo_started_simps(2) [OF a] ports, of demo_edge demo_req True]
      demo_started_simps [OF a] by auto
  obtain a2 s2 where 2: "deprovision demo_edge ''s'' (a1, s1, True) = (204, a2, s2, True)" "ap_sfu a2 = demo_rm"
    using demo_deprovision [of a1 s1 True] 1 by (auto simp: demo_rm_def)
  obtain pr m where 3: "provision_session demo_engine ''s'' (demo_rm, True) = (Ok pr, m, True)"
    using demo_provision by blast
  obtain resp a3 s3 w3 where 4: "(create_step demo_edge demo_req ^^ 3) (CProvision 11000, a2, s2, True)
      = (CDone (Reply (Ok resp)), a3, s3, w3)"
    using 2(2) 3 by (cases "sub_save (eh_store demo_edge) ''s'' ''a.b'' s2")
      (auto simp: numeral_eq_Suc funpow_front with_sfu_def with_store_def simp del: funpow.simps)
  have "dm_get (sr_services (ap_rathole a3)) ''s'' = None \<and> dm_get (ap_routes a3) ''a.b'' = Some (route_of demo_req (resp_local_upstream_port resp))
     \<and> dm_get (rm_sessions (ap_sfu a3)) ''s'' \<noteq> None"
    using create_races_delete [OF 1(1) _ _ 4] demo_started_simps(4) [OF a] 2(1) by simp
  then show ?thesis by blast
qed

text \<open>The SFU refuses until Caddy has been asked, in vain, to take the route back.\<close>

definition flip_http :: "bool caddy_http" where
  "flip_http = ok_http\<lparr>h_delete := (\<lambda>_ w. (Err ''refused'', True))\<rparr>"

definition flip_edge :: "bool edge_host" where
  "flip_edge = demo_edge\<lparr>eh_caddy := app_caddy flip_http demo_cfg\<rparr>"

lemma flip_edge_simps [simp]:
  "eh_toml flip_edge = demo_enc" "eh_rathole flip_edge = bool_host" "eh_engine flip_edge = demo_engine"
  "ac_http (eh_caddy flip_edge) = flip_http" "h_put flip_http = h_put ok_http" "h_get flip_http = h_get ok_http"
  by (simp_all add: flip_edge_def flip_http_def app_caddy_def with_upstreams_def)

definition next_req :: create_session_req where
  "next_req = demo_req\<lparr>req_session_id := ''t'', req_subdomain := ''c.d''\<rparr>"

lemma rollback_route_reused_witness:
  "\<exists>(a :: app_state) (resp :: create_session_resp). resp_local_upstream_port resp = 11000
     \<and> dm_get (sr_services (ap_rathole a)) ''t'' = Some (service_of next_req 11000)
     \<and> dm_get (ap_routes a) ''a.b'' = Some (route_of demo_req 11000)"
proof -
  let ?h = flip_edge
  obtain a where a: "demo_start a" using demo_started by blast
  obtain free where ports: "ap_ports a = 11000 # free" using port_allocator_new_Cons demo_started_simps(5) [OF a] by auto
  obtain a1 s1 where 1: "(create_step ?h demo_req ^^ 4) (CStart, a, clean_disk, False) = (CProvision 11000, a1, s1, False)"
    "ap_sfu a1 = demo_rm" "ap_ports a1 = free" "sr_config_path (ap_rathole a1) = [''r.toml'']" "demo_disk s1"
    using demo_four [OF clean_demo_disk demo_started_simps(2) [OF a] ports, of ?h demo_req False]
      demo_started_simps [OF a] by auto
  obtain e m where 2: "provision_session demo_engine ''s'' (demo_rm, False) = (Err (Fail e), m, False)"
    "rm_sessions m = []" "rm_webrtc_servers m = [''srv'']" "rm_workers m = 1"
    using demo_provision_any(2) [of demo_rm "''s''"] by (auto simp: demo_rm_def)
  obtain e' where 3: "remove_route (eh_caddy ?h) ''a.b'' (ap_routes a1, False) = (Err e', ap_routes a1, True)"
    by (simp add: remove_route_def rbind_def request_def flip_http_def)
  let ?a4 = "fst (registry_memory (Deregister ''s'') (a1\<lparr>ap_sfu := m\<rparr>, s1, True))"
  obtain s4 where 4: "registry_write ?h (?a4, s1, True) = (Ok (), ?a4, s4, True)" "demo_disk s4"
    using demo_write [OF 1(5), of ?a4 ?h True] 1(4) by (auto simp: registry_memory_def)
  let ?a5 = "?a4\<lparr>ap_ports := release_port 11000 free\<rparr>"
  have "(create_step ?h demo_req ^^ 9) (CStart, a, clean_disk, False) = (create_step ?h demo_req ^^ 5) (CProvision 11000, a1, s1, False)"
    using 1(1) funpow_add [of 5 4 "create_step ?h demo_req"] by simp
  also have "\<dots> = (CDone (Reply (Err 500)), ?a5, s4, True)"
    using 1(2,3) 2(1) 3 4(1) by (simp add: numeral_eq_Suc funpow_front with_defs registry_memory_def del: funpow.simps)
  finally have c1: "create ?h demo_req (a, clean_disk, False) = (Reply (Err 500), ?a5, s4, True)"
    using handlers_alone(1) [of ?h demo_req "(a, clean_disk, False)"] by (auto split: prod.splits)
  have pool: "pool_ok (11000 # free)" using port_allocator_new_ok ports demo_started_simps(5) [OF a]
    by (simp add: ports.partitioned_def)
  have p5: "ap_ports ?a5 = 11000 # free" using release_lowest [OF pool] by simp
  obtain a6 s6 where 6: "(create_step ?h next_req ^^ 4) (CStart, ?a5, s4, True) = (CProvision 11000, a6, s6, True)" "ap_sfu a6 = m"
    using demo_four [OF 4(2) _ p5, of ?h next_req True] 1(4) by (auto simp: registry_memory_def)
  obtain pr m' where 7: "provision_session demo_engine ''t'' (m, True) = (Ok pr, m', True)"
    using demo_provision_any(1) [OF 2(2-4)] by blast
  obtain resp a8 s8 w8 where 8: "(create_step ?h next_req ^^ 3) (CProvision 11000, a6, s6, True) = (CDone (Reply (Ok resp)), a8, s8, w8)"
    using 6(2) 7 by (cases "sub_save (eh_store ?h) ''t'' ''c.d'' s6")
      (auto simp: numeral_eq_Suc funpow_front with_sfu_def with_store_def next_req_def simp del: funpow.simps)
  have "(create_step ?h next_req ^^ 9) (CStart, ?a5, s4, True)
      = (create_step ?h next_req ^^ 2) ((create_step ?h next_req ^^ 3) ((create_step ?h next_req ^^ 4) (CStart, ?a5, s4, True)))"
    using funpow_add [of 5 4 "create_step ?h next_req"] funpow_add [of 2 3 "create_step ?h next_req"] by simp
  then have c2: "create ?h next_req (?a5, s4, True) = (Reply (Ok resp), a8, s8, w8)"
    using 6(1) 8 handlers_alone(1) [of ?h next_req "(?a5, s4, True)"] by (auto split: prod.splits)
  have "pool_ok (ap_ports (fst (a, clean_disk, False)))" using pool ports by simp
  from rollback_route_reused [OF this 1(1), of e m False e' "ap_routes a1" True, OF _ _ c1 c2] 1(2) 2(1) 3 show ?thesis
    by (auto simp: next_req_def)
qed

end
