(* ===== verification/EdgeServer.thy ===== *)
theory EdgeServer
  imports EdgeConcurrent PortLeases
begin

text \<open>
  The whole edge server: its start (\<open>main.rs\<close>), the table of its routes (\<open>routes/mod.rs\<close>) and one
  transition system for everything that runs in it, the requests on tunnels in flight, the steps of
  the SFU on behalf of viewers and monitors, and the rest of the world. It refines two systems at
  once, the concurrent tunnels of \<open>EdgeConcurrent\<close> and the SFU of \<open>RouterManager\<close>, and inherits
  the invariants of both; every endpoint is a run of it.
\<close>

section \<open>The start\<close>

definition edge_main :: "nat option \<Rightarrow> 'w edge_world \<Rightarrow> fs \<times> 'w \<Rightarrow> (u16 \<times> app_state, string) result \<times> fs \<times> 'w" where
  "edge_main parallelism ew sw =
     (case edge_config_from_env parallelism (ew_env ew) of
        Err e \<Rightarrow> (Err e, sw)
      | Ok cfg \<Rightarrow>
          (case app_initialize ew cfg sw of
             (Err e, sw) \<Rightarrow> (Err (fail_text e), sw)
           | (Ok a, sw) \<Rightarrow> (Ok (ec_bind_port cfg, a), sw)))"

section \<open>The routes\<close>

datatype http_method = GET | POST | PATCH | DELETE

datatype endpoint =
    Tunnels_create | Tunnels_deprovision | Tunnels_update_token | Sfu_create_router | Sfu_remove_viewer
  | Sfu_ws | Verify_tunnel | Snapshot_get | Healthz_check

definition route_table :: "(string \<times> http_method \<times> endpoint) list" where
  "route_table =
     [(''/v1/tunnels'', POST, Tunnels_create),
      (''/v1/tunnels/:id'', DELETE, Tunnels_deprovision),
      (''/v1/tunnels/:id/token'', PATCH, Tunnels_update_token),
      (''/v1/tunnels/:id/sfu/router'', POST, Sfu_create_router),
      (''/v1/tunnels/:id/sfu/viewer/:viewer_id'', DELETE, Sfu_remove_viewer),
      (''/v1/sfu/viewer/ws'', GET, Sfu_ws),
      (''/v1/tunnel/verify'', POST, Verify_tunnel),
      (''/v1/state/snapshot'', GET, Snapshot_get),
      (''/healthz'', GET, Healthz_check)]"

text \<open>A request as axum hands it to a handler.\<close>

datatype server_request =
    RqCreate create_session_req
  | RqDeprovision session_id
  | RqUpdateToken session_id string
  | RqCreateRouter session_id string
  | RqRemoveViewer session_id string
  | RqWs u64 string headers string "ws_in list"
  | RqVerify string string
  | RqSnapshot
  | RqHealthz

datatype server_reply =
    ReCreate "create_session_resp reply"
  | ReStatus nat
  | ReRouter "(consumer_transport_info \<times> consumer_transport_info, nat) result"
  | ReUpgrade "(unit, status_code) result"
  | ReVerify nat verify_response
  | ReSnapshot state_snapshot
  | ReHealth health_response

type_synonym 'w server_parts = "'w edge_state \<times> bridges"

fun serve :: "'w edge_host \<Rightarrow> 'w ws_host \<Rightarrow> server_request \<Rightarrow> 'w server_parts \<Rightarrow> server_reply \<times> 'w server_parts" where
  "serve h hw (RqCreate req) (st, bs) = (case create h req st of (r, st) \<Rightarrow> (ReCreate r, st, bs))"
| "serve h hw (RqDeprovision sid) (st, bs) = (case deprovision h sid st of (code, st) \<Rightarrow> (ReStatus code, st, bs))"
| "serve h hw (RqUpdateToken sid tok) (st, bs) = (case update_token h sid tok st of (code, st) \<Rightarrow> (ReStatus code, st, bs))"
| "serve h hw (RqCreateRouter sid vid) (st, bs) = (case create_router h sid vid st of (r, st) \<Rightarrow> (ReRouter r, st, bs))"
| "serve h hw (RqRemoveViewer sid vid) (st, bs) =
     (case remove_viewer_handler h sid vid st of (code, st) \<Rightarrow> (ReStatus code, st, bs))"
| "serve h hw (RqWs nanos session hdrs peer_ip frames) ((a, s, w), bs) =
     (case ws_handler hw nanos session hdrs peer_ip frames (ap_sfu a, bs, w) of
        (r, m, bs, w) \<Rightarrow> (ReUpgrade r, (a\<lparr>ap_sfu := m\<rparr>, s, w), bs))"
| "serve h hw (RqVerify token region) ((a, s, w), bs) =
     (case verify_tunnel_handler h token region w of ((code, body), w) \<Rightarrow> (ReVerify code body, (a, s, w), bs))"
| "serve h hw RqSnapshot (st, bs) = (ReSnapshot (snapshot h st), st, bs)"
| "serve h hw RqHealthz (st, bs) = (ReHealth (healthz h st), st, bs)"

section \<open>Everything that runs\<close>

type_synonym 'w server_state = "flight list \<times> 'w edge_state \<times> bridges"

inductive server_step :: "'w edge_host \<Rightarrow> 'w ws \<Rightarrow> env \<Rightarrow> 'w server_state \<Rightarrow> 'w server_state \<Rightarrow> bool"
  for h ws env where
  arrive: "\<not> list_ex aborted fls \<Longrightarrow> arriving fl \<Longrightarrow> server_step h ws env (fls, st, bs) (fls @ [fl], st, bs)"
| run: "\<not> list_ex aborted fls \<Longrightarrow> i < length fls \<Longrightarrow> flight_step h j (fls ! i) st = (fl, st') \<Longrightarrow>
     server_step h ws env (fls, st, bs) (fls[i := fl], st', bs)"
| sfu: "\<not> list_ex aborted fls \<Longrightarrow> rm_step (eh_engine h) ws env (ap_sfu a, bs, w) (m, bs', w') \<Longrightarrow>
     server_step h ws env (fls, (a, s, w), bs) (fls, (a\<lparr>ap_sfu := m\<rparr>, s, w'), bs')"
| elsewhere: "\<not> list_ex aborted fls \<Longrightarrow> server_step h ws env (fls, (a, s, w), bs) (fls, (a, s', w'), bs)"

definition tunnels_of :: "'w server_state \<Rightarrow> 'w conc_state" where
  "tunnels_of c = (case c of (fls, st, bs) \<Rightarrow> (fls, st))"

definition sfu_of :: "'w server_state \<Rightarrow> router_manager \<times> bridges \<times> 'w" where
  "sfu_of c = (case c of (fls, (a, s, w), bs) \<Rightarrow> (ap_sfu a, bs, w))"

section \<open>The two systems it refines\<close>

lemma server_conc_step: "server_step h ws env c c' \<Longrightarrow> conc_step h (tunnels_of c) (tunnels_of c')"
proof (cases rule: server_step.cases, assumption)
  fix fls a s w and s' :: fs and w' bs
  assume "c = (fls, (a, s, w), bs)" "c' = (fls, (a, s', w'), bs)" "\<not> list_ex aborted fls"
  then show ?thesis using conc_step.others [of fls h a s w "ap_sfu a" s' w'] by (simp add: tunnels_of_def)
qed (auto simp: tunnels_of_def intro: conc_step.intros)

text \<open>What a step of a tunnel request does to the SFU.\<close>

lemma sfu_same [simp]:
  "ap_sfu (fst (snd (registry_write h st))) = ap_sfu (fst st)"
  "ap_sfu (fst (snd (with_caddy f st))) = ap_sfu (fst st)"
  "ap_sfu (fst (snd (with_store g st))) = ap_sfu (fst st)"
  "ap_sfu (fst (registry_memory op st)) = ap_sfu (fst st)"
  by (cases st; simp add: registry_write_def with_rathole_def with_caddy_def with_store_def registry_memory_def
      case_prod_beta)+

lemma sfu_same_res:
  "registry_write h st = (r, st') \<Longrightarrow> ap_sfu (fst st') = ap_sfu (fst st)"
  "with_caddy f st = (r', st') \<Longrightarrow> ap_sfu (fst st') = ap_sfu (fst st)"
  by (metis sfu_same snd_conv)+

definition sfu_part :: "'w edge_state \<Rightarrow> router_manager \<times> 'w" where
  "sfu_part st = (ap_sfu (fst st), snd (snd st))"

lemma with_sfu_part: "with_sfu f st = (r, st') \<Longrightarrow> f (sfu_part st) = (r, sfu_part st')"
  by (cases st) (auto simp: with_sfu_def sfu_part_def split: prod.splits)

lemma create_step_sfu:
  assumes "create_step h req (pc, st) = (pc', st')"
  shows "ap_sfu (fst st') = ap_sfu (fst st)
    \<or> (\<exists>r. provision_session (eh_engine h) (req_session_id req) (sfu_part st) = (r, sfu_part st'))"
proof (cases pc)
  case (CProvision p)
  with assms show ?thesis by (auto split: prod.splits result.splits rm_error.splits dest!: with_sfu_part)
next
  case CStart
  with assms show ?thesis by (cases st) (auto split: prod.splits result.splits)
next
  case (CRelease p)
  with assms show ?thesis by (cases st) auto
next
  case (CMap p pr)
  with assms show ?thesis by (cases st) auto
next
  case (CSave p pr)
  with assms show ?thesis by (cases st) auto
qed (use assms in \<open>auto split: prod.splits result.splits dest: sfu_same_res\<close>)

lemma delete_step_sfu:
  assumes "delete_step h sid i (pc, st) = (pc', st')"
  shows "ap_sfu (fst st') = ap_sfu (fst st) \<or> (\<exists>k. close_session (eh_engine h) k (sfu_part st) = sfu_part st')"
proof -
  have task: "ap_sfu (fst (delete_task_run h t st)) = ap_sfu (fst st)
      \<or> (\<exists>k. close_session (eh_engine h) k (sfu_part st) = sfu_part (delete_task_run h t st))" for t
  proof (cases t)
    case (JClose k)
    obtain r st1 where 1: "with_sfu (\<lambda>x. ((), close_session (eh_engine h) k x)) st = (r, st1)" by (metis surj_pair)
    with with_sfu_part [OF 1] JClose show ?thesis by auto
  qed simp_all
  show ?thesis
  proof (cases pc)
    case DStart
    with assms show ?thesis by (cases st) auto
  next
    case (DJoin ts)
    with assms task show ?thesis by (auto split: if_splits list.splits)
  qed (use assms in auto)
qed

lemma token_step_sfu: "token_step h sid tok (pc, st) = (pc', st') \<Longrightarrow> ap_sfu (fst st') = ap_sfu (fst st)"
  by (cases pc) (auto split: if_splits prod.splits result.splits dest: sfu_same_res)

lemma flight_step_sfu:
  assumes "flight_step h i fl st = (fl', st')"
  shows "(rm_step (eh_engine h) ws env)\<^sup>*\<^sup>* (ap_sfu (fst st), bs, snd (snd st)) (ap_sfu (fst st'), bs, snd (snd st'))"
proof -
  have same: ?thesis if "ap_sfu (fst st') = ap_sfu (fst st)"
    using that step_world [of "eh_engine h" ws env "ap_sfu (fst st)" bs "snd (snd st)" "snd (snd st')"] by auto
  show ?thesis
  proof (cases fl)
    case (FCreate req pc)
    with assms obtain pc' where "create_step h req (pc, st) = (pc', st')" by (auto split: prod.splits)
    from create_step_sfu [OF this] show ?thesis
      by (rule disjE) (use same step_provision in \<open>auto simp: sfu_part_def intro!: r_into_rtranclp\<close>)
  next
    case (FDelete sid pc)
    with assms obtain pc' where "delete_step h sid i (pc, st) = (pc', st')" by (auto split: prod.splits)
    from delete_step_sfu [OF this] show ?thesis
      by (rule disjE) (use same step_close in \<open>auto simp: sfu_part_def intro!: r_into_rtranclp\<close>)
  next
    case (FToken sid tok pc)
    with assms obtain pc' where "token_step h sid tok (pc, st) = (pc', st')" by (auto split: prod.splits)
    from token_step_sfu [OF this] show ?thesis by (rule same)
  qed
qed

lemma server_sfu_step:
  "server_step h ws env c c' \<Longrightarrow> (rm_step (eh_engine h) ws env)\<^sup>*\<^sup>* (sfu_of c) (sfu_of c')"
proof (cases rule: server_step.cases, assumption)
  fix fls i j st fl st' bs
  assume c: "c = (fls, st, bs)" "c' = (fls[i := fl], st', bs)" and f: "flight_step h j (fls ! i) st = (fl, st')"
  from flight_step_sfu [OF f] show ?thesis by (simp add: c sfu_of_def case_prod_beta)
next
  fix fls a s w s' w' bs
  assume c: "c = (fls, (a, s, w), bs)" "c' = (fls, (a, s', w'), bs)"
  then show ?thesis using step_world [of "eh_engine h" ws env "ap_sfu a" bs w w'] by (simp add: sfu_of_def r_into_rtranclp)
qed (auto simp: sfu_of_def case_prod_beta)

interpretation sfu: invariant_system "rm_step eng ws env" "\<lambda>c. rm_ok (fst c)" for eng ws env
  by unfold_locales (rule rm_ok_step)

interpretation server_tunnels:
  refined_system "server_step h ws env" "\<lambda>_. True" "conc_step h" conc_inv tunnels_of for h ws env
  by unfold_locales (auto intro: server_conc_step)

interpretation server_types:
  refined_system "server_step h ws env" "\<lambda>_. True" "conc_step h" "\<lambda>c. edge_typed (fst (snd c))" tunnels_of for h ws env
  by unfold_locales (auto intro: server_conc_step)

interpretation server_viewers:
  refined_system "server_step h ws env" "\<lambda>_. True" "rm_step (eh_engine h) ws env" "\<lambda>c. rm_ok (fst c)" sfu_of for h ws env
  by unfold_locales (auto intro: server_sfu_step)

lemma edge_main_initialize:
  "edge_main parallelism ew sw = (Ok (port, a), sw') \<Longrightarrow>
     \<exists>cfg. edge_config_from_env parallelism (ew_env ew) = Ok cfg \<and> port = ec_bind_port cfg \<and> app_initialize ew cfg sw = (Ok a, sw')"
  by (auto simp: edge_main_def split: result.splits prod.splits)

lemma rm_new_empty: "rm_new eng n li w = (Ok rm, w') \<Longrightarrow> rm_sessions rm = []"
  by (auto simp: rm_new_def rbind_Ok_iff split: if_splits)

lemma edge_main_fresh:
  "edge_main parallelism ew sw = (Ok (port, a), sw') \<Longrightarrow> rm_sessions (ap_sfu a) = []"
  by (auto simp: edge_main_def app_initialize_def rm_new_empty split: result.splits prod.splits)

text \<open>C18 The server keeps its shape: from its start on, whatever mixture of tunnel requests, viewers, monitors
  and failures it goes through, the maps have one entry per key under the right key, the free ports
  are sorted and of the range, every viewer is filed under its id with a whole input channel or
  none, and no session has more than 30 viewers.\<close>

theorem server_well_typed:
  assumes "edge_main parallelism ew sw = (Ok (port, a0), s0, w0)"
    and "(server_step h ws env)\<^sup>*\<^sup>* ([], (a0, s0, w0), bs0) (fls, (a, s, w), bs)"
  shows "edge_typed a \<and> rm_ok (ap_sfu a)"
proof -
  obtain cfg where init: "app_initialize ew cfg sw = (Ok a0, s0, w0)" using edge_main_initialize [OF assms(1)] by blast
  then have "edge_typed a0" by (cases sw) (simp add: typed_start)
  moreover have "rm_ok (ap_sfu a0)" using edge_main_fresh [OF assms(1)] by (simp add: rm_ok_def)
  ultimately show ?thesis
    using server_types.pulled_back.inv_run [OF assms(2)] server_viewers.pulled_back.inv_run [OF assms(2)]
    by (simp add: tunnels_of_def sfu_of_def)
qed

section \<open>Every endpoint is a run\<close>

abbreviation viewer_run :: "'w ws_host \<Rightarrow> 'w sfu_state \<Rightarrow> 'w sfu_state \<Rightarrow> bool" where
  "viewer_run h \<equiv> (rm_step (wh_engine h) (wh_neko h) (wh_env h))\<^sup>*\<^sup>*"

lemma run_world: "(rm_step eng ws env)\<^sup>*\<^sup>* st (rm, bs, w) \<Longrightarrow> (rm_step eng ws env)\<^sup>*\<^sup>* st (rm, bs, w')"
  using step_world by (meson rtranclp.rtrancl_into_rtrancl)

lemma sock_run: "sock h out st = (r, st') \<Longrightarrow> viewer_run h st st'"
  by (cases st) (auto simp: sock_def intro: run_world [OF rtranclp.rtrancl_refl] split: prod.splits)

lemma keep_sock_run:
  assumes "keep_caps caps (sock h out st) = (r, st')"
  shows "viewer_run h st st'"
proof -
  obtain r1 st1 where 1: "sock h out st = (r1, st1)" by (metis surj_pair)
  with assms have "st' = st1" by (auto simp: keep_caps_def split: result.splits)
  with sock_run [OF 1] show ?thesis by simp
qed

lemma keep_error_run: "keep_caps caps (send_error h code st) = (r, st') \<Longrightarrow> viewer_run h st st'"
  by (simp add: send_error_def keep_sock_run)

text \<open>The same after a call that changes the world only.\<close>

lemma world_run: "(rm_step eng ws env)\<^sup>*\<^sup>* (rm, bs, w1) st \<Longrightarrow> (rm_step eng ws env)\<^sup>*\<^sup>* (rm, bs, w) st"
  using step_world by (meson converse_rtranclp_into_rtranclp)

lemmas world_keep_run = world_run [OF keep_sock_run] world_run [OF keep_error_run]

lemma sfu_consume_run:
  assumes "sfu_consume eng sid vid producer caps (rm, w) = (r, rm', w')"
  shows "(rm_step eng ws env)\<^sup>*\<^sup>* (rm, bs, w) (rm', bs, w')"
proof -
  obtain r1 w1 where 1: "consume_begin eng rm sid vid producer caps w = (r1, w1)" by force
  have start: "(rm_step eng ws env)\<^sup>*\<^sup>* (rm, bs, w) (rm, bs, w1)" by (rule run_world [OF rtranclp.rtrancl_refl])
  show ?thesis
  proof (cases r1)
    case (Ok c)
    with assms 1 have "consume_commit eng sid vid c (rm, w1) = (r, rm', w')" by (simp add: sfu_consume_def)
    with start step_consume show ?thesis by (meson rtranclp.rtrancl_into_rtrancl)
  next
    case (Err e)
    with assms 1 start show ?thesis by (simp add: sfu_consume_def)
  qed
qed

lemma produce_input_run:
  assumes "produce_input_data eng ws env sid vid options (rm, bs, w) = (r, rm', bs', w')"
  shows "(rm_step eng ws env)\<^sup>*\<^sup>* (rm, bs, w) (rm', bs', w')"
proof (cases "input_begin rm sid vid")
  case (Ok x)
  show ?thesis
  proof (cases x)
    case (Inr send)
    obtain r1 w1 where 1: "io_ctx ''produce_data on send transport'' (ms_produce_data eng send options) w = (r1, w1)" by force
    obtain r2 rm2 bs2 w2 where 2: "input_ensure eng ws env sid (rm, bs, w1) = (r2, rm2, bs2, w2)" by (metis prod_cases4)
    have s1: "(rm_step eng ws env)\<^sup>*\<^sup>* (rm, bs, w) (rm, bs, w1)" by (rule run_world [OF rtranclp.rtrancl_refl])
    have s2: "(rm_step eng ws env)\<^sup>*\<^sup>* (rm, bs, w) (rm2, bs2, w2)"
      using s1 step_input_ensure [OF 2] by (rule rtranclp.rtrancl_into_rtrancl)
    show ?thesis
    proof (cases r1)
      case (Err e)
      with assms Ok Inr 1 s1 show ?thesis by (simp add: produce_input_data_def)
    next
      case o1: (Ok producer)
      show ?thesis
      proof (cases r2)
        case (Err e)
        with assms Ok Inr 1 2 o1 s2 show ?thesis by (auto simp: produce_input_data_def intro: run_world)
      next
        case o2: (Ok y)
        obtain dt bridge where y: "y = (dt, bridge)" by force
        obtain r3 w3 where 3: "io_ctx ''consume_data on direct transport'' (ms_consume_data eng dt producer) w2 = (r3, w3)" by force
        show ?thesis
        proof (cases r3)
          case (Err e)
          with assms Ok Inr 1 2 3 o1 o2 s2 show ?thesis by (auto simp: produce_input_data_def y intro: run_world)
        next
          case o3: (Ok consumer)
          obtain r4 rm4 w4 where 4: "input_commit eng sid vid producer consumer (rm2, w3) = (r4, rm4, w4)" by (metis prod_cases3)
          have "(rm', bs', w') = (rm4, bs2, w4)" using assms Ok Inr 1 2 3 4 o1 o2 o3 by (simp add: produce_input_data_def y)
          with run_world [OF s2, of w3] step_input_commit [OF 4] show ?thesis
            by (simp add: rtranclp.rtrancl_into_rtrancl)
        qed
      qed
    qed
  qed (use assms Ok in \<open>simp add: produce_input_data_def\<close>)
qed (use assms in \<open>simp add: produce_input_data_def\<close>)

lemma handle_message_run:
  assumes "handle_message h sid vid msg caps st = (r, st')"
  shows "viewer_run h st st'"
proof -
  obtain rm bs w where st: "st = (rm, bs, w)" by (metis prod_cases3)
  show ?thesis
  proof (cases msg)
    case (Consume producer)
    show ?thesis
    proof (cases caps)
      case None
      with assms Consume have "keep_caps caps (send_error h ''consume_before_init'' st) = (r, st')"
        by (simp add: handle_message_def st)
      then show ?thesis by (rule keep_error_run)
    next
      case (Some c)
      obtain r1 rm1 w1 where 1: "sfu_consume (wh_engine h) sid vid producer c (rm, w) = (r1, rm1, w1)" by (metis prod_cases3)
      have "viewer_run h (rm1, bs, w1) st'"
        using assms Consume Some 1
        by (cases r1) (simp_all add: handle_message_def st keep_error_run keep_sock_run)
      with sfu_consume_run [OF 1] show ?thesis unfolding st by (rule rtranclp_trans)
    qed
  next
    case (ProduceInput sctp lbl protocol)
    obtain r1 rm1 bs1 w1 where 1: "produce_input_data (wh_engine h) (wh_neko h) (wh_env h) sid vid (input_options sctp lbl protocol) (rm, bs, w)
        = (r1, rm1, bs1, w1)" by (metis prod_cases4)
    have "viewer_run h (rm1, bs1, w1) st'"
      using assms ProduceInput 1
      by (cases r1) (simp_all add: handle_message_def st keep_error_run keep_sock_run)
    with produce_input_run [OF 1] show ?thesis unfolding st by (rule rtranclp_trans)
  next
    case (CInit c)
    with assms show ?thesis by (simp add: handle_message_def st)
  next
    case (ConnectConsumerTransport dtls)
    with assms show ?thesis
      by (auto simp: handle_message_def st split: prod.splits result.splits intro: world_keep_run)
  next
    case (ConnectInputTransport dtls)
    with assms show ?thesis
      by (auto simp: handle_message_def st split: prod.splits result.splits intro: world_keep_run)
  next
    case (ConsumerResume cid)
    with assms show ?thesis
      by (auto simp: handle_message_def st split: prod.splits result.splits
          intro: world_keep_run run_world [OF rtranclp.rtrancl_refl])
  next
    case (SetPreferredLayers cid spatial temporal)
    with assms show ?thesis
      by (auto simp: handle_message_def st split: prod.splits result.splits
          intro: world_keep_run run_world [OF rtranclp.rtrancl_refl])
  qed
qed

lemma frame_loop_run: "frame_loop h sid vid fs caps st = (r, st') \<Longrightarrow> viewer_run h st st'"
proof (induction fs arbitrary: caps st)
  case (Cons f fs)
  show ?case
  proof (cases f)
    case (Text t)
    show ?thesis
    proof (cases "client_message_of (wh_wire h) t")
      case (Some msg)
      obtain r1 st1 where 1: "handle_message h sid vid msg caps st = (r1, st1)" by (metis surj_pair)
      note s1 = handle_message_run [OF 1]
      show ?thesis
      proof (cases r1)
        case (Ok caps')
        with Cons Text Some 1 have "viewer_run h st1 st'" by simp
        with s1 show ?thesis by (rule rtranclp_trans)
      next
        case (Err e)
        with Cons.prems Text Some 1 s1 show ?thesis by simp
      qed
    qed (use Cons Text in simp)
  next
    case (Ping p)
    obtain r1 st1 where 1: "sock h (OutPong p) st = (r1, st1)" by (metis surj_pair)
    note s1 = sock_run [OF 1]
    show ?thesis
    proof (cases r1)
      case (Ok u)
      with Cons Ping 1 have "viewer_run h st1 st'" by simp
      with s1 show ?thesis by (rule rtranclp_trans)
    next
      case (Err e)
      with Cons.prems Ping 1 s1 show ?thesis by simp
    qed
  qed (use Cons in simp_all)
qed simp

lemma run_session_run:
  assumes "run_session h sid vid ip ua frames st = (r, st')"
  shows "viewer_run h st st'"
proof -
  obtain rm bs w where st: "st = (rm, bs, w)" by (metis prod_cases3)
  obtain r1 rm1 w1 where 1: "create_consumer_transports (wh_engine h) sid vid (rm, w) = (r1, rm1, w1)" by (metis prod_cases3)
  have s1: "viewer_run h st (rm1, bs, w1)" unfolding st using step_join [OF 1] by (rule r_into_rtranclp)
  show ?thesis
  proof (cases r1)
    case (Err e)
    then obtain out where "st' = snd (sock h out (rm1, bs, w1))"
      using assms 1 by (auto simp: run_session_def st Let_def)
    with sock_run have "viewer_run h (rm1, bs, w1) st'" by (metis prod.collapse)
    with s1 show ?thesis by (rule rtranclp_trans)
  next
    case (Ok infos)
    obtain recv send where infos: "infos = (recv, send)" by force
    obtain r2 w2 where 2: "wh_callback h (ViewerConnected sid (Some vid) ip ua) w1 = (r2, w2)" by force
    have s2: "viewer_run h st (rm1, bs, w2)" by (rule run_world [OF s1])
    show ?thesis
    proof (cases "session_producer_info (wh_engine h) rm1 sid")
      case (Err e)
      with assms 1 2 Ok infos s2 show ?thesis by (simp add: run_session_def st)
    next
      case o2: (Ok info)
      obtain producer audio caps where info: "info = (producer, audio, caps)" by (metis prod_cases3)
      obtain r3 st3 where 3: "sock h (OutJson (build_init_payload recv send producer audio caps)) (rm1, bs, w2) = (r3, st3)"
        by (metis surj_pair)
      have s3: "viewer_run h st st3" using s2 sock_run [OF 3] by (rule rtranclp_trans)
      obtain r4 st4 where 4: "frame_loop h sid vid frames None st3 = (r4, st4)" by (metis surj_pair)
      have "st' = (if is_ok r3 then st4 else st3)"
        using assms 1 2 3 4 Ok infos o2 info by (cases r3; cases r4) (simp_all add: run_session_def st)
      with s3 rtranclp_trans [OF s3 frame_loop_run [OF 4]] show ?thesis by simp
    qed
  qed
qed

lemma ws_task_run: "viewer_run h st (ws_task h sid vid ip ua frames st)"
proof -
  obtain r rm bs w where 1: "run_session h sid vid ip ua frames st = (r, rm, bs, w)" by (metis prod_cases4)
  obtain rm2 w2 where 2: "remove_viewer (wh_engine h) sid vid (rm, w) = (rm2, w2)" by force
  have "viewer_run h st (rm2, bs, w2)"
    using run_session_run [OF 1] step_leave [OF 2] by (rule rtranclp.rtrancl_into_rtrancl)
  then have "viewer_run h st (rm2, bs, w3)" for w3 by (rule run_world)
  with 1 2 \<open>viewer_run h st (rm2, bs, w2)\<close> show ?thesis
    by (cases r) (auto simp: ws_task_def Let_def split: prod.split)
qed

text \<open>The runs of the parts are runs of the server.\<close>

lemma server_sfu_run:
  assumes "(rm_step (eh_engine h) ws env)\<^sup>*\<^sup>* (ap_sfu a, bs, w) (m, bs', w')" and "\<not> list_ex aborted fls"
  shows "(server_step h ws env)\<^sup>*\<^sup>* (fls, (a, s, w), bs) (fls, (a\<lparr>ap_sfu := m\<rparr>, s, w'), bs')"
  using assms(1)
proof (induction "(m, bs', w')" arbitrary: m bs' w' rule: rtranclp_induct)
  case base
  then show ?case by simp
next
  case (step y)
  obtain m1 bs1 w1 where y: "y = (m1, bs1, w1)" by (metis prod_cases3)
  have "server_step h ws env (fls, (a\<lparr>ap_sfu := m1\<rparr>, s, w1), bs1) (fls, (a\<lparr>ap_sfu := m\<rparr>, s, w'), bs')"
    using server_step.sfu [of fls h ws env "a\<lparr>ap_sfu := m1\<rparr>" bs1 w1 m bs' w' s] assms(2) step.hyps(2) y by simp
  with step.hyps(3) [OF y] show ?case by (rule rtranclp.rtrancl_into_rtrancl)
qed

lemma server_flight_run:
  assumes "\<not> list_ex aborted fls" and "flight_step h i fl st = (fl', st')"
  shows "(server_step h ws env)\<^sup>*\<^sup>* (fls @ [fl], st, bs) (fls @ [fl'], st', bs)"
proof (cases "aborted fl")
  case True
  then have "fl' = fl \<and> st' = st" using assms(2) by (auto elim!: aborted.elims)
  then show ?thesis by simp
next
  case False
  then show ?thesis
    using server_step.run [where fls = "fls @ [fl]" and i = "length fls" and j = i and fl = fl' and st = st and st' = st'] assms
    by (auto simp: nth_append)
qed

lemma server_create_run:
  "\<not> list_ex aborted fls \<Longrightarrow> (create_step h req ^^ n) (pc, st) = (pc', st') \<Longrightarrow>
     (server_step h ws env)\<^sup>*\<^sup>* (fls @ [FCreate req pc], st, bs) (fls @ [FCreate req pc'], st', bs)"
proof (induction n arbitrary: pc' st')
  case (Suc n)
  obtain pc1 st1 where 1: "(create_step h req ^^ n) (pc, st) = (pc1, st1)" by (metis surj_pair)
  then have "flight_step h 0 (FCreate req pc1) st1 = (FCreate req pc', st')" using Suc.prems(2) by simp
  from rtranclp_trans [OF Suc.IH [OF Suc.prems(1) 1] server_flight_run [OF Suc.prems(1) this]] show ?case .
qed simp

lemma server_token_run:
  "\<not> list_ex aborted fls \<Longrightarrow> (token_step h sid tok ^^ n) (pc, st) = (pc', st') \<Longrightarrow>
     (server_step h ws env)\<^sup>*\<^sup>* (fls @ [FToken sid tok pc], st, bs) (fls @ [FToken sid tok pc'], st', bs)"
proof (induction n arbitrary: pc' st')
  case (Suc n)
  obtain pc1 st1 where 1: "(token_step h sid tok ^^ n) (pc, st) = (pc1, st1)" by (metis surj_pair)
  then have "flight_step h 0 (FToken sid tok pc1) st1 = (FToken sid tok pc', st')" using Suc.prems(2) by simp
  from rtranclp_trans [OF Suc.IH [OF Suc.prems(1) 1] server_flight_run [OF Suc.prems(1) this]] show ?case .
qed simp

lemma server_delete_run:
  "\<not> list_ex aborted fls \<Longrightarrow> fold (delete_step h sid) is (pc, st) = (pc', st') \<Longrightarrow>
     (server_step h ws env)\<^sup>*\<^sup>* (fls @ [FDelete sid pc], st, bs) (fls @ [FDelete sid pc'], st', bs)"
proof (induction "is" arbitrary: pc st)
  case (Cons i "is")
  obtain pc1 st1 where 1: "delete_step h sid i (pc, st) = (pc1, st1)" by (metis surj_pair)
  then have "flight_step h i (FDelete sid pc) st = (FDelete sid pc1, st1)" by simp
  moreover have "fold (delete_step h sid) is (pc1, st1) = (pc', st')" using Cons.prems(2) 1 by simp
  ultimately show ?case
    by (rule rtranclp_trans [OF server_flight_run [OF Cons.prems(1)] Cons.IH [OF Cons.prems(1)]])
qed simp

lemma server_arrive_run:
  "\<not> list_ex aborted fls \<Longrightarrow> arriving fl \<Longrightarrow> (server_step h ws env)\<^sup>*\<^sup>* (fls, st, bs) (fls @ [fl], st, bs)"
  by (rule r_into_rtranclp) (rule server_step.arrive)

lemma server_tunnel_run:
  assumes "\<not> list_ex aborted fls"
  shows "create h req st = (r, st') \<Longrightarrow> (server_step h ws env)\<^sup>*\<^sup>* (fls, st, bs) (fls @ [FCreate req (CDone r)], st', bs)"
    and "deprovision h sid st = (code, st') \<Longrightarrow> (server_step h ws env)\<^sup>*\<^sup>* (fls, st, bs) (fls @ [FDelete sid (DDone code)], st', bs)"
    and "update_token h sid tok st = (code, st') \<Longrightarrow> (server_step h ws env)\<^sup>*\<^sup>* (fls, st, bs) (fls @ [FToken sid tok (KDone code)], st', bs)"
proof -
  assume "create h req st = (r, st')"
  then have r: "(create_step h req ^^ 9) (CStart, st) = (CDone r, st')" using handlers_alone(1) [of h req st] by simp
  show "(server_step h ws env)\<^sup>*\<^sup>* (fls, st, bs) (fls @ [FCreate req (CDone r)], st', bs)"
    by (rule rtranclp_trans [OF server_arrive_run [OF assms] server_create_run [OF assms r]]) simp
next
  assume "deprovision h sid st = (code, st')"
  then have r: "fold (delete_step h sid) join_order (DStart, st) = (DDone code, st')" using handlers_alone(3) [of h sid st] by simp
  show "(server_step h ws env)\<^sup>*\<^sup>* (fls, st, bs) (fls @ [FDelete sid (DDone code)], st', bs)"
    by (rule rtranclp_trans [OF server_arrive_run [OF assms] server_delete_run [OF assms r]]) simp
next
  assume "update_token h sid tok st = (code, st')"
  then have r: "(token_step h sid tok ^^ 2) (KStart, st) = (KDone code, st')" using handlers_alone(2) [of h sid tok st] by simp
  show "(server_step h ws env)\<^sup>*\<^sup>* (fls, st, bs) (fls @ [FToken sid tok (KDone code)], st', bs)"
    by (rule rtranclp_trans [OF server_arrive_run [OF assms] server_token_run [OF assms r]]) simp
qed

text \<open>Every request of a viewer, over HTTP or on its socket, is a run of the viewers.\<close>

lemma viewer_requests_run:
  assumes "serve h hw rq ((a, s, w), bs) = (reply, st', bs')" and "wh_engine hw = eh_engine h"
    and "\<exists>sid vid. rq = RqCreateRouter sid vid \<or> rq = RqRemoveViewer sid vid \<or> (\<exists>n hdrs ip frames. rq = RqWs n sid hdrs ip frames)"
  shows "\<exists>m w1. st' = (a\<lparr>ap_sfu := m\<rparr>, s, w1) \<and> viewer_run hw (ap_sfu a, bs, w) (m, bs', w1)"
proof -
  from assms(3) consider (join) sid vid where "rq = RqCreateRouter sid vid" | (leave) sid vid where "rq = RqRemoveViewer sid vid"
    | (ws) nanos sid hdrs ip frames where "rq = RqWs nanos sid hdrs ip frames" by blast
  then show ?thesis
  proof cases
    case join
    obtain r m w1 where 1: "create_consumer_transports (eh_engine h) sid vid (ap_sfu a, w) = (r, m, w1)" by (metis prod_cases3)
    with join assms(1) have "st' = (a\<lparr>ap_sfu := m\<rparr>, s, w1)" "bs' = bs" by (auto simp: create_router_def with_sfu_def)
    with step_join [OF 1] assms(2) show ?thesis by (auto simp: r_into_rtranclp)
  next
    case leave
    obtain m w1 where 1: "remove_viewer (eh_engine h) sid vid (ap_sfu a, w) = (m, w1)" by force
    with leave assms(1) have "st' = (a\<lparr>ap_sfu := m\<rparr>, s, w1)" "bs' = bs" by (auto simp: remove_viewer_handler_def with_sfu_def)
    with step_leave [OF 1] assms(2) show ?thesis by (auto simp: r_into_rtranclp)
  next
    case ws
    obtain r m bs1 w1 where 1: "ws_handler hw nanos sid hdrs ip frames (ap_sfu a, bs, w) = (r, m, bs1, w1)" by (metis prod_cases4)
    with ws assms(1) have "st' = (a\<lparr>ap_sfu := m\<rparr>, s, w1)" "bs' = bs1" by auto
    moreover have "viewer_run hw (ap_sfu a, bs, w) (m, bs1, w1)"
      using 1 ws_task_run [of hw "(ap_sfu a, bs, w)" sid "mint_viewer_id nanos" "client_ip hdrs ip" "hdrs ''user-agent''" frames]
      by (auto simp: ws_handler_def split: result.splits)
    ultimately show ?thesis by blast
  qed
qed


text \<open>The table is the code's: no two routes have the same path and method, which axum would refuse at the
  start, and no handler is unreachable.\<close>

lemma route_table_sound:
  "distinct (map (\<lambda>(p, m, e). (p, m)) route_table) \<and> distinct (map (\<lambda>(p, m, e). e) route_table) \<and> length route_table = 9"
  by (simp add: route_table_def)

section \<open>Concrete runs\<close>

definition server_env :: env where
  "server_env n = (if n = ''REGION_ID'' then Some ''sin'' else if n = ''DUN_API_ENDPOINT'' then Some ''http://h:3010'' else None)"

lemma demo_main:
  "\<exists>a s. edge_main (Some 1) (demo_world\<lparr>ew_env := server_env\<rparr>) (demo_fs, True) = (Ok (8443, a), s, True) \<and> ap_sfu a = demo_rm"
proof -
  have li: "listen_from_env Some server_env = Ok demo_listen"
    by (simp add: listen_from_env_def env_ip_def env_u16_def res_bind_def demo_listen_def default_rtc_min_port_def
        default_rtc_max_port_def default_plain_rtp_min_port_def default_plain_rtp_max_port_def server_env_def)
  have rm: "rm_new demo_engine 1 demo_listen True = (Ok demo_rm, True)"
    by (simp add: rm_new_def rbind_def io_ctx_def demo_engine_def demo_rm_def)
  obtain cfg where cfg: "edge_config_from_env (Some 1) server_env = Ok cfg" "ec_bind_port cfg = 8443" "ec_sfu_workers cfg = 1"
    "ec_share_tunnel_domain cfg = None"
    by (simp add: edge_config_from_env_def server_env_def num_cpus_or_default_def)
  obtain m s1 where sub: "load_subdomains (path_of (ec_persistent_queue_dir cfg)) demo_fs = (m, s1)" by force
  show ?thesis
    using cfg li rm sub
    by (simp add: edge_main_def app_initialize_def demo_world_def caddy_bootstrap_def)
qed

lemma server_well_typed_witness:
  "\<exists>a :: app_state. edge_typed a \<and> rm_ok (ap_sfu a)"
proof -
  obtain a s where m: "edge_main (Some 1) (demo_world\<lparr>ew_env := server_env\<rparr>) (demo_fs, True) = (Ok (8443, a), s, True)"
    using demo_main by blast
  obtain r a' s' w' where c: "create demo_edge demo_req (a, s, True) = (r, a', s', w')" by (metis prod_cases4)
  let ?bs = "\<lparr>bs_registry = [], bs_store = [], bs_next = 0\<rparr>"
  have "(server_step demo_edge (wh_neko demo_host) (wh_env demo_host))\<^sup>*\<^sup>* ([], (a, s, True), ?bs) ([FCreate demo_req CStart], (a, s, True), ?bs)"
    using server_step.arrive [of "[]" "FCreate demo_req CStart"] by (intro r_into_rtranclp) simp
  moreover have "(server_step demo_edge (wh_neko demo_host) (wh_env demo_host))\<^sup>*\<^sup>* ([FCreate demo_req CStart], (a, s, True), ?bs)
      ([FCreate demo_req (CDone r)], (a', s', w'), ?bs)"
    using server_create_run [of "[]" 9 demo_edge demo_req CStart "(a, s, True)" "CDone r" "(a', s', w')"]
      handlers_alone(1) [of demo_edge demo_req "(a, s, True)"] c by simp
  ultimately have "(server_step demo_edge (wh_neko demo_host) (wh_env demo_host))\<^sup>*\<^sup>* ([], (a, s, True), ?bs)
      ([FCreate demo_req (CDone r)], (a', s', w'), ?bs)" by (rule rtranclp_trans)
  from server_well_typed [OF m this] show ?thesis by blast
qed


end
