(* ===== verification/PocSfu.thy ===== *)
theory PocSfu
  imports SfuWs
begin

text \<open>
  \<open>poc/neko-sfu/src/bin/sfu_main.rs\<close>: the stand-alone SFU. One router and one producer for the
  whole process, created on demand in \<open>OnceCell\<close>s; one actor per viewer, whose handlers only
  touch its own state, send it messages and spawn tasks. mediasoup is the parameter
  \<open>poc_engine\<close>. The actor is a transition system: a frame arrives, the first message of its
  mailbox is handled, a spawned task runs, mediasoup delivers a message of the input channel, or
  something else happens in the process. A task runs on the thread of the actor and its messages
  are sent after its last wait, so they are put into the mailbox together.
\<close>

section \<open>Configuration\<close>

record sfu_listen =
  sl_listen_ip :: ip
  sl_announced_ip :: ip
  sl_rtc_min_port :: u16
  sl_rtc_max_port :: u16
  sl_plain_rtp_port :: u16
  sl_plain_rtcp_port :: u16

definition parse_env_or :: "(string \<Rightarrow> 'a option) \<Rightarrow> env \<Rightarrow> string \<Rightarrow> 'a \<Rightarrow> 'a" where
  "parse_env_or parse env key dflt = (case Option.bind (env key) parse of Some v \<Rightarrow> v | None \<Rightarrow> dflt)"

text \<open>What \<open>main\<close> reads from the environment: the address to bind and the listen configuration.\<close>

definition poc_config :: "(string \<Rightarrow> ip option) \<Rightarrow> env \<Rightarrow> (string \<times> u16) \<times> sfu_listen" where
  "poc_config parse_ip env =
     (let bind_host = (case env ''SFU_LISTEN_HOST'' of Some h \<Rightarrow> h | None \<Rightarrow> ''0.0.0.0'')
      in ((bind_host, parse_env_or parse_u16 env ''SFU_LISTEN_PORT'' 4443),
          \<lparr>sl_listen_ip = (case parse_ip bind_host of Some i \<Rightarrow> i | None \<Rightarrow> ''0.0.0.0''),
           sl_announced_ip = parse_env_or parse_ip env ''SFU_PUBLIC_IP'' ''127.0.0.1'',
           sl_rtc_min_port = parse_env_or parse_u16 env ''SFU_RTC_PORT_MIN'' 40000,
           sl_rtc_max_port = parse_env_or parse_u16 env ''SFU_RTC_PORT_MAX'' 40100,
           sl_plain_rtp_port = parse_env_or parse_u16 env ''SFU_PLAIN_RTP_PORT'' 5004,
           sl_plain_rtcp_port = parse_env_or parse_u16 env ''SFU_PLAIN_RTCP_PORT'' 5005\<rparr>))"

section \<open>The shared resources\<close>

record poc_webrtc_options =
  wo_listen :: listen_opts
  wo_enable_sctp :: bool
  wo_max_send_message_size :: u32

record 'w poc_engine =
  px_create_worker :: "('w, (string, string) result) io"
  px_create_router :: "string \<Rightarrow> codec_capability list \<Rightarrow> ('w, (string, string) result) io"
  px_caps :: "string \<Rightarrow> json"
  px_create_direct :: "string \<Rightarrow> ('w, (string, string) result) io"
  px_create_plain :: "string \<Rightarrow> plain_transport_options \<Rightarrow> ('w, (plain_transport, string) result) io"
  px_produce :: "string \<Rightarrow> media_kind \<Rightarrow> rtp_parameters \<Rightarrow> ('w, (string, string) result) io"
  px_create_webrtc :: "string \<Rightarrow> poc_webrtc_options \<Rightarrow> ('w, (webrtc_transport, string) result) io"
  px_connect :: "string \<Rightarrow> json \<Rightarrow> ('w, (unit, string) result) io"
  px_consume :: "string \<Rightarrow> string \<Rightarrow> json \<Rightarrow> bool \<Rightarrow> ('w, (consumer, string) result) io"
  px_resume :: "string \<Rightarrow> ('w, (unit, string) result) io"
  px_produce_data :: "string \<Rightarrow> json \<Rightarrow> ('w, (string, string) result) io"
  px_consume_data :: "string \<Rightarrow> string \<Rightarrow> ('w, (string, string) result) io"
  px_drop :: "string list \<Rightarrow> 'w \<Rightarrow> 'w"

record poc_app =
  pa_router :: "string option"
  pa_plain_producer :: "(string \<times> string) option"
  pa_direct_transport :: "string option"

definition poc_app_new :: poc_app where
  "poc_app_new = \<lparr>pa_router = None, pa_plain_producer = None, pa_direct_transport = None\<rparr>"

text \<open>\<open>OnceCell::get_or_try_init\<close>: the cell is filled by the first success, and never changes again.\<close>

definition get_or_try_init ::
  "'a option \<Rightarrow> ('w, ('a, string) result) io \<Rightarrow> 'w \<Rightarrow> ('a, string) result \<times> 'a option \<times> 'w" where
  "get_or_try_init cell init w =
     (case cell of
        Some v \<Rightarrow> (Ok v, Some v, w)
      | None \<Rightarrow> (case init w of (Ok v, w) \<Rightarrow> (Ok v, Some v, w) | (Err e, w) \<Rightarrow> (Err e, None, w)))"

text \<open>\<open>map_err(|e| anyhow!("<what>: <e>"))\<close>, and the drop of what an error leaves behind.\<close>

definition px_ctx :: "string \<Rightarrow> ('w, ('a, string) result) io \<Rightarrow> ('w, ('a, string) result) io" where
  "px_ctx what m w = (case m w of (r, w) \<Rightarrow> (map_err (\<lambda>e. what @ '': '' @ e) r, w))"

definition px_or_drop :: "'w poc_engine \<Rightarrow> string list \<Rightarrow> ('w, ('a, string) result) io \<Rightarrow> ('w, ('a, string) result) io" where
  "px_or_drop px ids m w = (case m w of (Ok x, w) \<Rightarrow> (Ok x, w) | (Err e, w) \<Rightarrow> (Err e, px_drop px ids w))"

definition poc_media_codecs :: "codec_capability list" where
  "poc_media_codecs =
     [\<lparr>cap_mime = Opus, cap_clock_rate = 48000, cap_channels = Some 2, cap_parameters = [(''useinbandfec'', 1)],
       cap_feedback = [TransportCc]\<rparr>,
      \<lparr>cap_mime = Vp8, cap_clock_rate = 90000, cap_channels = None, cap_parameters = [],
       cap_feedback = [NackPli, CcmFir, GoogRemb, TransportCc]\<rparr>]"

definition ensure_router :: "'w poc_engine \<Rightarrow> poc_app \<times> 'w \<Rightarrow> (string, string) result \<times> poc_app \<times> 'w" where
  "ensure_router px = (\<lambda>(a, w).
     case get_or_try_init (pa_router a)
            (rbind (px_ctx ''create worker'' (px_create_worker px)) (\<lambda>worker.
               px_or_drop px [worker] (px_ctx ''create router'' (px_create_router px worker poc_media_codecs)))) w of
       (r, cell, w) \<Rightarrow> (r, a\<lparr>pa_router := cell\<rparr>, w))"

definition ensure_direct_transport ::
  "'w poc_engine \<Rightarrow> poc_app \<times> 'w \<Rightarrow> (string, string) result \<times> poc_app \<times> 'w" where
  "ensure_direct_transport px s =
     (case ensure_router px s of
        (Err e, a, w) \<Rightarrow> (Err e, a, w)
      | (Ok router, a, w) \<Rightarrow>
          (case get_or_try_init (pa_direct_transport a)
                  (px_ctx ''create direct transport'' (px_create_direct px router)) w of
             (r, cell, w) \<Rightarrow> (r, a\<lparr>pa_direct_transport := cell\<rparr>, w)))"

section \<open>The plain producer\<close>

definition poc_payload_type :: u8 where "poc_payload_type = 96"
definition poc_clock_rate :: u32 where "poc_clock_rate = 90000"
definition poc_ssrc :: u32 where "poc_ssrc = 22222222"

definition poc_plain_options :: "sfu_listen \<Rightarrow> plain_transport_options" where
  "poc_plain_options li =
     \<lparr>po_listen = \<lparr>lo_ip = sl_listen_ip li, lo_announced_address = Some (sl_announced_ip li),
        lo_expose_internal_ip = False, lo_port = Some (sl_plain_rtp_port li), lo_port_range = None\<rparr>,
      po_comedia = True\<rparr>"

definition poc_rtp_parameters :: rtp_parameters where
  "poc_rtp_parameters =
     \<lparr>rp_codecs = [\<lparr>co_mime = Vp8, co_payload_type = poc_payload_type, co_clock_rate = poc_clock_rate,
         co_channels = None, co_parameters = [], co_feedback = []\<rparr>],
      rp_encodings = [\<lparr>en_ssrc = Some poc_ssrc, en_codec_payload_type = None, en_max_bitrate = None\<rparr>]\<rparr>"

record plain_producer_info =
  ppi_producer_id :: string
  ppi_rtp_listen_ip :: ip
  ppi_rtp_listen_port :: u16
  ppi_rtcp_listen_port :: u16
  ppi_payload_type :: u8
  ppi_clock_rate :: u32
  ppi_encoding_name :: string
  ppi_ssrc :: u32

definition create_plain_producer ::
  "'w poc_engine \<Rightarrow> sfu_listen \<Rightarrow> string \<Rightarrow> ('w, (string \<times> string, string) result) io" where
  "create_plain_producer px li router =
     rbind (px_ctx ''create plain transport'' (px_create_plain px router (poc_plain_options li))) (\<lambda>transport.
     rbind (px_or_drop px [pt_id transport]
              (px_ctx ''produce on plain transport'' (px_produce px (pt_id transport) Video poc_rtp_parameters)))
       (\<lambda>producer w. (Ok (producer, pt_id transport), w)))"

definition ensure_plain_producer ::
  "'w poc_engine \<Rightarrow> sfu_listen \<Rightarrow> poc_app \<times> 'w \<Rightarrow> (plain_producer_info, string) result \<times> poc_app \<times> 'w" where
  "ensure_plain_producer px li s =
     (case ensure_router px s of
        (Err e, a, w) \<Rightarrow> (Err e, a, w)
      | (Ok router, a, w) \<Rightarrow>
          (case get_or_try_init (pa_plain_producer a) (create_plain_producer px li router) w of
             (Err e, cell, w) \<Rightarrow> (Err e, a\<lparr>pa_plain_producer := cell\<rparr>, w)
           | (Ok handle, cell, w) \<Rightarrow>
               (Ok \<lparr>ppi_producer_id = fst handle, ppi_rtp_listen_ip = sl_announced_ip li,
                    ppi_rtp_listen_port = sl_plain_rtp_port li, ppi_rtcp_listen_port = sl_plain_rtcp_port li,
                    ppi_payload_type = poc_payload_type, ppi_clock_rate = poc_clock_rate,
                    ppi_encoding_name = ''VP8'', ppi_ssrc = poc_ssrc\<rparr>,
                a\<lparr>pa_plain_producer := cell\<rparr>, w)))"

text \<open>\<open>POST /v1/plain-producer\<close>: a status with the info, or with the text of the error.\<close>

definition plain_producer_handler ::
  "'w poc_engine \<Rightarrow> sfu_listen \<Rightarrow> poc_app \<times> 'w \<Rightarrow> (nat \<times> (plain_producer_info, string) result) \<times> poc_app \<times> 'w" where
  "plain_producer_handler px li s =
     (case ensure_plain_producer px li s of (Ok info, s) \<Rightarrow> ((200, Ok info), s) | (Err e, s) \<Rightarrow> ((500, Err e), s))"

section \<open>The messages of a viewer\<close>

datatype poc_server_message =
    PInit webrtc_transport webrtc_transport json "string option" "json option" "json option"
  | PConnectedConsumerTransport
  | PConnectedInputTransport
  | PConsumed string string string json
  | PInputAck u64 nat

definition transport_options :: "webrtc_transport \<Rightarrow> json" where
  "transport_options t =
     mk_obj [(''id'', JStr (wt_id t)), (''dtlsParameters'', wt_dtls_parameters t),
             (''iceCandidates'', wt_ice_candidates t), (''iceParameters'', wt_ice_parameters t)]"

definition or_null :: "('a \<Rightarrow> json) \<Rightarrow> 'a option \<Rightarrow> json" where
  "or_null f x = (case x of Some v \<Rightarrow> f v | None \<Rightarrow> JNull)"

fun server_message_json :: "poc_server_message \<Rightarrow> json" where
  "server_message_json (PInit recv inp caps producer sctp input_sctp) =
     mk_obj [(''action'', JStr ''Init''), (''consumerTransportOptions'', transport_options recv),
             (''inputTransportOptions'', transport_options inp), (''routerRtpCapabilities'', caps),
             (''plainProducerId'', or_null JStr producer), (''sctpParameters'', or_null (\<lambda>x. x) sctp),
             (''inputSctpParameters'', or_null (\<lambda>x. x) input_sctp)]"
| "server_message_json PConnectedConsumerTransport = mk_obj [(''action'', JStr ''ConnectedConsumerTransport'')]"
| "server_message_json PConnectedInputTransport = mk_obj [(''action'', JStr ''ConnectedInputTransport'')]"
| "server_message_json (PConsumed i producer kind rtp) =
     mk_obj [(''action'', JStr ''Consumed''), (''id'', JStr i), (''producerId'', JStr producer),
             (''kind'', JStr kind), (''rtpParameters'', rtp)]"
| "server_message_json (PInputAck sequence received) =
     mk_obj [(''action'', JStr ''InputAck''), (''sequence'', JInt (uint sequence)), (''receivedBytes'', JInt (int received))]"

datatype poc_client_message =
    QInit json
  | QConnectConsumerTransport json
  | QConnectInputTransport json
  | QConsume string
  | QConsumerResume string
  | QProduceInput json string string

definition poc_client_message_of :: "wire \<Rightarrow> string \<Rightarrow> poc_client_message option" where
  "poc_client_message_of wi text =
     Option.bind (wi_parse wi text) (\<lambda>j.
       case j_get ''action'' j of
         Some (JStr a) \<Rightarrow>
           if a = ''Init'' then map_option QInit (need (wi_caps wi) (j_get ''rtpCapabilities'' j))
           else if a = ''ConnectConsumerTransport''
           then map_option QConnectConsumerTransport (need (wi_dtls wi) (j_get ''dtlsParameters'' j))
           else if a = ''ConnectInputTransport''
           then map_option QConnectInputTransport (need (wi_dtls wi) (j_get ''dtlsParameters'' j))
           else if a = ''Consume'' then map_option QConsume (need_str (wi_id wi) (j_get ''producerId'' j))
           else if a = ''ConsumerResume'' then map_option QConsumerResume (need_str (wi_id wi) (j_get ''id'' j))
           else if a = ''ProduceInput'' then
             Option.bind (need (wi_sctp wi) (j_get ''sctpStreamParameters'' j)) (\<lambda>p.
             Option.bind (need_str (\<lambda>_. True) (j_get ''label'' j)) (\<lambda>l.
             map_option (QProduceInput p l) (need_str (\<lambda>_. True) (j_get ''protocol'' j))))
           else None
       | _ \<Rightarrow> None)"

datatype poc_mail =
    MServer poc_server_message
  | MClient poc_client_message
  | MStop
  | MSaveConsumer consumer
  | MSaveInputProducer string
  | MSaveInputConsumer string
  | MInputBroadcast u64 nat
  | MStoreTransportThenInit webrtc_transport webrtc_transport json "string option" "json option" "json option"

section \<open>The tasks\<close>

datatype poc_task =
    TStart
  | TConnectConsumer string json
  | TConnectInput string json
  | TConsume string string json
  | TResume string
  | TProduceInput string json string string

definition poc_transport_options :: "sfu_listen \<Rightarrow> poc_webrtc_options" where
  "poc_transport_options li =
     \<lparr>wo_listen = \<lparr>lo_ip = sl_listen_ip li, lo_announced_address = Some (sl_announced_ip li),
        lo_expose_internal_ip = False, lo_port = None,
        lo_port_range = Some (sl_rtc_min_port li, sl_rtc_max_port li)\<rparr>,
      wo_enable_sctp = True, wo_max_send_message_size = 262144\<rparr>"

text \<open>\<open>started\<close>: the two transports of a viewer; an error stops the actor.\<close>

definition task_start ::
  "'w poc_engine \<Rightarrow> sfu_listen \<Rightarrow> poc_app \<times> 'w \<Rightarrow> poc_mail list \<times> poc_app \<times> 'w" where
  "task_start px li s =
     (case ensure_router px s of
        (Err _, a, w) \<Rightarrow> ([MStop], a, w)
      | (Ok router, a, w) \<Rightarrow>
          (case px_create_webrtc px router (poc_transport_options li) w of
             (Err _, w) \<Rightarrow> ([MStop], a, w)
           | (Ok recv, w) \<Rightarrow>
               (case px_create_webrtc px router (poc_transport_options li) w of
                  (Err _, w) \<Rightarrow> ([MStop], a, px_drop px [wt_id recv] w)
                | (Ok inp, w) \<Rightarrow>
                    ([MStoreTransportThenInit recv inp (px_caps px router) (map_option fst (pa_plain_producer a))
                        (wt_sctp_parameters recv) (wt_sctp_parameters inp)], a, w))))"

text \<open>The bridge of an input channel into the process; an error is only logged. The second result is
  the data consumer whose messages are observed from then on.\<close>

definition task_produce_input ::
  "'w poc_engine \<Rightarrow> string \<Rightarrow> json \<Rightarrow> string \<Rightarrow> string \<Rightarrow> poc_app \<times> 'w
   \<Rightarrow> (poc_mail list \<times> string option) \<times> poc_app \<times> 'w" where
  "task_produce_input px transport sctp lbl protocol = (\<lambda>(a, w).
     case px_produce_data px transport (input_options sctp lbl protocol) w of
       (Err _, w) \<Rightarrow> (([], None), a, w)
     | (Ok producer, w) \<Rightarrow>
         (case ensure_direct_transport px (a, w) of
            (Err _, a, w) \<Rightarrow> (([], None), a, px_drop px [producer] w)
          | (Ok dt, a, w) \<Rightarrow>
              (case px_consume_data px dt producer w of
                 (Err _, w) \<Rightarrow> (([], None), a, px_drop px [producer] w)
               | (Ok c, w) \<Rightarrow> (([MSaveInputProducer producer, MSaveInputConsumer c], Some c), a, w))))"

fun run_task ::
  "'w poc_engine \<Rightarrow> sfu_listen \<Rightarrow> poc_task \<Rightarrow> poc_app \<times> 'w \<Rightarrow> (poc_mail list \<times> string option) \<times> poc_app \<times> 'w" where
  "run_task px li TStart s = (case task_start px li s of (ms, s) \<Rightarrow> ((ms, None), s))"
| "run_task px li (TConnectConsumer t dtls) (a, w) =
     (case px_connect px t dtls w of
        (Ok _, w) \<Rightarrow> (([MServer PConnectedConsumerTransport], None), a, w)
      | (Err _, w) \<Rightarrow> (([MStop], None), a, w))"
| "run_task px li (TConnectInput t dtls) (a, w) =
     (case px_connect px t dtls w of
        (Ok _, w) \<Rightarrow> (([MServer PConnectedInputTransport], None), a, w)
      | (Err _, w) \<Rightarrow> (([MStop], None), a, w))"
| "run_task px li (TConsume t producer caps) (a, w) =
     (case px_consume px t producer caps True w of
        (Ok c, w) \<Rightarrow>
          (([MServer (PConsumed (cs_id c) producer (cs_kind c) (cs_rtp_parameters c)), MSaveConsumer c], None), a, w)
      | (Err _, w) \<Rightarrow> (([MStop], None), a, w))"
| "run_task px li (TResume c) (a, w) = (([], None), a, snd (px_resume px c w))"
| "run_task px li (TProduceInput t sctp lbl protocol) s = task_produce_input px t sctp lbl protocol s"

section \<open>The actor\<close>

record viewer_connection =
  vc_client_caps :: "json option"
  vc_consumer_transport :: "webrtc_transport option"
  vc_input_transport :: "webrtc_transport option"
  vc_consumers :: "(string, consumer) dashmap"
  vc_input_data_producer :: "string option"
  vc_input_data_consumer :: "string option"
  vc_input_messages_seen :: u64
  vc_input_bytes_seen :: u64

definition viewer_connection_new :: viewer_connection where
  "viewer_connection_new =
     \<lparr>vc_client_caps = None, vc_consumer_transport = None, vc_input_transport = None, vc_consumers = [],
      vc_input_data_producer = None, vc_input_data_consumer = None, vc_input_messages_seen = 0,
      vc_input_bytes_seen = 0\<rparr>"

text \<open>A message of the client: the next state of the actor and the tasks it spawns.\<close>

fun handle_client :: "poc_client_message \<Rightarrow> viewer_connection \<Rightarrow> viewer_connection \<times> poc_task list" where
  "handle_client (QInit caps) v = (v\<lparr>vc_client_caps := Some caps\<rparr>, [])"
| "handle_client (QConnectConsumerTransport dtls) v =
     (v, case vc_consumer_transport v of None \<Rightarrow> [] | Some t \<Rightarrow> [TConnectConsumer (wt_id t) dtls])"
| "handle_client (QConnectInputTransport dtls) v =
     (v, case vc_input_transport v of None \<Rightarrow> [] | Some t \<Rightarrow> [TConnectInput (wt_id t) dtls])"
| "handle_client (QConsume producer) v =
     (v, case vc_consumer_transport v of
           None \<Rightarrow> []
         | Some t \<Rightarrow> (case vc_client_caps v of None \<Rightarrow> [] | Some caps \<Rightarrow> [TConsume (wt_id t) producer caps]))"
| "handle_client (QConsumerResume i) v =
     (v, case dm_get (vc_consumers v) i of None \<Rightarrow> [] | Some c \<Rightarrow> [TResume (cs_id c)])"
| "handle_client (QProduceInput sctp lbl protocol) v =
     (v, case vc_input_transport v of None \<Rightarrow> [] | Some t \<Rightarrow> [TProduceInput (wt_id t) sctp lbl protocol])"

datatype poc_out = OMsg poc_server_message | OPongFrame string | OCloseFrame

text \<open>\<open>sy_counters\<close> holds the counter of each data consumer that is alive, \<open>sy_observed\<close> what they
  have delivered so far.\<close>

record 'w poc_sys =
  sy_app :: poc_app
  sy_conn :: viewer_connection
  sy_mail :: "poc_mail list"
  sy_tasks :: "poc_task list"
  sy_counters :: "(string, u64) dashmap"
  sy_observed :: "(u64 \<times> nat) list"
  sy_out :: "poc_out list"
  sy_stopped :: bool
  sy_world :: 'w

text \<open>The actor of a new socket: \<open>started\<close> has spawned its task.\<close>

definition poc_fresh :: "poc_app \<Rightarrow> 'w \<Rightarrow> 'w poc_sys" where
  "poc_fresh a w =
     \<lparr>sy_app = a, sy_conn = viewer_connection_new, sy_mail = [], sy_tasks = [TStart], sy_counters = [],
      sy_observed = [], sy_out = [], sy_stopped = False, sy_world = w\<rparr>"

text \<open>A frame from the socket; what is not text, ping, pong or close stops the actor.\<close>

fun handle_frame :: "wire \<Rightarrow> ws_in \<Rightarrow> 'w poc_sys \<Rightarrow> 'w poc_sys" where
  "handle_frame wi (Ping p) s = s\<lparr>sy_out := sy_out s @ [OPongFrame p]\<rparr>"
| "handle_frame wi Pong s = s"
| "handle_frame wi (Text t) s =
     (case poc_client_message_of wi t of Some c \<Rightarrow> s\<lparr>sy_mail := sy_mail s @ [MClient c]\<rparr> | None \<Rightarrow> s)"
| "handle_frame wi CloseIn s = s\<lparr>sy_out := sy_out s @ [OCloseFrame], sy_stopped := True\<rparr>"
| "handle_frame wi Binary s = s\<lparr>sy_stopped := True\<rparr>"
| "handle_frame wi RecvError s = s\<lparr>sy_stopped := True\<rparr>"

text \<open>A message of the mailbox. Replacing a producer or a data consumer drops the old one.\<close>

definition drop_old :: "'w poc_engine \<Rightarrow> string option \<Rightarrow> 'w \<Rightarrow> 'w" where
  "drop_old px old w = (case old of Some i \<Rightarrow> px_drop px [i] w | None \<Rightarrow> w)"

definition store_transport_then_init ::
  "webrtc_transport \<Rightarrow> webrtc_transport \<Rightarrow> poc_server_message \<Rightarrow> 'w poc_sys \<Rightarrow> 'w poc_sys" where
  [simp]: "store_transport_then_init recv inp init s =
     s\<lparr>sy_conn := (sy_conn s)\<lparr>vc_consumer_transport := Some recv, vc_input_transport := Some inp\<rparr>,
       sy_mail := sy_mail s @ [MServer init]\<rparr>"

fun handle_mail :: "'w poc_engine \<Rightarrow> poc_mail \<Rightarrow> 'w poc_sys \<Rightarrow> 'w poc_sys" where
  "handle_mail px (MServer m) s = s\<lparr>sy_out := sy_out s @ [OMsg m]\<rparr>"
| "handle_mail px (MClient c) s =
     (case handle_client c (sy_conn s) of (v, ts) \<Rightarrow> s\<lparr>sy_conn := v, sy_tasks := sy_tasks s @ ts\<rparr>)"
| "handle_mail px MStop s = s\<lparr>sy_stopped := True\<rparr>"
| "handle_mail px (MSaveConsumer c) s =
     s\<lparr>sy_conn := (sy_conn s)\<lparr>vc_consumers := dm_insert (cs_id c) c (vc_consumers (sy_conn s))\<rparr>\<rparr>"
| "handle_mail px (MSaveInputProducer p) s =
     s\<lparr>sy_conn := (sy_conn s)\<lparr>vc_input_data_producer := Some p\<rparr>,
       sy_world := drop_old px (vc_input_data_producer (sy_conn s)) (sy_world s)\<rparr>"
| "handle_mail px (MSaveInputConsumer c) s =
     s\<lparr>sy_conn := (sy_conn s)\<lparr>vc_input_data_consumer := Some c\<rparr>,
       sy_counters := (case vc_input_data_consumer (sy_conn s) of
                         Some old \<Rightarrow> dm_remove old (sy_counters s) | None \<Rightarrow> sy_counters s),
       sy_world := drop_old px (vc_input_data_consumer (sy_conn s)) (sy_world s)\<rparr>"
| "handle_mail px (MInputBroadcast sequence bytes) s =
     s\<lparr>sy_conn := (sy_conn s)\<lparr>vc_input_messages_seen := sequence,
                           vc_input_bytes_seen := vc_input_bytes_seen (sy_conn s) + word_of_nat bytes\<rparr>,
       sy_mail := sy_mail s @ [MServer (PInputAck sequence bytes)]\<rparr>"
| "handle_mail px (MStoreTransportThenInit recv inp caps producer sctp input_sctp) s =
     store_transport_then_init recv inp (PInit recv inp caps producer sctp input_sctp) s"

definition take_mail :: "'w poc_engine \<Rightarrow> 'w poc_sys \<Rightarrow> 'w poc_sys" where
  "take_mail px s = (case sy_mail s of [] \<Rightarrow> s | m # ms \<Rightarrow> handle_mail px m (s\<lparr>sy_mail := ms\<rparr>))"

definition finish_task :: "'w poc_engine \<Rightarrow> sfu_listen \<Rightarrow> poc_task \<Rightarrow> 'w poc_sys \<Rightarrow> 'w poc_sys" where
  "finish_task px li t s =
     (case run_task px li t (sy_app s, sy_world s) of
        ((ms, c), a, w) \<Rightarrow>
          s\<lparr>sy_app := a, sy_world := w, sy_tasks := remove1 t (sy_tasks s), sy_mail := sy_mail s @ ms,
            sy_counters := (case c of Some i \<Rightarrow> dm_insert i 0 (sy_counters s) | None \<Rightarrow> sy_counters s)\<rparr>)"

text \<open>\<open>on_message\<close> of a data consumer.\<close>

definition deliver_input :: "string \<Rightarrow> nat \<Rightarrow> 'w poc_sys \<Rightarrow> 'w poc_sys" where
  "deliver_input c bytes s =
     (case dm_get (sy_counters s) c of
        None \<Rightarrow> s
      | Some n \<Rightarrow>
          s\<lparr>sy_counters := dm_insert c (n + 1) (sy_counters s),
            sy_observed := sy_observed s @ [(n + 1, bytes)],
            sy_mail := sy_mail s @ [MInputBroadcast (n + 1) bytes]\<rparr>)"

text \<open>What the rest of the process can do: fill empty cells and change the world.\<close>

definition app_extends :: "poc_app \<Rightarrow> poc_app \<Rightarrow> bool" where
  "app_extends a b \<longleftrightarrow>
     (pa_router a = None \<or> pa_router b = pa_router a)
     \<and> (pa_plain_producer a = None \<or> pa_plain_producer b = pa_plain_producer a)
     \<and> (pa_direct_transport a = None \<or> pa_direct_transport b = pa_direct_transport a)"

inductive poc_run :: "'w poc_engine \<Rightarrow> sfu_listen \<Rightarrow> wire \<Rightarrow> 'w poc_sys \<Rightarrow> 'w poc_sys \<Rightarrow> bool"
  for px li wi s0 where
  start: "poc_run px li wi s0 s0"
| frame: "poc_run px li wi s0 s \<Longrightarrow> \<not> sy_stopped s \<Longrightarrow> poc_run px li wi s0 (handle_frame wi f s)"
| mail: "poc_run px li wi s0 s \<Longrightarrow> \<not> sy_stopped s \<Longrightarrow> poc_run px li wi s0 (take_mail px s)"
| task: "poc_run px li wi s0 s \<Longrightarrow> t \<in> set (sy_tasks s) \<Longrightarrow> poc_run px li wi s0 (finish_task px li t s)"
| input: "poc_run px li wi s0 s \<Longrightarrow> poc_run px li wi s0 (deliver_input c bytes s)"
| others: "poc_run px li wi s0 s \<Longrightarrow> app_extends (sy_app s) a
    \<Longrightarrow> poc_run px li wi s0 (s\<lparr>sy_app := a, sy_world := w\<rparr>)"

section \<open>The cells are filled once\<close>

lemma app_extends_refl [simp]: "app_extends a a"
  by (simp add: app_extends_def)

lemma app_extends_trans: "app_extends a b \<Longrightarrow> app_extends b c \<Longrightarrow> app_extends a c"
  by (auto simp: app_extends_def)

lemma get_or_try_init_cell: "get_or_try_init cell init w = (r, cell', w') \<Longrightarrow> cell = None \<or> cell' = cell"
  by (auto simp: get_or_try_init_def split: option.splits)

lemma ensure_router_extends: "ensure_router px (a, w) = (r, a', w') \<Longrightarrow> app_extends a a'"
  by (auto simp: ensure_router_def app_extends_def split: prod.splits dest: get_or_try_init_cell)

lemma ensure_router_cell: "ensure_router px (a, w) = (Ok r, a', w') \<Longrightarrow> pa_router a' = Some r"
  by (auto simp: ensure_router_def get_or_try_init_def split: prod.splits option.splits result.splits)

lemma ensure_router_full [simp]: "pa_router a = Some r \<Longrightarrow> ensure_router px (a, w) = (Ok r, a, w)"
  by (simp add: ensure_router_def get_or_try_init_def)

lemma ensure_direct_extends:
  assumes "ensure_direct_transport px (a, w) = (r, a', w')"
  shows "app_extends a a'"
proof -
  obtain r1 a1 w1 where e: "ensure_router px (a, w) = (r1, a1, w1)" by (metis prod_cases3)
  have "app_extends a1 a'"
    using assms e
    by (auto simp: ensure_direct_transport_def app_extends_def split: result.splits prod.splits
        dest: get_or_try_init_cell)
  with ensure_router_extends [OF e] show ?thesis by (rule app_extends_trans)
qed

lemma task_start_extends: "task_start px li (a, w) = (ms, a', w') \<Longrightarrow> app_extends a a'"
  by (auto simp: task_start_def split: prod.splits result.splits dest: ensure_router_extends)

lemma task_produce_input_extends: "task_produce_input px t sctp l p (a, w) = (x, a', w') \<Longrightarrow> app_extends a a'"
  by (auto simp: task_produce_input_def split: prod.splits result.splits dest: ensure_direct_extends)

lemma run_task_extends: "run_task px li t (a, w) = (x, a', w') \<Longrightarrow> app_extends a a'"
  by (cases t) (auto split: prod.splits result.splits dest: task_start_extends task_produce_input_extends)

lemma finish_task_extends: "app_extends (sy_app s) (sy_app (finish_task px li t s))"
  by (auto simp: finish_task_def split: prod.splits dest: run_task_extends)

lemma handle_mail_app [simp]: "sy_app (handle_mail px m s) = sy_app s"
  by (cases m) (auto split: prod.splits)

lemma handle_frame_app [simp]: "sy_app (handle_frame wi f s) = sy_app s"
  by (cases f) (auto split: option.splits)

lemma poc_run_extends: "poc_run px li wi s0 s \<Longrightarrow> app_extends (sy_app s0) (sy_app s)"
proof (induction rule: poc_run.induct)
  case (mail s)
  then show ?case by (simp add: take_mail_def split: list.splits)
next
  case (input s c bytes)
  then show ?case by (simp add: deliver_input_def split: option.splits)
qed (auto intro: app_extends_trans finish_task_extends)

section \<open>What the viewer is told\<close>

fun out_ack :: "poc_out \<Rightarrow> (u64 \<times> nat) option" where
  "out_ack (OMsg (PInputAck n b)) = Some (n, b)"
| "out_ack _ = None"

fun mail_ack :: "poc_mail \<Rightarrow> (u64 \<times> nat) option" where
  "mail_ack (MServer m) = out_ack (OMsg m)"
| "mail_ack _ = None"

fun mail_broadcast :: "poc_mail \<Rightarrow> (u64 \<times> nat) option" where
  "mail_broadcast (MInputBroadcast n b) = Some (n, b)"
| "mail_broadcast _ = None"

abbreviation sent_acks :: "'w poc_sys \<Rightarrow> (u64 \<times> nat) list" where
  "sent_acks s \<equiv> List.map_filter out_ack (sy_out s)"

abbreviation queued_acks :: "'w poc_sys \<Rightarrow> (u64 \<times> nat) list" where
  "queued_acks s \<equiv> List.map_filter mail_ack (sy_mail s)"

definition total_bytes :: "(u64 \<times> nat) list \<Rightarrow> u64" where
  "total_bytes xs = sum_list (map (\<lambda>x. word_of_nat (snd x)) xs)"

definition acks_ok :: "'w poc_sys \<Rightarrow> bool" where
  "acks_ok s \<longleftrightarrow>
     sy_observed s = sent_acks s @ queued_acks s @ List.map_filter mail_broadcast (sy_mail s)
     \<and> vc_input_bytes_seen (sy_conn s) = total_bytes (sent_acks s @ queued_acks s)"

lemma map_filter_append [simp]: "List.map_filter f (xs @ ys) = List.map_filter f xs @ List.map_filter f ys"
  by (simp add: List.map_filter_def)

lemma map_filter_Cons [simp]:
  "List.map_filter f (x # xs) = (case f x of Some y \<Rightarrow> y # List.map_filter f xs | None \<Rightarrow> List.map_filter f xs)"
  by (simp add: List.map_filter_def split: option.splits)

lemma map_filter_Nil [simp]: "List.map_filter f [] = []"
  by (simp add: List.map_filter_def)

lemma total_bytes_simps [simp]:
  "total_bytes [] = 0" "total_bytes (xs @ ys) = total_bytes xs + total_bytes ys"
  "total_bytes (x # xs) = word_of_nat (snd x) + total_bytes xs"
  by (simp_all add: total_bytes_def)

lemma run_task_no_input:
  "run_task px li t (a, w) = ((ms, c), a', w')
     \<Longrightarrow> List.map_filter mail_ack ms = [] \<and> List.map_filter mail_broadcast ms = []"
  by (cases t) (auto simp: task_start_def task_produce_input_def split: prod.splits result.splits)

lemma handle_client_bytes: "handle_client q v = (v', ts) \<Longrightarrow> vc_input_bytes_seen v' = vc_input_bytes_seen v"
  by (cases q) auto

lemma acks_ok_mail:
  assumes "acks_ok s"
  shows "acks_ok (take_mail px s)"
proof (cases "sy_mail s")
  case Nil
  with assms show ?thesis by (simp add: take_mail_def)
next
  case (Cons m ms)
  show ?thesis
  proof (cases m)
    case (MServer x)
    with assms Cons show ?thesis by (cases x) (auto simp: take_mail_def acks_ok_def)
  next
    case (MClient q)
    with assms Cons show ?thesis
      by (auto simp: take_mail_def acks_ok_def handle_client_bytes split: prod.splits)
  qed (use assms Cons in \<open>auto simp: take_mail_def acks_ok_def algebra_simps\<close>)
qed

lemma acks_ok_frame: "acks_ok s \<Longrightarrow> acks_ok (handle_frame wi f s)"
  by (cases f) (auto simp: acks_ok_def split: option.splits)

lemma acks_ok_task: "acks_ok s \<Longrightarrow> acks_ok (finish_task px li t s)"
  by (auto simp: finish_task_def acks_ok_def split: prod.splits dest: run_task_no_input)

lemma acks_ok_run: "poc_run px li wi s0 s \<Longrightarrow> acks_ok s0 \<Longrightarrow> acks_ok s"
proof (induction rule: poc_run.induct)
  case (input s c bytes)
  then show ?case by (auto simp: deliver_input_def acks_ok_def split: option.splits)
next
  case (others s a w)
  then show ?case by (simp add: acks_ok_def)
qed (auto intro: acks_ok_mail acks_ok_frame acks_ok_task)

lemma acks_ok_fresh: "acks_ok (poc_fresh a w)"
  by (simp add: acks_ok_def poc_fresh_def viewer_connection_new_def)

text \<open>C34 The viewer gets one acknowledgement for each message its input channel delivered, in the order of
  delivery and with its sequence number and size, whatever else the actor is doing: what has been
  sent is always an initial part of what was delivered, all of it once the mailbox is empty, and
  then the byte count of the actor is the sum.\<close>

theorem input_acks_in_order:
  assumes "poc_run px li wi (poc_fresh a w) s"
  shows "\<exists>pending. sy_observed s = sent_acks s @ pending
     \<and> (sy_mail s = [] \<longrightarrow> pending = [] \<and> vc_input_bytes_seen (sy_conn s) = total_bytes (sy_observed s))"
  using acks_ok_run [OF assms acks_ok_fresh] by (auto simp: acks_ok_def)

section \<open>A consumer that was announced can be resumed\<close>

fun announces :: "string \<Rightarrow> poc_out \<Rightarrow> bool" where
  "announces i (OMsg (PConsumed j _ _ _)) \<longleftrightarrow> i = j"
| "announces i _ \<longleftrightarrow> False"

text \<open>In the mailbox each announcement is directly followed by the message that stores the consumer.\<close>

fun stored_next :: "string \<Rightarrow> poc_mail list \<Rightarrow> bool" where
  "stored_next i (MSaveConsumer c # ms) \<longleftrightarrow> cs_id c = i"
| "stored_next i _ \<longleftrightarrow> False"

fun paired :: "poc_mail list \<Rightarrow> bool" where
  "paired [] \<longleftrightarrow> True"
| "paired (MServer (PConsumed i p k r) # ms) \<longleftrightarrow> stored_next i ms \<and> paired ms"
| "paired (m # ms) \<longleftrightarrow> paired ms"

lemma stored_next_append: "stored_next i xs \<Longrightarrow> stored_next i (xs @ ys)"
  by (induction i xs rule: stored_next.induct) auto

lemma paired_append: "paired xs \<Longrightarrow> paired ys \<Longrightarrow> paired (xs @ ys)"
  by (induction xs rule: paired.induct) (auto intro: stored_next_append)

definition told_ok :: "'w poc_sys \<Rightarrow> bool" where
  "told_ok s \<longleftrightarrow> paired (sy_mail s)
     \<and> (\<forall>i. list_ex (announces i) (sy_out s)
          \<longrightarrow> dm_get (vc_consumers (sy_conn s)) i \<noteq> None \<or> stored_next i (sy_mail s))"

lemma run_task_paired: "run_task px li t (a, w) = ((ms, c), a', w') \<Longrightarrow> paired ms"
  by (cases t) (auto simp: task_start_def task_produce_input_def split: prod.splits result.splits)

lemma handle_client_consumers: "handle_client q v = (v', ts) \<Longrightarrow> vc_consumers v' = vc_consumers v"
  by (cases q) auto

lemma told_ok_push: "told_ok s \<Longrightarrow> paired ms \<Longrightarrow> told_ok (s\<lparr>sy_mail := sy_mail s @ ms\<rparr>)"
  by (auto simp: told_ok_def paired_append stored_next_append)

lemma told_ok_mail:
  assumes "told_ok s"
  shows "told_ok (take_mail px s)"
proof (cases "sy_mail s")
  case Nil
  with assms show ?thesis by (simp add: take_mail_def)
next
  case (Cons m ms)
  show ?thesis
  proof (cases m)
    case (MServer x)
    with assms Cons show ?thesis by (cases x) (auto simp: take_mail_def told_ok_def)
  next
    case (MClient q)
    with assms Cons show ?thesis
      by (auto simp: take_mail_def told_ok_def handle_client_consumers split: prod.splits)
  qed (use assms Cons in \<open>auto simp: take_mail_def told_ok_def paired_append\<close>)
qed

lemma told_ok_frame: "told_ok s \<Longrightarrow> told_ok (handle_frame wi f s)"
  by (cases f) (auto simp: told_ok_def paired_append stored_next_append split: option.splits)

lemma told_ok_task: "told_ok s \<Longrightarrow> told_ok (finish_task px li t s)"
  by (auto simp: finish_task_def told_ok_def split: prod.splits
      intro: paired_append stored_next_append dest: run_task_paired)

lemma told_ok_run: "poc_run px li wi s0 s \<Longrightarrow> told_ok s0 \<Longrightarrow> told_ok s"
proof (induction rule: poc_run.induct)
  case (input s c bytes)
  then show ?case
    by (auto simp: deliver_input_def told_ok_def paired_append stored_next_append split: option.splits)
next
  case (others s a w)
  then show ?case by (simp add: told_ok_def)
qed (auto intro: told_ok_mail told_ok_frame told_ok_task)

text \<open>C32 No resume is lost: when the actor comes to a \<open>ConsumerResume\<close> for a consumer that it has
  announced on the socket, the consumer is stored and the resume is started, although the
  announcement is sent before the consumer is stored and clients may resume at any time.\<close>

theorem announced_consumer_resumable:
  assumes "poc_run px li wi (poc_fresh a w) s" and "list_ex (announces i) (sy_out s)"
    and "sy_mail s = MClient (QConsumerResume i) # ms"
  shows "\<exists>c. dm_get (vc_consumers (sy_conn s)) i = Some c
     \<and> sy_tasks (take_mail px s) = sy_tasks s @ [TResume (cs_id c)]"
proof -
  have "told_ok (poc_fresh a w)" by (simp add: told_ok_def poc_fresh_def)
  with assms have "dm_get (vc_consumers (sy_conn s)) i \<noteq> None"
    using told_ok_run unfolding told_ok_def by fastforce
  with assms(3) show ?thesis by (auto simp: take_mail_def)
qed

section \<open>One producer for the whole process\<close>

lemma ensure_plain_producer_Ok:
  assumes "ensure_plain_producer px li (a, w) = (Ok info, a', w')" and "app_extends a' b"
  shows "ensure_plain_producer px li (b, v) = (Ok info, b, v)"
proof -
  obtain r a1 w1 where e: "ensure_router px (a, w) = (Ok r, a1, w1)"
    using assms(1) by (auto simp: ensure_plain_producer_def split: prod.splits result.splits)
  then obtain h w2 where g: "get_or_try_init (pa_plain_producer a1) (create_plain_producer px li r) w1 = (Ok h, Some h, w2)"
    and i: "info = \<lparr>ppi_producer_id = fst h, ppi_rtp_listen_ip = sl_announced_ip li,
        ppi_rtp_listen_port = sl_plain_rtp_port li, ppi_rtcp_listen_port = sl_plain_rtcp_port li,
        ppi_payload_type = poc_payload_type, ppi_clock_rate = poc_clock_rate,
        ppi_encoding_name = ''VP8'', ppi_ssrc = poc_ssrc\<rparr>"
    and a': "a' = a1\<lparr>pa_plain_producer := Some h\<rparr>"
    using assms(1)
    by (auto simp: ensure_plain_producer_def get_or_try_init_def split: prod.splits result.splits option.splits)
  have "pa_router b = Some r" "pa_plain_producer b = Some h"
    using assms(2) a' ensure_router_cell [OF e] by (auto simp: app_extends_def)
  then show ?thesis
    by (simp add: ensure_plain_producer_def get_or_try_init_def i)
qed

text \<open>\<open>POST /v1/plain-producer\<close> is idempotent for the life of the process: after one success every
  later call, whatever viewers and other requests have done in between, gives the same answer
  and neither changes the process nor calls mediasoup.\<close>

lemma plain_producer_once:
  assumes "plain_producer_handler px li (a, w) = ((200, Ok info), a', w')"
    and "poc_run px li wi (poc_fresh a' w') s"
  shows "plain_producer_handler px li (sy_app s, sy_world s) = ((200, Ok info), sy_app s, sy_world s)"
proof -
  have "ensure_plain_producer px li (a, w) = (Ok info, a', w')"
    using assms(1) by (auto simp: plain_producer_handler_def split: prod.splits result.splits)
  moreover have "app_extends a' (sy_app s)"
    using poc_run_extends [OF assms(2)] by (simp add: poc_fresh_def)
  ultimately show ?thesis
    by (simp add: plain_producer_handler_def ensure_plain_producer_Ok)
qed

text \<open>The RTCP port of the answer is the configured one, which mediasoup is never told.\<close>

lemma rtcp_port_not_used:
  "create_plain_producer px (li\<lparr>sl_plain_rtcp_port := p\<rparr>) router = create_plain_producer px li router"
  by (simp add: create_plain_producer_def poc_plain_options_def)

text \<open>A viewer is not told when its input channel cannot be set up: nothing is sent and the actor
  goes on.\<close>

lemma failed_input_is_silent:
  "px_produce_data px t (input_options sctp lbl protocol) w = (Err e, w')
     \<Longrightarrow> run_task px li (TProduceInput t sctp lbl protocol) (a, w) = (([], None), a, w')"
  by (simp add: task_produce_input_def)

section \<open>A concrete run\<close>

datatype poc_event = EFrame ws_in | EMail | ETask poc_task | EInput string nat

fun poc_play :: "'w poc_engine \<Rightarrow> sfu_listen \<Rightarrow> wire \<Rightarrow> poc_event list \<Rightarrow> 'w poc_sys \<Rightarrow> 'w poc_sys" where
  "poc_play px li wi [] s = s"
| "poc_play px li wi (EFrame f # es) s =
     poc_play px li wi es (if sy_stopped s then s else handle_frame wi f s)"
| "poc_play px li wi (EMail # es) s = poc_play px li wi es (if sy_stopped s then s else take_mail px s)"
| "poc_play px li wi (ETask t # es) s =
     poc_play px li wi es (if t \<in> set (sy_tasks s) then finish_task px li t s else s)"
| "poc_play px li wi (EInput c b # es) s = poc_play px li wi es (deliver_input c b s)"

lemma poc_play_run: "poc_run px li wi s0 s \<Longrightarrow> poc_run px li wi s0 (poc_play px li wi es s)"
proof (induction es arbitrary: s)
  case (Cons e es)
  then show ?case by (cases e) (auto intro: poc_run.intros)
qed simp

definition demo_transport :: webrtc_transport where
  "demo_transport =
     \<lparr>wt_id = ''t'', wt_ice_parameters = JNull, wt_ice_candidates = JNull, wt_dtls_parameters = JNull,
      wt_sctp_parameters = None\<rparr>"

definition demo_consumer :: consumer where
  "demo_consumer = \<lparr>cs_id = ''c'', cs_producer_id = ''v'', cs_kind = ''video'', cs_rtp_parameters = JNull\<rparr>"

definition demo_poc :: "unit poc_engine" where
  "demo_poc =
     \<lparr>px_create_worker = (\<lambda>w. (Ok ''w'', w)), px_create_router = (\<lambda>_ _ w. (Ok ''r'', w)), px_caps = (\<lambda>_. JNull),
      px_create_direct = (\<lambda>_ w. (Ok ''d'', w)),
      px_create_plain = (\<lambda>_ _ w. (Ok \<lparr>pt_id = ''p'', pt_rtp_port = 5004, pt_rtcp_port = None\<rparr>, w)),
      px_produce = (\<lambda>_ _ _ w. (Ok ''v'', w)), px_create_webrtc = (\<lambda>_ _ w. (Ok demo_transport, w)),
      px_connect = (\<lambda>_ _ w. (Ok (), w)), px_consume = (\<lambda>_ _ _ _ w. (Ok demo_consumer, w)),
      px_resume = (\<lambda>_ w. (Ok (), w)), px_produce_data = (\<lambda>_ _ w. (Ok ''dp'', w)),
      px_consume_data = (\<lambda>_ _ w. (Ok ''dc'', w)), px_drop = (\<lambda>_ w. w)\<rparr>"

definition demo_listen :: sfu_listen where
  "demo_listen = snd (poc_config (\<lambda>s. Some s) (\<lambda>_. None))"

text \<open>The texts of the client are one letter, the initial of its action.\<close>

definition demo_wire :: wire where
  "demo_wire =
     \<lparr>wi_parse = (\<lambda>t.
        if t = ''I'' then Some (JObj [(''action'', JStr ''Init''), (''rtpCapabilities'', JNull)])
        else if t = ''C'' then Some (JObj [(''action'', JStr ''Consume''), (''producerId'', JStr ''v'')])
        else if t = ''R'' then Some (JObj [(''action'', JStr ''ConsumerResume''), (''id'', JStr ''c'')])
        else if t = ''P'' then Some (JObj [(''action'', JStr ''ProduceInput''), (''label'', JStr ''l''),
               (''protocol'', JStr ''p''), (''sctpStreamParameters'', JNull)])
        else None),
      wi_caps = (\<lambda>_. True), wi_dtls = (\<lambda>_. True), wi_id = (\<lambda>_. True), wi_sctp = (\<lambda>_. True)\<rparr>"

abbreviation demo_play :: "poc_event list \<Rightarrow> unit poc_sys" where
  "demo_play es \<equiv> poc_play demo_poc demo_listen demo_wire es (poc_fresh poc_app_new ())"

lemma demo_play_run: "poc_run demo_poc demo_listen demo_wire (poc_fresh poc_app_new ()) (demo_play es)"
  by (rule poc_play_run [OF poc_run.start])

definition input_schedule :: "poc_event list" where
  "input_schedule =
     [ETask TStart, EMail, EMail, EFrame (Text ''P''), EMail, ETask (TProduceInput ''t'' JNull ''l'' ''p''),
      EInput ''dc'' 5, EMail, EInput ''dc'' 3, EMail, EMail, EMail, EMail, EMail, EMail]"

definition resume_schedule :: "poc_event list" where
  "resume_schedule =
     [ETask TStart, EMail, EMail, EFrame (Text ''I''), EFrame (Text ''C''), EMail, EMail,
      ETask (TConsume ''t'' ''v'' JNull), EMail, EFrame (Text ''R''), EMail]"

lemmas demo_defs = poc_fresh_def poc_app_new_def viewer_connection_new_def demo_poc_def demo_wire_def
  finish_task_def task_start_def task_produce_input_def take_mail_def deliver_input_def ensure_router_def
  ensure_direct_transport_def get_or_try_init_def px_ctx_def px_or_drop_def rbind_def
  poc_client_message_of_def need_def need_str_def demo_transport_def demo_consumer_def drop_old_def

lemma input_acks_in_order_witness: "sent_acks (demo_play input_schedule) = [(1, 5), (2, 3)]"
proof -
  have "sy_observed (demo_play input_schedule) = [(1, 5), (2, 3)] \<and> sy_mail (demo_play input_schedule) = []"
    by (simp add: input_schedule_def demo_defs)
  with input_acks_in_order [OF demo_play_run [of input_schedule]] show ?thesis by auto
qed

lemma announced_consumer_resumable_witness:
  "sy_tasks (take_mail demo_poc (demo_play resume_schedule)) = [TResume ''c'']"
proof -
  have "sy_mail (demo_play resume_schedule) = [MClient (QConsumerResume ''c'')]
      \<and> list_ex (announces ''c'') (sy_out (demo_play resume_schedule))
      \<and> sy_tasks (demo_play resume_schedule) = []
      \<and> vc_consumers (sy_conn (demo_play resume_schedule)) = [(''c'', demo_consumer)]"
    by (simp add: resume_schedule_def demo_defs)
  with announced_consumer_resumable [OF demo_play_run [of resume_schedule], of "''c''" "[]"] show ?thesis
    by (auto simp: demo_consumer_def)
qed

lemma plain_producer_once_witness:
  "\<exists>info a. plain_producer_handler demo_poc demo_listen (poc_app_new, ()) = ((200, Ok info), a, ())
     \<and> plain_producer_handler demo_poc demo_listen (a, ()) = ((200, Ok info), a, ())"
proof -
  obtain info a where p: "plain_producer_handler demo_poc demo_listen (poc_app_new, ()) = ((200, Ok info), a, ())"
    by (simp add: plain_producer_handler_def ensure_plain_producer_def create_plain_producer_def demo_defs)
  from plain_producer_once [OF p poc_run.start] have
    "plain_producer_handler demo_poc demo_listen (a, ()) = ((200, Ok info), a, ())" by (simp add: poc_fresh_def)
  with p show ?thesis by blast
qed

section \<open>The actor comes to rest\<close>

text \<open>What the actor does on its own, between two frames of the client or messages of the input channel.\<close>

inductive poc_internal :: "'w poc_engine \<Rightarrow> sfu_listen \<Rightarrow> 'w poc_sys \<Rightarrow> 'w poc_sys \<Rightarrow> bool" for px li where
  mail: "\<not> sy_stopped s \<Longrightarrow> sy_mail s \<noteq> [] \<Longrightarrow> poc_internal px li s (take_mail px s)"
| task: "t \<in> set (sy_tasks s) \<Longrightarrow> poc_internal px li s (finish_task px li t s)"

text \<open>The steps that a message or a task can still cause.\<close>

fun mail_weight :: "poc_mail \<Rightarrow> nat" where
  "mail_weight (MClient c) = 4"
| "mail_weight (MInputBroadcast n b) = 2"
| "mail_weight (MStoreTransportThenInit recv inp caps producer sctp input_sctp) = 2"
| "mail_weight m = 1"

definition poc_weight :: "'w poc_sys \<Rightarrow> nat" where
  "poc_weight s = sum_list (map mail_weight (sy_mail s)) + 3 * length (sy_tasks s)"

lemma handle_client_tasks: "length (snd (handle_client c v)) \<le> 1"
  by (cases c) (auto split: option.split)

lemma take_mail_weight: "sy_mail s \<noteq> [] \<Longrightarrow> poc_weight (take_mail px s) < poc_weight s"
proof -
  assume "sy_mail s \<noteq> []"
  then obtain m ms where m: "sy_mail s = m # ms" by (cases "sy_mail s") auto
  show ?thesis
  proof (cases m)
    case (MClient c)
    with handle_client_tasks [of c "sy_conn s"] show ?thesis
      by (cases "handle_client c (sy_conn s)") (simp add: take_mail_def m poc_weight_def)
  qed (simp_all add: take_mail_def m poc_weight_def)
qed

lemma run_task_weight: "run_task px li t (a, w) = ((ms, c), s) \<Longrightarrow> sum_list (map mail_weight ms) \<le> 2"
  by (cases t) (auto simp: task_start_def task_produce_input_def split: prod.splits result.splits)

lemma finish_task_weight:
  assumes "t \<in> set (sy_tasks s)"
  shows "poc_weight (finish_task px li t s) < poc_weight s"
proof -
  obtain ms c a w where r: "run_task px li t (sy_app s, sy_world s) = ((ms, c), a, w)" by (metis surj_pair)
  obtain k where "length (sy_tasks s) = Suc k" using assms by (cases "sy_tasks s") auto
  with run_task_weight [OF r] assms show ?thesis
    by (simp add: finish_task_def r poc_weight_def length_remove1)
qed

lemma poc_internal_weight: "poc_internal px li s t \<Longrightarrow> poc_weight t < poc_weight s"
  by (auto elim!: poc_internal.cases intro: take_mail_weight finish_task_weight)

lemma poc_internal_count: "(poc_internal px li ^^ n) s t \<Longrightarrow> n + poc_weight t \<le> poc_weight s"
proof (induction n arbitrary: t)
  case (Suc n)
  then obtain u where "(poc_internal px li ^^ n) s u" "poc_internal px li u t" by auto
  with Suc.IH [of u] poc_internal_weight [of px li u t] show ?case by simp
qed simp

lemma poc_rests: "\<exists>u. (poc_internal px li)\<^sup>*\<^sup>* s u \<and> sy_tasks u = [] \<and> (sy_stopped u \<or> sy_mail u = [])"
proof (induction s rule: measure_induct_rule [of poc_weight])
  case (less s)
  show ?case
  proof (cases "sy_tasks s = [] \<and> (sy_stopped s \<or> sy_mail s = [])")
    case False
    then obtain t where "poc_internal px li s t"
      using poc_internal.mail poc_internal.task by (metis list.set_intros(1) neq_Nil_conv)
    with less [OF poc_internal_weight [OF this]] show ?thesis by (meson converse_rtranclp_into_rtranclp)
  qed blast
qed

text \<open>C33 The actor of a viewer cannot keep itself busy: in whatever order its messages and tasks are taken,
  whatever mediasoup answers, it does at most as many steps as the messages and tasks it starts
  with weigh, and from wherever it got it comes to rest, with no task left and no message that it
  would still read.\<close>

theorem poc_actor_drains:
  assumes "(poc_internal px li ^^ n) s t"
  shows "n \<le> poc_weight s
    \<and> (\<exists>u. (poc_internal px li)\<^sup>*\<^sup>* t u \<and> sy_tasks u = [] \<and> (sy_stopped u \<or> sy_mail u = []))"
  using poc_internal_count [OF assms] poc_rests by simp

lemma poc_actor_drains_witness:
  "\<exists>t. (poc_internal demo_poc demo_listen ^^ 1) (poc_fresh poc_app_new ()) t \<and> (1 :: nat) \<le> poc_weight (poc_fresh poc_app_new ())"
proof -
  let ?t = "finish_task demo_poc demo_listen TStart (poc_fresh poc_app_new ())"
  have "(poc_internal demo_poc demo_listen ^^ 1) (poc_fresh poc_app_new ()) ?t"
    by (simp add: poc_fresh_def poc_internal.task eq_OO)
  from poc_actor_drains [OF this] this show ?thesis by blast
qed

end
