(* ===== verification/SfuBandwidth.thy ===== *)
theory SfuBandwidth
  imports Bandwidth RouterManager
begin

text \<open>
  The bandwidth reporter on the SFU it samples (\<open>reporter.rs\<close> with \<open>list_active_sessions\<close> and
  \<open>get_session_bytes\<close> of \<open>router_manager.rs\<close>): what the reports see of the bytes of the viewers, and
  what they lose when a viewer leaves, since the total is that of the viewers who are there.
\<close>

section \<open>The reporter's view of the SFU\<close>

definition sfu_reporter ::
  "'w engine \<Rightarrow> ('w \<Rightarrow> date) \<Rightarrow> (edge_callback_event \<Rightarrow> ('w, unit edge_result) io)
   \<Rightarrow> (router_manager \<times> 'w) reporter_env" where
  "sfu_reporter eng now send =
     \<lparr>rp_active = (\<lambda>(rm, w). (list_active_sessions rm, rm, w)),
      rp_bytes = (\<lambda>sid (rm, w). case get_session_bytes eng rm sid w of
                    (r, w) \<Rightarrow> (map_err (\<lambda>_. Other ''transport stats'') r, rm, w)),
      rp_now = (\<lambda>(rm, w). now w),
      rp_send = (\<lambda>ev (rm, w). case send ev w of (r, w) \<Rightarrow> (r, rm, w))\<rparr>"

section \<open>The bytes of the viewers\<close>

text \<open>Reading the statistics changes nothing: \<open>stats w t\<close> are the counters of the transport \<open>t\<close> in \<open>w\<close>.\<close>

definition reads_stats :: "'w engine \<Rightarrow> ('w \<Rightarrow> string \<Rightarrow> (u64 \<times> u64) list) \<Rightarrow> bool" where
  "reads_stats eng stats \<longleftrightarrow> (\<forall>t w. ms_transport_stats eng t w = (Ok (stats w t), w))"

definition stat_sum :: "(u64 \<times> u64) list \<Rightarrow> nat" where
  "stat_sum l = sum_list (map (\<lambda>(received, sent). unat received + unat sent) l)"

definition viewer_bytes :: "(string \<Rightarrow> (u64 \<times> u64) list) \<Rightarrow> viewer_slot \<Rightarrow> nat" where
  "viewer_bytes stats v =
     stat_sum (stats (wt_id (vs_recv_transport v)))
     + (case vs_send_transport v of None \<Rightarrow> 0 | Some t \<Rightarrow> stat_sum (stats (wt_id t)))"

definition viewers_bytes :: "(string \<Rightarrow> (u64 \<times> u64) list) \<Rightarrow> (string, viewer_slot) dashmap \<Rightarrow> nat" where
  "viewers_bytes stats vs = sum_list (map (viewer_bytes stats \<circ> snd) vs)"

lemma unat_add_stats: "unat (add_stats l acc) = min (2 ^ 64 - 1) (unat acc + stat_sum l)"
proof (induction l arbitrary: acc)
  case Nil
  have "unat acc < 2 ^ 64" using unsigned_less [of acc] by simp
  then show ?case by (simp add: add_stats_def stat_sum_def)
next
  case (Cons x l)
  obtain r t where x: "x = (r, t)" by force
  have "add_stats (x # l) acc = add_stats l (saturating_add (saturating_add acc r) t)"
    by (simp add: add_stats_def x)
  then show ?case by (simp add: Cons.IH unat_saturating_add stat_sum_def x)
qed

lemma sum_viewer_bytes_total:
  assumes "reads_stats eng stats"
  shows "\<exists>n. sum_viewer_bytes eng vs acc w = (Ok n, w)
    \<and> unat n = min (2 ^ 64 - 1) (unat acc + sum_list (map (viewer_bytes (stats w)) vs))"
proof (induction vs arbitrary: acc)
  case Nil
  have "unat acc < 2 ^ 64" using unsigned_less [of acc] by simp
  then show ?case by simp
next
  case (Cons v vs)
  let ?acc = "case vs_send_transport v of
      None \<Rightarrow> add_stats (stats w (wt_id (vs_recv_transport v))) acc
    | Some t \<Rightarrow> add_stats (stats w (wt_id t)) (add_stats (stats w (wt_id (vs_recv_transport v))) acc)"
  have "sum_viewer_bytes eng (v # vs) acc w = sum_viewer_bytes eng vs ?acc w"
    using assms by (simp add: reads_stats_def rbind_def io_ctx_def Let_def split: option.split)
  moreover have "unat ?acc = min (2 ^ 64 - 1) (unat acc + viewer_bytes (stats w) v)"
    by (auto simp: unat_add_stats viewer_bytes_def min_def split: option.split)
  ultimately show ?case using Cons.IH [of ?acc] by (auto simp: min_def)
qed

lemma get_session_bytes_total:
  assumes "reads_stats eng stats" and "dm_get (rm_sessions rm) sid = Some s"
  shows "\<exists>n. get_session_bytes eng rm sid w = (Ok n, w)
    \<and> unat n = min (2 ^ 64 - 1) (viewers_bytes (stats w) (ss_viewers s))"
  using sum_viewer_bytes_total [OF assms(1), of "map snd (ss_viewers s)" 0 w] assms(2)
  by (auto simp: get_session_bytes_def viewers_bytes_def)

text \<open>A viewer who leaves takes its bytes out of the total.\<close>

lemma viewers_bytes_remove:
  "dm_ok vs \<Longrightarrow> dm_get vs v = Some slot \<Longrightarrow>
     viewers_bytes stats vs = viewers_bytes stats (dm_remove v vs) + viewer_bytes stats slot"
proof (induction vs)
  case (Cons x vs)
  obtain k u where x: "x = (k, u)" by force
  show ?case
  proof (cases "k = v")
    case True
    then have "dm_remove v vs = vs" using Cons.prems(1) by (simp add: x dm_ok_def)
    with True Cons.prems show ?thesis by (simp add: x viewers_bytes_def)
  next
    case False
    with Cons show ?thesis by (simp add: x viewers_bytes_def dm_ok_def)
  qed
qed simp

text \<open>What the traffic of the others amounts to since the last report, after a viewer has left: as long as it is
  less than what the viewer had used (and the threshold of 104858 bytes), nothing is reported, for
  the reporter takes the difference to the old total.\<close>

lemma departed_viewer_hides_traffic:
  assumes stats: "reads_stats eng stats" and s: "dm_get (rm_sessions rm) sid = Some s" "dm_ok (ss_viewers s)"
    and v: "dm_get (ss_viewers s) v = Some slot" "remove_viewer eng sid v (rm, w1) = (rm', w2)"
    and e: "dm_get st sid = Some e" "get_session_bytes eng rm sid w = (Ok (ses_cumulative_bytes e), w)"
    and rest: "viewers_bytes (stats w3) (dm_remove v (ss_viewers s))
        = viewers_bytes (stats w) (dm_remove v (ss_viewers s)) + used"
    and bounds: "viewers_bytes (stats w) (ss_viewers s) < 2 ^ 64"
      "viewers_bytes (stats w3) (dm_remove v (ss_viewers s)) < 2 ^ 64"
    and used: "used < viewer_bytes (stats w) slot + 104858"
  shows "\<exists>st'. report_one (sfu_reporter eng now send) base sid (st, f, rm', w3) = (Ok (), st', f, rm', w3)
    \<and> dm_get st' = dm_get st"
proof -
  let ?others = "dm_remove v (ss_viewers s)"
  have s': "dm_get (rm_sessions rm') sid = Some (s\<lparr>ss_viewers := ?others\<rparr>)"
    using v(2) s(1) by (auto simp: remove_viewer_def put_session_def)
  obtain n where n: "get_session_bytes eng rm' sid w3 = (Ok n, w3)"
      "unat n = viewers_bytes (stats w3) ?others"
    using get_session_bytes_total [OF stats s', of w3] bounds(2) by fastforce
  have "unat (ses_cumulative_bytes e) = viewers_bytes (stats w) ?others + viewer_bytes (stats w) slot"
    using get_session_bytes_total [OF stats s(1), of w] e(2) bounds(1)
      viewers_bytes_remove [OF s(2) v(1), of "stats w"] by auto
  then have "unat (saturating_sub n (ses_cumulative_bytes e)) < 104858"
    using n(2) rest used by (simp add: unat_saturating_sub)
  then have "bytes_to_mb (saturating_sub n (ses_cumulative_bytes e)) < min_delta_mb"
    by (simp only: below_threshold_iff)
  then show ?thesis
    using n(1) e(1) by (auto simp: report_one_def sfu_reporter_def Let_def fun_eq_iff)
qed

end
