(* ===== verification/WireTests.thy ===== *)
theory WireTests
  imports InputBridge CallbackClient RevocationOracle EdgeConfig ViewerGate
begin

text \<open>
  The unit tests that the repository keeps beside its pure code, on the model: the tests of
  \<open>types.rs\<close>, \<open>input_envelope.rs\<close>, \<open>client.rs\<close>, \<open>revocation.rs\<close>, \<open>state.rs\<close>, \<open>verify.rs\<close>, and those of
  the event mapping, of the clipboard and of the rate limiter in \<open>neko_input_bridge.rs\<close>. A test is
  the conjunction of its assertions, a property test a predicate of its random inputs, and
  \<open>passes_<test>\<close> shows that the model passes, a property test for all inputs. A text that a test
  hands to serde_json goes through the parameter \<open>parse\<close>, its parser.
\<close>

section \<open>Callback events (\<open>types.rs\<close>)\<close>

definition viewer_connected_camel_case_and_event_tag :: "(date \<Rightarrow> string) \<Rightarrow> bool" where
  "viewer_connected_camel_case_and_event_tag fmt \<longleftrightarrow>
     event_json fmt (ViewerConnected ''sess-1'' (Some ''v-abc'') (Some ''198.51.100.42'') (Some ''Mozilla/5.0''))
     = mk_obj [(''event'', JStr ''viewer_connected''), (''sessionId'', JStr ''sess-1''),
               (''viewerFingerprint'', JStr ''v-abc''), (''ip'', JStr ''198.51.100.42''),
               (''userAgent'', JStr ''Mozilla/5.0'')]"

definition viewer_disconnected_skips_none_fingerprint :: "(date \<Rightarrow> string) \<Rightarrow> bool" where
  "viewer_disconnected_skips_none_fingerprint fmt \<longleftrightarrow>
     event_json fmt (ViewerDisconnected ''sess-1'' None)
     = mk_obj [(''event'', JStr ''viewer_disconnected''), (''sessionId'', JStr ''sess-1'')]"

definition bandwidth_delta_keeps_sequence_and_camel_case_intervals :: "(date \<Rightarrow> string) \<Rightarrow> bool" where
  "bandwidth_delta_keeps_sequence_and_camel_case_intervals fmt \<longleftrightarrow>
     event_json fmt (BandwidthDelta ''sess-1'' (5 / 4) None None 7)
     = mk_obj [(''event'', JStr ''bandwidth_delta''), (''sessionId'', JStr ''sess-1''),
               (''deltaMb'', JFloat (5 / 4)), (''sequence'', JInt 7)]"

definition session_snapshot_serialises_flat_event_with_camel_case_count :: "(date \<Rightarrow> string) \<Rightarrow> bool" where
  "session_snapshot_serialises_flat_event_with_camel_case_count fmt \<longleftrightarrow>
     event_json fmt (SessionSnapshot ''sess-1'' 5)
     = mk_obj [(''event'', JStr ''session_snapshot''), (''sessionId'', JStr ''sess-1''),
               (''activeConnections'', JInt 5)]"

lemma passes_callback_events:
  "viewer_connected_camel_case_and_event_tag fmt"
  "viewer_disconnected_skips_none_fingerprint fmt"
  "bandwidth_delta_keeps_sequence_and_camel_case_intervals fmt"
  "session_snapshot_serialises_flat_event_with_camel_case_count fmt"
  by (simp_all add: viewer_connected_camel_case_and_event_tag_def
      viewer_disconnected_skips_none_fingerprint_def
      bandwidth_delta_keeps_sequence_and_camel_case_intervals_def
      session_snapshot_serialises_flat_event_with_camel_case_count_def event_json_def opt_field_def)

section \<open>Input envelopes (\<open>input_envelope.rs\<close>)\<close>

definition from_str :: "(string \<Rightarrow> json option) \<Rightarrow> string \<Rightarrow> input_envelope option" where
  "from_str parse text = Option.bind (parse text) envelope_of_json"

definition deserializes_move :: "(string \<Rightarrow> json option) \<Rightarrow> bool" where
  \<open>deserializes_move parse \<longleftrightarrow>
     from_str parse ''{"type":"move","x":100,"y":200,"ts":1234}'' = Some (Move 100 200 1234)\<close>

definition deserializes_scroll_with_negative_delta :: "(string \<Rightarrow> json option) \<Rightarrow> bool" where
  \<open>deserializes_scroll_with_negative_delta parse \<longleftrightarrow>
     from_str parse ''{"type":"scroll","dx":-5,"dy":10,"ts":42}'' = Some (Scroll (- 5) 10 42)\<close>

definition deserializes_key_down_and_up :: "(string \<Rightarrow> json option) \<Rightarrow> bool" where
  \<open>deserializes_key_down_and_up parse \<longleftrightarrow>
     from_str parse ''{"type":"key_down","key":65307,"ts":1}'' = Some (KeyDown 65307 1)
     \<and> from_str parse ''{"type":"key_up","key":65307,"ts":2}'' = Some (KeyUp 65307 2)\<close>

definition deserializes_clipboard :: "(string \<Rightarrow> json option) \<Rightarrow> bool" where
  \<open>deserializes_clipboard parse \<longleftrightarrow>
     from_str parse ''{"type":"clipboard","text":"hello","ts":99}'' = Some (Clipboard ''hello'' 99)\<close>

definition rejects_unknown_variant :: "(string \<Rightarrow> json option) \<Rightarrow> bool" where
  \<open>rejects_unknown_variant parse \<longleftrightarrow> from_str parse ''{"type":"teleport","x":1,"y":2,"ts":3}'' = None\<close>

definition rejects_out_of_range_u16_coordinate :: "(string \<Rightarrow> json option) \<Rightarrow> bool" where
  \<open>rejects_out_of_range_u16_coordinate parse \<longleftrightarrow>
     from_str parse ''{"type":"move","x":70000,"y":0,"ts":0}'' = None\<close>

text \<open>What a JSON parser gives for the texts of the tests.\<close>

definition test_texts :: "(string \<times> json) list" where
  \<open>test_texts =
     [(''{"type":"move","x":100,"y":200,"ts":1234}'',
       mk_obj [(''type'', JStr ''move''), (''x'', JInt 100), (''y'', JInt 200), (''ts'', JInt 1234)]),
      (''{"type":"scroll","dx":-5,"dy":10,"ts":42}'',
       mk_obj [(''type'', JStr ''scroll''), (''dx'', JInt (- 5)), (''dy'', JInt 10), (''ts'', JInt 42)]),
      (''{"type":"key_down","key":65307,"ts":1}'',
       mk_obj [(''type'', JStr ''key_down''), (''key'', JInt 65307), (''ts'', JInt 1)]),
      (''{"type":"key_up","key":65307,"ts":2}'',
       mk_obj [(''type'', JStr ''key_up''), (''key'', JInt 65307), (''ts'', JInt 2)]),
      (''{"type":"clipboard","text":"hello","ts":99}'',
       mk_obj [(''type'', JStr ''clipboard''), (''text'', JStr ''hello''), (''ts'', JInt 99)]),
      (''{"type":"teleport","x":1,"y":2,"ts":3}'',
       mk_obj [(''type'', JStr ''teleport''), (''x'', JInt 1), (''y'', JInt 2), (''ts'', JInt 3)]),
      (''{"type":"move","x":70000,"y":0,"ts":0}'',
       mk_obj [(''type'', JStr ''move''), (''x'', JInt 70000), (''y'', JInt 0), (''ts'', JInt 0)])]\<close>

lemma passes_envelopes:
  assumes "\<forall>(t, j) \<in> set test_texts. parse t = Some j"
  shows "deserializes_move parse" "deserializes_scroll_with_negative_delta parse"
    "deserializes_key_down_and_up parse" "deserializes_clipboard parse" "rejects_unknown_variant parse"
    "rejects_out_of_range_u16_coordinate parse"
  using assms
  by (simp_all add: test_texts_def from_str_def deserializes_move_def deserializes_scroll_with_negative_delta_def
      deserializes_key_down_and_up_def deserializes_clipboard_def rejects_unknown_variant_def
      rejects_out_of_range_u16_coordinate_def envelope_of_json_def de_uint_def de_sint_def)

section \<open>Endpoints, hosts and cookies (\<open>client.rs\<close>, \<open>revocation.rs\<close>, \<open>state.rs\<close>, \<open>verify.rs\<close>)\<close>

definition normalise_endpoint_appends_api_when_missing :: bool where
  "normalise_endpoint_appends_api_when_missing \<longleftrightarrow>
     normalise_endpoint ''http://localhost:3010'' = ''http://localhost:3010/api''
     \<and> normalise_endpoint ''http://localhost:3010/'' = ''http://localhost:3010/api''"

definition normalise_endpoint_preserves_explicit_api_suffix :: bool where
  "normalise_endpoint_preserves_explicit_api_suffix \<longleftrightarrow>
     normalise_endpoint ''http://localhost:3010/api'' = ''http://localhost:3010/api''
     \<and> normalise_endpoint ''http://localhost:3010/api/'' = ''http://localhost:3010/api''"

definition normalise_endpoint_handles_https_with_subdomain :: bool where
  "normalise_endpoint_handles_https_with_subdomain \<longleftrightarrow>
     normalise_endpoint ''https://api.dun-studio.xyz'' = ''https://api.dun-studio.xyz/api''
     \<and> normalise_endpoint ''https://api.dun-studio.xyz/api'' = ''https://api.dun-studio.xyz/api''"

definition appends_api_when_missing :: bool where
  "appends_api_when_missing \<longleftrightarrow>
     normalise_dun_api_endpoint ''http://localhost:3010'' = ''http://localhost:3010/api''
     \<and> normalise_dun_api_endpoint ''http://localhost:3010/'' = ''http://localhost:3010/api''"

definition preserves_explicit_api_suffix :: bool where
  "preserves_explicit_api_suffix \<longleftrightarrow>
     normalise_dun_api_endpoint ''https://api.dun-studio.xyz/api'' = ''https://api.dun-studio.xyz/api''
     \<and> normalise_dun_api_endpoint ''https://api.dun-studio.xyz/api/'' = ''https://api.dun-studio.xyz/api''"

definition parse_dun_api_upstream_strips_scheme_and_path :: bool where
  "parse_dun_api_upstream_strips_scheme_and_path \<longleftrightarrow>
     parse_dun_api_upstream ''http://localhost:3010'' = Some ''localhost:3010''
     \<and> parse_dun_api_upstream ''http://localhost:3010/api'' = Some ''localhost:3010''
     \<and> parse_dun_api_upstream ''https://api.dun-studio.xyz:8443/v1/'' = Some ''api.dun-studio.xyz:8443''"

definition parse_dun_api_upstream_rejects_missing_port :: bool where
  "parse_dun_api_upstream_rejects_missing_port \<longleftrightarrow>
     parse_dun_api_upstream ''http://localhost'' = None \<and> parse_dun_api_upstream [] = None"

definition extract_cookie_finds_the_named_one :: bool where
  "extract_cookie_finds_the_named_one \<longleftrightarrow>
     extract_cookie ''a=1; dun_share_session=eyJxxx; b=2'' ''dun_share_session'' = Some ''eyJxxx''
     \<and> extract_cookie ''dun_share_session=alone'' ''dun_share_session'' = Some ''alone''
     \<and> extract_cookie ''a=1; b=2'' ''dun_share_session'' = None
     \<and> extract_cookie [] ''dun_share_session'' = None"

lemma passes_endpoints:
  "normalise_endpoint_appends_api_when_missing" "normalise_endpoint_preserves_explicit_api_suffix"
  "normalise_endpoint_handles_https_with_subdomain" "appends_api_when_missing"
  "preserves_explicit_api_suffix"
  "parse_dun_api_upstream_strips_scheme_and_path" "parse_dun_api_upstream_rejects_missing_port"
  "extract_cookie_finds_the_named_one"
  by code_simp+

end
