(* ===== verification/StoreTests.thy ===== *)
theory StoreTests
  imports SequenceStore SubdomainStore Rathole PortAllocator
begin

text \<open>
  The unit tests of what the edge keeps on disk and of its ports, on the model: those of
  \<open>persistence.rs\<close>, \<open>subdomain_store.rs\<close>, \<open>config_writer.rs\<close>, \<open>service_registry.rs\<close> and
  \<open>port_allocator.rs\<close>. Each works in a fresh temporary directory without faults. A property test is a
  predicate of its random input and is shown for all inputs.
\<close>

section \<open>A temporary directory\<close>

definition temp_dir :: path where
  "temp_dir = [''tmp'', ''x'']"

definition temp_fs :: fs where
  "temp_fs = \<lparr>nodes = [([], Dir), ([''tmp''], Dir), (temp_dir, Dir)], faults = []\<rparr>"

text \<open>\<open>unwrap()\<close> of the result of a call: a test panics on an error, so it fails.\<close>

definition unwrapped :: "('a, 'e) result \<times> 's \<Rightarrow> ('a \<Rightarrow> 's \<Rightarrow> bool) \<Rightarrow> bool" where
  "unwrapped r k = (case r of (Ok x, s) \<Rightarrow> k x s | (Err _, _) \<Rightarrow> False)"

text \<open>\<open>tokio::fs::write\<close>.\<close>

definition fs_write :: "path \<Rightarrow> string \<Rightarrow> fs \<Rightarrow> (unit, io_error) result \<times> fs" where
  "fs_write p c = then_io (sys_open_trunc p) (sys_write_all p c)"

definition path_text :: "path \<Rightarrow> string" where
  "path_text p = concat (map (\<lambda>c. CHR ''/'' # c) p)"

section \<open>The sequence store (\<open>persistence.rs\<close>)\<close>

definition seq_save_load_roundtrip :: bool where
  "seq_save_load_roundtrip \<longleftrightarrow>
     unwrapped (seq_ensure_dir temp_dir temp_fs) (\<lambda>_ s.
     unwrapped (seq_save temp_dir ''sess1'' 42 s) (\<lambda>_ s.
     unwrapped (seq_load temp_dir ''sess1'' s) (\<lambda>v _. v = Some 42)))"

definition seq_load_missing_returns_none :: bool where
  "seq_load_missing_returns_none \<longleftrightarrow> unwrapped (seq_load temp_dir ''missing'' temp_fs) (\<lambda>v _. v = None)"

definition seq_remove_idempotent :: bool where
  "seq_remove_idempotent \<longleftrightarrow>
     unwrapped (seq_ensure_dir temp_dir temp_fs) (\<lambda>_ s.
     unwrapped (seq_save temp_dir ''s'' 1 s) (\<lambda>_ s.
     unwrapped (seq_remove temp_dir ''s'' s) (\<lambda>_ s.
     unwrapped (seq_remove temp_dir ''s'' s) (\<lambda>_ s.
     unwrapped (seq_load temp_dir ''s'' s) (\<lambda>v _. v = None)))))"

definition seq_load_all_skips_corrupt :: bool where
  "seq_load_all_skips_corrupt \<longleftrightarrow>
     unwrapped (seq_ensure_dir temp_dir temp_fs) (\<lambda>_ s.
     unwrapped (seq_save temp_dir ''good'' 7 s) (\<lambda>_ s.
     unwrapped (fs_write (path_join (path_join temp_dir ''seq'') ''bad'') ''not a number'' s) (\<lambda>_ s.
     unwrapped (seq_load_all temp_dir s) (\<lambda>m _. dm_get m ''good'' = Some 7 \<and> dm_get m ''bad'' = None))))"

definition seq_session_path_strips_traversal :: bool where
  "seq_session_path_strips_traversal \<longleftrightarrow>
     (let p = seq_session_path [''var'', ''lib'', ''foo''] ''../../etc/passwd''
      in \<not> str_contains ''..'' (path_text p))"

text \<open>The tests hold for every number, and then for the one they take: the directory is made and a
  file written in it by computation, the number read back by \<open>parse_u64_to_dec\<close>.\<close>

lemmas disk_defs = unwrapped_def seq_ensure_dir_def seq_dir_def temp_dir_def temp_fs_def path_join_def fs_defs
  seq_save_def dir_atomic_write_def seq_session_path_def path_parent_def file_name_def then_io_def
  write_tmp_and_rename_def remove_if_exists_def tmp_path_def sanitise_def safe_char_def
  is_ascii_alphanumeric_def is_digit_def fs_write_def

lemma parse_u64_words: "parse_u64 ''not a number'' = None"
proof -
  have "trim ''not a number'' = ''not a number''" by code_simp
  then show ?thesis by (simp add: parse_u64_def parse_uint_def is_digit_def)
qed

lemma save_load_any:
  "unwrapped (seq_ensure_dir temp_dir temp_fs) (\<lambda>_ s.
   unwrapped (seq_save temp_dir ''sess1'' n s) (\<lambda>_ s.
   unwrapped (seq_load temp_dir ''sess1'' s) (\<lambda>v _. v = Some n)))"
  by (simp add: disk_defs seq_load_def)

lemma load_all_any:
  "unwrapped (seq_ensure_dir temp_dir temp_fs) (\<lambda>_ s.
   unwrapped (seq_save temp_dir ''good'' n s) (\<lambda>_ s.
   unwrapped (fs_write (path_join (path_join temp_dir ''seq'') ''bad'') ''not a number'' s) (\<lambda>_ s.
   unwrapped (seq_load_all temp_dir s) (\<lambda>m _. dm_get m ''good'' = Some n \<and> dm_get m ''bad'' = None))))"
  by (simp add: disk_defs seq_load_all_def load_dir_def parse_u64_words)

lemma passes_sequence_store:
  "seq_save_load_roundtrip" "seq_load_all_skips_corrupt"
  by (simp_all only: seq_save_load_roundtrip_def save_load_any seq_load_all_skips_corrupt_def load_all_any)

lemma passes_sequence_store_gone:
  "seq_load_missing_returns_none" "seq_remove_idempotent" "seq_session_path_strips_traversal"
  by code_simp+

section \<open>The store of the hosts (\<open>subdomain_store.rs\<close>)\<close>

definition sub_save_load_roundtrip :: bool where
  "sub_save_load_roundtrip \<longleftrightarrow>
     unwrapped (sub_ensure_dir temp_dir temp_fs) (\<lambda>_ s.
     unwrapped (sub_save temp_dir ''sess1'' ''abc.sin.dun-studio.xyz'' s) (\<lambda>_ s.
     unwrapped (sub_load_all temp_dir s) (\<lambda>m _. dm_get m ''sess1'' = Some ''abc.sin.dun-studio.xyz'')))"

definition sub_remove_idempotent :: bool where
  "sub_remove_idempotent \<longleftrightarrow>
     unwrapped (sub_ensure_dir temp_dir temp_fs) (\<lambda>_ s.
     unwrapped (sub_save temp_dir ''s'' ''x.dun-studio.xyz'' s) (\<lambda>_ s.
     unwrapped (sub_remove temp_dir ''s'' s) (\<lambda>_ s.
     unwrapped (sub_remove temp_dir ''s'' s) (\<lambda>_ s.
     unwrapped (sub_load_all temp_dir s) (\<lambda>m _. dm_get m ''s'' = None)))))"

definition sub_load_all_skips_empty_files :: bool where
  "sub_load_all_skips_empty_files \<longleftrightarrow>
     unwrapped (sub_ensure_dir temp_dir temp_fs) (\<lambda>_ s.
     unwrapped (fs_write (path_join (path_join temp_dir ''subdomains'') ''empty'') [] s) (\<lambda>_ s.
     unwrapped (sub_save temp_dir ''good'' ''x.dun-studio.xyz'' s) (\<lambda>_ s.
     unwrapped (sub_load_all temp_dir s) (\<lambda>m _. length m = 1 \<and> dm_get m ''good'' \<noteq> None))))"

definition sub_session_path_strips_traversal :: bool where
  "sub_session_path_strips_traversal \<longleftrightarrow>
     (let p = sub_session_path [''var'', ''lib'', ''foo''] ''../../etc/passwd''
      in \<not> str_contains ''..'' (path_text p))"

lemma passes_subdomain_store:
  "sub_save_load_roundtrip" "sub_remove_idempotent" "sub_load_all_skips_empty_files"
  "sub_session_path_strips_traversal"
  by code_simp+

section \<open>The configuration of rathole (\<open>config_writer.rs\<close>)\<close>

text \<open>
  The tests read the TOML text. For names and values that need no quoting or escaping, TOML writes
  a table per service in this way; what they show is for every encoder that does.
\<close>

definition toml_line :: "string \<Rightarrow> string \<Rightarrow> string" where
  "toml_line k v = k @ '' = '' @ [CHR 0x22] @ v @ [CHR 0x22] @ [CHR 0x0A]"

definition toml_service :: "string \<times> service_entry \<Rightarrow> string" where
  "toml_service s =
     (case s of (name, e) \<Rightarrow>
        [CHR 0x0A] @ ''[server.services.'' @ name @ '']'' @ [CHR 0x0A]
        @ toml_line ''token'' (se_token e) @ toml_line ''bind_addr'' (se_bind_addr e)
        @ (case se_type e of None \<Rightarrow> [] | Some t \<Rightarrow> toml_line ''type'' t))"

definition toml_text :: "rathole_config \<Rightarrow> string" where
  "toml_text cfg =
     ''[server]'' @ [CHR 0x0A] @ toml_line ''bind_addr'' (sc_bind_addr (rc_server cfg))
     @ (if sc_services (rc_server cfg) = [] then [CHR 0x0A] @ ''[server.services]'' @ [CHR 0x0A]
        else concat (map toml_service (sc_services (rc_server cfg))))"

text \<open>\<open>find(p).unwrap()\<close>.\<close>

fun str_find :: "string \<Rightarrow> string \<Rightarrow> nat option" where
  "str_find p [] = (if p = [] then Some 0 else None)"
| "str_find p (c # s) = (if prefix p (c # s) then Some 0 else map_option Suc (str_find p s))"

definition render_toml_stable_ordering :: "toml_enc \<Rightarrow> bool" where
  "render_toml_stable_ordering enc \<longleftrightarrow>
     (let svcs = [\<lparr>rs_name = ''zzz'', rs_token_hash = ''tokz'', rs_bind_addr = ''0.0.0.0:11001'', rs_transport = None\<rparr>,
                  \<lparr>rs_name = ''aaa'', rs_token_hash = ''toka'', rs_bind_addr = ''0.0.0.0:11002'', rs_transport = None\<rparr>]
      in case (render_toml enc ''0.0.0.0:2333'' svcs, render_toml enc ''0.0.0.0:2333'' svcs) of
           (Ok out1, Ok out2) \<Rightarrow>
             out1 = out2
             \<and> (case (str_find ''services.aaa'' out1, str_find ''services.zzz'' out1) of
                  (Some aaa_pos, Some zzz_pos) \<Rightarrow> aaa_pos < zzz_pos
                | _ \<Rightarrow> False)
         | _ \<Rightarrow> False)"

definition render_toml_tcp_default_omits_type_field :: "toml_enc \<Rightarrow> bool" where
  "render_toml_tcp_default_omits_type_field enc \<longleftrightarrow>
     (case render_toml enc ''0.0.0.0:2333''
        [\<lparr>rs_name = ''abc'', rs_token_hash = ''tok'', rs_bind_addr = ''0.0.0.0:11042'', rs_transport = Some Tcp\<rparr>] of
        Ok out \<Rightarrow> \<not> str_contains ''type'' out \<and> str_contains ''services.abc'' out
      | Err _ \<Rightarrow> False)"

definition render_toml_udp_emits_type_field :: "toml_enc \<Rightarrow> bool" where
  "render_toml_udp_emits_type_field enc \<longleftrightarrow>
     (case render_toml enc ''0.0.0.0:2333''
        [\<lparr>rs_name = ''session-rtp'', rs_token_hash = ''tok'', rs_bind_addr = ''0.0.0.0:50042'', rs_transport = Some Udp\<rparr>] of
        Ok out \<Rightarrow> str_contains (''type = '' @ [CHR 0x22] @ ''udp'' @ [CHR 0x22]) out
      | Err _ \<Rightarrow> False)"

definition atomic_write_creates_file :: bool where
  "atomic_write_creates_file \<longleftrightarrow>
     (let path = path_join temp_dir ''rathole.toml''
      in unwrapped (config_atomic_write path ''hello'' temp_fs) (\<lambda>_ s.
         unwrapped (sys_read_to_string path s) (\<lambda>r _. r = ''hello'')))"

lemma passes_config_writer:
  "render_toml_stable_ordering (Ok \<circ> toml_text)" "render_toml_tcp_default_omits_type_field (Ok \<circ> toml_text)"
  "render_toml_udp_emits_type_field (Ok \<circ> toml_text)" "atomic_write_creates_file"
  by code_simp+

section \<open>The registry (\<open>service_registry.rs\<close>)\<close>

text \<open>The tests run without the variables that ask for a reload.\<close>

definition quiet_host :: "unit host" where
  "quiet_host = \<lparr>h_env = (\<lambda>_. None), h_kill = (\<lambda>_ w. (True, w)), h_exec = (\<lambda>_ _ w. (Ok True, w))\<rparr>"

definition sess1 :: "string \<Rightarrow> rathole_service" where
  "sess1 token = \<lparr>rs_name = ''sess1'', rs_token_hash = token, rs_bind_addr = ''0.0.0.0:11001'', rs_transport = None\<rparr>"

definition registered ::
  "toml_enc \<Rightarrow> rathole_service \<Rightarrow> (path \<Rightarrow> registry \<Rightarrow> fs \<Rightarrow> bool) \<Rightarrow> bool" where
  "registered enc svc k =
     (let path = path_join temp_dir ''rathole.toml''
      in unwrapped (registry_register enc quiet_host svc (registry_new quiet_host path, temp_fs, ()))
           (\<lambda>_ (r, s, _). k path r s))"

definition register_then_list_returns_entry :: "toml_enc \<Rightarrow> bool" where
  "register_then_list_returns_entry enc \<longleftrightarrow>
     registered enc (sess1 ''hash1'') (\<lambda>path r s.
       let listed = registry_list r in
       length listed = 1 \<and> rs_name (listed ! 0) = ''sess1''
       \<and> unwrapped (sys_read_to_string path s) (\<lambda>toml _. str_contains ''sess1'' toml \<and> str_contains ''hash1'' toml))"

definition update_token_rewrites_existing_entry :: "toml_enc \<Rightarrow> bool" where
  "update_token_rewrites_existing_entry enc \<longleftrightarrow>
     registered enc (sess1 ''token-a'') (\<lambda>path r s.
     unwrapped (registry_update_token enc quiet_host ''nope'' ''token-x'' (r, s, ())) (\<lambda>known (r, s, w).
     \<not> known \<and>
     unwrapped (registry_update_token enc quiet_host ''sess1'' ''token-b'' (r, s, w)) (\<lambda>known (r, s, w).
     known \<and> 0 < length (registry_list r) \<and> rs_token_hash (registry_list r ! 0) = ''token-b''
     \<and> unwrapped (sys_read_to_string path s) (\<lambda>toml _.
         str_contains ''token-b'' toml \<and> \<not> str_contains ''token-a'' toml))))"

definition deregister_removes_entry :: "toml_enc \<Rightarrow> bool" where
  "deregister_removes_entry enc \<longleftrightarrow>
     registered enc (sess1 ''hash1'') (\<lambda>path r s.
     unwrapped (registry_deregister enc quiet_host ''sess1'' (r, s, ())) (\<lambda>_ (r, s, _).
     length (registry_list r) = 0
     \<and> unwrapped (sys_read_to_string path s) (\<lambda>toml _. \<not> str_contains ''sess1'' toml)))"

lemma passes_registry:
  "register_then_list_returns_entry (Ok \<circ> toml_text)" "update_token_rewrites_existing_entry (Ok \<circ> toml_text)"
  "deregister_removes_entry (Ok \<circ> toml_text)"
  by code_simp+

section \<open>Ports (\<open>port_allocator.rs\<close>)\<close>

text \<open>The test asks \<open>seed mod 50\<close> times, and each time for a port of the range.\<close>

fun ports_in_range :: "nat \<Rightarrow> port_pool \<Rightarrow> bool" where
  "ports_in_range 0 alloc = True"
| "ports_in_range (Suc n) alloc =
     unwrapped (allocate alloc) (\<lambda>port alloc. port_min \<le> port \<and> port \<le> port_max \<and> ports_in_range n alloc)"

definition allocated_port_in_range :: "u32 \<Rightarrow> bool" where
  "allocated_port_in_range seed = ports_in_range (unat (seed mod 50)) port_allocator_new"

lemma ports_in_range_pool: "pool_ok free \<Longrightarrow> n \<le> length free \<Longrightarrow> ports_in_range n free"
  by (induction n free rule: ports_in_range.induct; case_tac alloc)
    (auto simp: unwrapped_def pool_ok_def)

lemma passes_allocated_port_in_range: "allocated_port_in_range seed"
proof -
  have "unat (seed mod 50) < 50" by (simp add: unat_mod)
  moreover have "length port_allocator_new = 1000"
    unfolding port_allocator_new_def length_map length_upt by (simp add: port_min_def port_max_def)
  moreover have "pool_ok port_allocator_new"
    using port_allocator_new_ok by (simp add: ports.partitioned_def)
  ultimately show ?thesis
    unfolding allocated_port_in_range_def by (intro ports_in_range_pool) simp_all
qed

end
