(* ===== verification/AuthTests.thy ===== *)
theory AuthTests
  imports Jwt ViewerGate
begin

text \<open>
  The unit tests of \<open>jwt.rs\<close> and of \<open>revocation.rs\<close> of the viewer gate on the model. The tests of
  the tokens sign with the \<open>jsonwebtoken\<close> crate, so they are predicates of it, and hold for every
  crate that reads back what it wrote; the gate's poll task is run for any number of failing polls.
\<close>

section \<open>Tunnel tokens (\<open>jwt.rs\<close>)\<close>

text \<open>\<open>encode\<close> of a key id and claims under a secret, \<open>decode_header\<close> and \<open>decode\<close>.\<close>

record jwt_crate =
  jc_encode :: "string option \<Rightarrow> tunnel_claims \<Rightarrow> string \<Rightarrow> string"
  jc_header :: "string \<Rightarrow> (string option, string) result"
  jc_decode :: "tunnel_claims jwt_decode"

text \<open>A token carries its key id, and decodes under the secret that signed it, for its audience, until it
  expires.\<close>

definition reads_back :: "jwt_crate \<Rightarrow> int \<Rightarrow> bool" where
  "reads_back jc now \<longleftrightarrow>
     (\<forall>kid c secret. jc_header jc (jc_encode jc kid c secret) = Ok kid
        \<and> (now < tc_exp c \<longrightarrow> jc_decode jc (jc_encode jc kid c secret) secret (tc_aud c) = Ok c))"

definition make_token :: "jwt_crate \<Rightarrow> string \<Rightarrow> tunnel_claims \<Rightarrow> string" where
  "make_token jc secret claims = jc_encode jc (Some (tc_kid claims)) claims secret"

definition test_secret :: string where
  "test_secret = replicate 32 CHR ''a''"

definition test_claims :: "int \<Rightarrow> tunnel_claims" where
  "test_claims now =
     \<lparr>tc_sub = ''sess'', tc_aud = ''tunnel-server'', tc_exp = now + 600, tc_iat = now, tc_jti = ''jti1'',
      tc_region = ''sin'', tc_kid = ''v1''\<rparr>"

definition test_verifier :: "'w jwt_verifier" where
  "test_verifier = add_key ''v1'' test_secret jwt_verifier_new"

definition verify_tunnel_happy_path :: "jwt_crate \<Rightarrow> int \<Rightarrow> 'w \<Rightarrow> bool" where
  "verify_tunnel_happy_path jc now w \<longleftrightarrow>
     (let token = make_token jc test_secret (test_claims now)
      in case verify_tunnel (jc_header jc) (jc_decode jc) test_verifier token ''sin'' w of
           (Ok out, _) \<Rightarrow> tc_jti out = ''jti1''
         | (Err _, _) \<Rightarrow> False)"

definition verify_tunnel_region_mismatch :: "jwt_crate \<Rightarrow> int \<Rightarrow> 'w \<Rightarrow> bool" where
  "verify_tunnel_region_mismatch jc now w \<longleftrightarrow>
     (let token = make_token jc test_secret (test_claims now)
      in case verify_tunnel (jc_header jc) (jc_decode jc) test_verifier token ''iad'' w of
           (Err (RegionMismatch _ _), _) \<Rightarrow> True
         | _ \<Rightarrow> False)"

definition always_revoked :: "'w rev_oracle" where
  "always_revoked jti w = (Ok True, w)"

definition oracle_fails :: "'w rev_oracle" where
  "oracle_fails jti w = (Err (Config ''upstream down''), w)"

definition revoked_jti_rejected :: "jwt_crate \<Rightarrow> int \<Rightarrow> 'w \<Rightarrow> bool" where
  "revoked_jti_rejected jc now w \<longleftrightarrow>
     (let token = make_token jc test_secret (test_claims now);
          v = with_revocation always_revoked test_verifier
      in case verify_tunnel (jc_header jc) (jc_decode jc) v token ''sin'' w of
           (Err (TokenRevoked _), _) \<Rightarrow> True
         | _ \<Rightarrow> False)"

definition oracle_failure_fails_closed :: "jwt_crate \<Rightarrow> int \<Rightarrow> 'w \<Rightarrow> bool" where
  "oracle_failure_fails_closed jc now w \<longleftrightarrow>
     (let token = make_token jc test_secret (test_claims now);
          v = with_revocation oracle_fails test_verifier
      in case verify_tunnel (jc_header jc) (jc_decode jc) v token ''sin'' w of
           (Err (TokenRevoked _), _) \<Rightarrow> True
         | _ \<Rightarrow> False)"

lemma test_token_decodes:
  assumes "reads_back jc now" and "dm_get (jv_keys v) ''v1'' = Some test_secret"
  shows "decode_with_kid (jc_header jc) (jc_decode jc) v (make_token jc test_secret (test_claims now)) ''tunnel-server''
     = Ok (test_claims now)"
proof -
  let ?c = "test_claims now"
  have c: "tc_aud ?c = ''tunnel-server''" "now < tc_exp ?c" "tc_kid ?c = ''v1''" by (simp_all add: test_claims_def)
  have "jc_decode jc (jc_encode jc (Some ''v1'') ?c test_secret) test_secret (tc_aud ?c) = Ok ?c"
    using assms(1) c(2) by (simp add: reads_back_def)
  with assms c show ?thesis by (simp add: decode_with_kid_Ok make_token_def reads_back_def)
qed

lemma passes_tunnel_tokens:
  fixes w :: 'w
  assumes "reads_back jc now"
  shows "verify_tunnel_happy_path jc now w" "verify_tunnel_region_mismatch jc now w"
    "revoked_jti_rejected jc now w" "oracle_failure_fails_closed jc now w"
  using test_token_decodes [OF assms, of "test_verifier :: 'w jwt_verifier"]
    test_token_decodes [OF assms, of "with_revocation always_revoked test_verifier :: 'w jwt_verifier"]
    test_token_decodes [OF assms, of "with_revocation oracle_fails test_verifier :: 'w jwt_verifier"]
  by (simp_all add: verify_tunnel_happy_path_def verify_tunnel_region_mismatch_def revoked_jti_rejected_def
      oracle_failure_fails_closed_def verify_tunnel_def check_revocation_def test_verifier_def add_key_lookup
      with_revocation_def jwt_verifier_new_def add_key_def always_revoked_def oracle_fails_def test_claims_def)

section \<open>The revocation list (\<open>revocation.rs\<close>)\<close>

definition no_polling_url_means_always_fresh :: "nat \<Rightarrow> bool" where
  "no_polling_url_means_always_fresh now \<longleftrightarrow>
     (let r = revocation_start None 10000 in is_fresh now r \<and> \<not> rl_contains r ''anything'')"

text \<open>The list after \<open>n\<close> rounds of the task, looked at at some time \<open>now\<close>.\<close>

definition polling_url_starts_unfresh :: "'w poll_env \<Rightarrow> nat \<Rightarrow> nat \<Rightarrow> nat \<Rightarrow> 'w \<Rightarrow> bool" where
  "polling_url_starts_unfresh e start n now w \<longleftrightarrow>
     (let url = ''http://127.0.0.1:1/never-listens'';
          r = revocation_start (Some url) 1;
          task = poll_loop e (poller_start url None 50 1) n
      in case task (\<lparr>ps_list = r, ps_quiet_streak = 0, ps_next_at = start\<rparr>, w) of
           (s, _) \<Rightarrow> \<not> is_fresh now (ps_list s))"

lemma failing_polls_keep_list:
  assumes "\<And>u h w. \<not> is_ok (fst (pe_get e u h w))"
  shows "ps_list (fst (poll_loop e p n st)) = ps_list (fst st)"
proof (induction n)
  case (Suc n)
  obtain s w where st: "poll_loop e p n st = (s, w)" by force
  define w1 where "w1 = (if ps_next_at s > pe_clock e w then pe_sleep e (ps_next_at s - pe_clock e w) w else w)"
  obtain err w2 where "pe_get e (po_url p) (poll_headers p (ps_list s)) w1 = (Err err, w2)"
    using assms [of "po_url p" "poll_headers p (ps_list s)" w1] by (metis is_ok.simps(1) prod.collapse result.exhaust)
  with Suc st show ?case by (simp add: poll_step_def Let_def w1_def)
qed simp

lemma passes_revocation_list:
  "no_polling_url_means_always_fresh now"
  "(\<And>u h w. \<not> is_ok (fst (pe_get e u h w))) \<Longrightarrow> polling_url_starts_unfresh e start n now w"
  by (simp_all add: no_polling_url_means_always_fresh_def polling_url_starts_unfresh_def revocation_start_def
      is_fresh_def rl_contains_def case_prod_beta failing_polls_keep_list)

end
