(* ===== verification/InputTests.thy ===== *)
theory InputTests
  imports InputBridge
begin

text \<open>
  The unit and property tests of \<open>neko_input_bridge.rs\<close> on the model: the mapping of the envelopes, the
  cut of the clipboard, the rate limiter and the claim of control. A property test is a predicate of
  its random inputs, shown for all inputs; \<open>passes_<test>\<close> shows that the model passes.
\<close>

section \<open>Connecting\<close>

text \<open>The registry of the process does not have the sessions of the tests.\<close>

definition connect_rejects_non_ws_url :: "'w ws \<Rightarrow> bridges \<times> 'w \<Rightarrow> bool" where
  "connect_rejects_non_ws_url ws st \<longleftrightarrow>
     (case bridge_connect ws ''sess-1'' ''http://example.com'' ''tok'' st of (res, _) \<Rightarrow> \<not> is_ok res)"

definition connect_rejects_garbage_url :: "'w ws \<Rightarrow> bridges \<times> 'w \<Rightarrow> bool" where
  "connect_rejects_garbage_url ws st \<longleftrightarrow>
     (case bridge_connect ws ''sess-2'' ''not a url'' ''tok'' st of (res, _) \<Rightarrow> \<not> is_ok res)"

text \<open>The WebSocket client refuses a url that is not one of its own, when the request is built or when it
  connects.\<close>

definition refuses :: "'w ws \<Rightarrow> string \<Rightarrow> string \<Rightarrow> bool" where
  "refuses ws url token \<longleftrightarrow>
     \<not> is_ok (ws_request ws url token) \<or> (\<forall>w. \<not> is_ok (fst (ws_connect ws url token w)))"

lemma refused_connect:
  assumes "refuses ws url token" and "dm_get (bs_registry bs) sid = None"
  shows "\<not> is_ok (fst (bridge_connect ws sid url token (bs, w)))"
proof (cases "ws_request ws url token")
  case (Ok u)
  with assms(1) have "\<not> is_ok (fst (ws_connect ws url token w))" by (simp add: refuses_def)
  with Ok assms(2) show ?thesis
    by (cases "ws_connect ws url token w"; cases "fst (ws_connect ws url token w)") (auto simp: bridge_connect_def)
next
  case (Err e)
  with assms(2) show ?thesis by (simp add: bridge_connect_def)
qed

lemma passes_connect_rejects:
  assumes "refuses ws ''http://example.com'' ''tok''" and "refuses ws ''not a url'' ''tok''"
    and "dm_get (bs_registry bs) ''sess-1'' = None" and "dm_get (bs_registry bs) ''sess-2'' = None"
  shows "connect_rejects_non_ws_url ws (bs, w)" and "connect_rejects_garbage_url ws (bs, w)"
  using refused_connect [OF assms(1,3)] refused_connect [OF assms(2,4)]
  by (simp_all add: connect_rejects_non_ws_url_def connect_rejects_garbage_url_def case_prod_beta)

section \<open>Events\<close>

definition maps_move_to_control_mouse :: bool where
  "maps_move_to_control_mouse \<longleftrightarrow>
     envelope_to_event (Move 100 200 1)
     = mk_obj [(''event'', JStr ''control/mouse''), (''x'', JInt 100), (''y'', JInt 200)]"

definition maps_scroll_delta_to_control_scroll_xy :: bool where
  "maps_scroll_delta_to_control_scroll_xy \<longleftrightarrow>
     envelope_to_event (Scroll (- 5) 10 1)
     = mk_obj [(''event'', JStr ''control/scroll''), (''x'', JInt (- 5)), (''y'', JInt 10)]"

definition maps_key_down_and_up_with_pressed_flag :: bool where
  "maps_key_down_and_up_with_pressed_flag \<longleftrightarrow>
     envelope_to_event (KeyDown 65307 1)
     = mk_obj [(''event'', JStr ''control/keyboard''), (''key'', JInt 65307), (''pressed'', JBool True)]
     \<and> envelope_to_event (KeyUp 65307 2)
       = mk_obj [(''event'', JStr ''control/keyboard''), (''key'', JInt 65307), (''pressed'', JBool False)]"

definition maps_clipboard_to_control_clipboard :: bool where
  "maps_clipboard_to_control_clipboard \<longleftrightarrow>
     envelope_to_event (Clipboard ''hello'' 1)
     = mk_obj [(''event'', JStr ''control/clipboard''), (''text'', JStr ''hello'')]"

lemma passes_maps:
  "maps_move_to_control_mouse" "maps_scroll_delta_to_control_scroll_xy"
  "maps_key_down_and_up_with_pressed_flag" "maps_clipboard_to_control_clipboard"
  by (simp_all add: maps_move_to_control_mouse_def maps_scroll_delta_to_control_scroll_xy_def
      maps_key_down_and_up_with_pressed_flag_def maps_clipboard_to_control_clipboard_def envelope_to_event_def
      truncate_clipboard_def max_clipboard_bytes_def)

text \<open>The property of the mapping, with serde_json's \<open>as_u64\<close> and \<open>as_i64\<close> of a number, and \<open>as_bool\<close>.\<close>

definition prop_envelope_to_event_injectivity :: "input_envelope \<Rightarrow> bool" where
  "prop_envelope_to_event_injectivity env \<longleftrightarrow>
     (let obj = envelope_to_event env in
      case Option.bind (j_get ''event'' obj) j_str of
        None \<Rightarrow> False
      | Some kind \<Rightarrow>
          (case env of
             Move x y _ \<Rightarrow> kind = ''control/mouse'' \<and> de_uint 64 (j_get ''x'' obj) = Some (uint x)
               \<and> de_uint 64 (j_get ''y'' obj) = Some (uint y)
           | Scroll dx dy _ \<Rightarrow> kind = ''control/scroll'' \<and> de_sint 64 (j_get ''x'' obj) = Some (sint dx)
               \<and> de_sint 64 (j_get ''y'' obj) = Some (sint dy)
           | KeyDown key _ \<Rightarrow> kind = ''control/keyboard'' \<and> de_uint 64 (j_get ''key'' obj) = Some (uint key)
               \<and> j_get ''pressed'' obj = Some (JBool True)
           | KeyUp key _ \<Rightarrow> kind = ''control/keyboard'' \<and> de_uint 64 (j_get ''key'' obj) = Some (uint key)
               \<and> j_get ''pressed'' obj = Some (JBool False)
           | Clipboard _ _ \<Rightarrow> kind = ''control/clipboard''
               \<and> (case Option.bind (j_get ''text'' obj) j_str of None \<Rightarrow> False
                  | Some text \<Rightarrow> length text \<le> max_clipboard_bytes)))"

lemma de_uint_uint: "LENGTH('a::len) \<le> n \<Longrightarrow> de_uint n (Some (JInt (uint (x :: 'a word)))) = Some (uint x)"
proof -
  assume n: "LENGTH('a) \<le> n"
  have "uint x < 2 ^ LENGTH('a)" by simp
  also have "(2::int) ^ LENGTH('a) \<le> 2 ^ n" using n by (intro power_increasing) auto
  finally show ?thesis by (simp add: de_uint_def)
qed

lemma de_sint_16: "de_sint 64 (Some (JInt (sint (x :: 16 word)))) = Some (sint x)"
  using sint_ge [of x] sint_lt [of x] by (simp add: de_sint_def)

lemma truncate_clipboard_cap: "length (truncate_clipboard s) \<le> max_clipboard_bytes"
  using walk_back_le [of s max_clipboard_bytes] by (simp add: truncate_clipboard_def)

lemma passes_prop_envelope_to_event_injectivity: "prop_envelope_to_event_injectivity env"
  by (cases env) (simp_all add: prop_envelope_to_event_injectivity_def envelope_to_event_def Let_def de_uint_uint
      de_sint_16 truncate_clipboard_cap)

section \<open>The clipboard\<close>

definition truncate_clipboard_leaves_short_text_unchanged :: bool where
  "truncate_clipboard_leaves_short_text_unchanged \<longleftrightarrow>
     truncate_clipboard ''hello'' = ''hello''
     \<and> (let exact = replicate max_clipboard_bytes CHR ''a''
        in length (truncate_clipboard exact) = max_clipboard_bytes)"

definition truncate_clipboard_clamps_oversized_ascii :: bool where
  "truncate_clipboard_clamps_oversized_ascii \<longleftrightarrow>
     (let big = replicate (max_clipboard_bytes + 500) CHR ''a'';
          out = truncate_clipboard big
      in length out = max_clipboard_bytes)"

text \<open>The euro sign in UTF-8; a text is made of euro signs alone when it is a repetition of its bytes.\<close>

definition euro :: string where
  "euro = [CHR 0xE2, CHR 0x82, CHR 0xAC]"

definition euros :: "nat \<Rightarrow> string" where
  "euros n = concat (replicate n euro)"

definition truncate_clipboard_never_splits_utf8_char :: bool where
  "truncate_clipboard_never_splits_utf8_char \<longleftrightarrow>
     (let count = max_clipboard_bytes div length euro + 10;
          big = euros count;
          out = truncate_clipboard big
      in length out \<le> max_clipboard_bytes \<and> out = euros (length out div length euro))"

lemma euro_length [simp]: "length euro = 3"
  by (simp add: euro_def)

lemma euros_simps [simp]: "euros 0 = []" "euros (Suc n) = euro @ euros n"
  by (simp_all add: euros_def)

lemma length_euros [simp]: "length (euros n) = 3 * n"
  by (induction n) simp_all

lemma take_euros: "take (3 * k) (euros n) = euros (min k n)"
proof (induction n arbitrary: k)
  case (Suc n)
  then show ?case by (cases k) simp_all
qed simp

lemma nth_euros: "i < 3 * n \<Longrightarrow> euros n ! i = euro ! (i mod 3)"
proof (induction n arbitrary: i)
  case (Suc n)
  then show ?case using Suc.IH [of "i - 3"] by (cases "i < 3") (simp_all add: nth_append le_mod_geq)
qed simp

lemma euros_boundary: "i < 3 * n \<Longrightarrow> is_char_boundary (euros n) i \<longleftrightarrow> i mod 3 = 0"
proof -
  assume i: "i < 3 * n"
  have "i mod 3 = 0 \<or> i mod 3 = 1 \<or> i mod 3 = 2" by linarith
  with i show ?thesis by (auto simp: is_char_boundary_def nth_euros euro_def is_cont_def)
qed

lemma walk_back_ascii: "n \<le> m \<Longrightarrow> walk_back (replicate m CHR ''a'') n = n"
  by (cases n) (auto simp: is_char_boundary_def is_cont_def)

lemma passes_truncate_clipboard:
  "truncate_clipboard_leaves_short_text_unchanged" "truncate_clipboard_clamps_oversized_ascii"
  by (simp_all add: truncate_clipboard_leaves_short_text_unchanged_def truncate_clipboard_clamps_oversized_ascii_def
      truncate_clipboard_def walk_back_ascii max_clipboard_bytes_def)

lemma passes_truncate_clipboard_never_splits_utf8_char: "truncate_clipboard_never_splits_utf8_char"
proof -
  let ?big = "euros 2740"
  have "walk_back ?big 8192 = 8190"
  proof -
    have "walk_back ?big 8192 mod 3 = 0"
      using walk_back_boundary [of ?big 8192] walk_back_le [of ?big 8192] by (simp add: euros_boundary)
    moreover have "8190 \<le> walk_back ?big 8192" by (rule walk_back_greatest) (simp_all add: euros_boundary)
    ultimately show ?thesis using walk_back_le [of ?big 8192] by presburger
  qed
  then have "truncate_clipboard ?big = take (3 * 2730) ?big"
    by (simp add: truncate_clipboard_def max_clipboard_bytes_def)
  then have "truncate_clipboard ?big = euros 2730" unfolding take_euros by simp
  then show ?thesis
    by (simp add: truncate_clipboard_never_splits_utf8_char_def max_clipboard_bytes_def)
qed

section \<open>The rate limiter\<close>

definition rate_limiter_new :: rate_limiter where
  "rate_limiter_new = []"

text \<open>A loop that asserts that each of \<open>n\<close> events at \<open>t\<close> is admitted.\<close>

fun admits :: "nat \<Rightarrow> nat \<Rightarrow> rate_limiter \<Rightarrow> (rate_limiter \<Rightarrow> bool) \<Rightarrow> bool" where
  "admits 0 t rl k = k rl"
| "admits (Suc n) t rl k = (case allow t rl of (ok, rl) \<Rightarrow> ok \<and> admits n t rl k)"

definition rate_limiter_admits_up_to_cap_at_same_instant :: "nat \<Rightarrow> bool" where
  "rate_limiter_admits_up_to_cap_at_same_instant t \<longleftrightarrow>
     admits max_events_per_second t rate_limiter_new (\<lambda>rl. \<not> fst (allow t rl))"

definition rate_limiter_refills_after_window_elapses :: "nat \<Rightarrow> bool" where
  "rate_limiter_refills_after_window_elapses t0 \<longleftrightarrow>
     admits max_events_per_second t0 rate_limiter_new (\<lambda>rl.
       case allow t0 rl of (ok, rl) \<Rightarrow>
         \<not> ok
         \<and> (let t1 = t0 + rate_window
            in admits max_events_per_second t1 rl (\<lambda>rl. \<not> fst (allow t1 rl))))"

lemma allow_same: "allow t (replicate n t) = (if n < 60 then (True, replicate (Suc n) t) else (False, replicate n t))"
proof -
  have "dropWhile (\<lambda>front. t - front \<ge> rate_window) (replicate n t) = replicate n t"
    by (cases n) (simp_all add: rate_window_def)
  then show ?thesis by (simp add: allow_def max_events_per_second_def replicate_append_same)
qed

lemma allow_stale:
  "allow (t + rate_window) (replicate n t) = (True, replicate (Suc 0) (t + rate_window))"
proof -
  have "dropWhile (\<lambda>front. t + rate_window - front \<ge> rate_window) (replicate n t) = []" by (simp add: dropWhile_eq_Nil_conv)
  then show ?thesis by (simp add: allow_def max_events_per_second_def)
qed

lemma admits_same: "m + n \<le> 60 \<Longrightarrow> admits n t (replicate m t) k \<longleftrightarrow> k (replicate (m + n) t)"
proof (induction n arbitrary: m)
  case (Suc n)
  then show ?case using Suc.IH [of "Suc m"] by (simp add: allow_same)
qed simp

lemma passes_rate_limiter:
  "rate_limiter_admits_up_to_cap_at_same_instant t" "rate_limiter_refills_after_window_elapses t"
proof -
  have "admits 60 (t + rate_window) (replicate 60 t) k \<longleftrightarrow> k (replicate 60 (t + rate_window))" for k
    using admits_same [of "Suc 0" 59 "t + rate_window" k] admits.simps(2) [of 59 "t + rate_window" "replicate 60 t" k]
    by (simp add: allow_stale)
  then show "rate_limiter_refills_after_window_elapses t"
    using admits_same [of 0 60 t]
    by (simp add: rate_limiter_refills_after_window_elapses_def rate_limiter_new_def max_events_per_second_def
        allow_same Let_def)
  show "rate_limiter_admits_up_to_cap_at_same_instant t"
    using admits_same [of 0 60 t]
    by (simp add: rate_limiter_admits_up_to_cap_at_same_instant_def rate_limiter_new_def max_events_per_second_def
        allow_same)
qed

text \<open>The loop of the two tests of the rolling window: None when the count of the last second is above the
  cap after an admission, else the times admitted.\<close>

fun window_run :: "nat list \<Rightarrow> rate_limiter \<Rightarrow> nat list \<Rightarrow> nat list option" where
  "window_run [] rl adm = Some adm"
| "window_run (now # ts) rl adm =
     (case allow now rl of (ok, rl) \<Rightarrow>
        if ok then
          let adm = adm @ [now];
              count = length (filter (\<lambda>t. now - t < rate_window) adm)
          in if count \<le> max_events_per_second then window_run ts rl adm else None
        else window_run ts rl adm)"

definition millis :: nat where "millis = 1000000"

definition rate_limiter_never_exceeds_cap_in_any_rolling_window :: "nat \<Rightarrow> bool" where
  "rate_limiter_never_exceeds_cap_in_any_rolling_window start \<longleftrightarrow>
     (case window_run (map (\<lambda>ms. start + ms * millis) [0..<5000]) rate_limiter_new [] of
        None \<Rightarrow> False
      | Some adm \<Rightarrow> adm \<noteq> [] \<and> length adm \<le> 6 * max_events_per_second)"

definition prop_rate_clamp_bound :: "nat \<Rightarrow> nat list \<Rightarrow> bool" where
  "prop_rate_clamp_bound base offsets \<longleftrightarrow>
     window_run (map (\<lambda>off. base + off * millis) (sort offsets)) rate_limiter_new [] \<noteq> None"

lemma window_run_admitted:
  assumes "sorted ts" and "\<forall>x \<in> set P. \<forall>t \<in> set ts. x + rate_window \<le> t"
    and "length W \<le> max_events_per_second"
  shows "window_run ts W (P @ W) = Some ((P @ W) @ admitted ts W)"
  using assms
proof (induction ts arbitrary: P W)
  case (Cons t ts)
  let ?drop = "takeWhile (\<lambda>front. t - front \<ge> rate_window) W"
  let ?w = "dropWhile (\<lambda>front. t - front \<ge> rate_window) W"
  have tw: "(P @ ?drop) @ ?w @ X = (P @ W) @ X" for X by (metis append.assoc takeWhile_dropWhile_id)
  have drop: "x + rate_window \<le> u" if "x \<in> set ?drop" "u \<in> set (t # ts)" for x u
  proof -
    have "t - x \<ge> rate_window" using that(1) by (auto dest: set_takeWhileD)
    moreover have "t \<le> u" using that(2) Cons.prems(1) by auto
    moreover have "rate_window > 0" by (simp add: rate_window_def)
    ultimately show ?thesis by linarith
  qed
  then have p: "\<forall>x \<in> set (P @ ?drop). \<forall>u \<in> set (t # ts). x + rate_window \<le> u"
    using Cons.prems(2) by auto
  have srt: "sorted ts" using Cons.prems(1) by simp
  have w: "length ?w \<le> max_events_per_second" using Cons.prems(3) length_dropWhile_le [of _ W] le_trans by blast
  show ?case
  proof (cases "length ?w < max_events_per_second")
    case True
    have "filter (\<lambda>x. t - x < rate_window) (P @ ?drop) = []" using p by (force simp: filter_empty_conv)
    then have "length (filter (\<lambda>x. t - x < rate_window) ((P @ ?drop) @ ?w @ [t])) \<le> length (?w @ [t])"
      unfolding filter_append by (simp add: le_SucI)
    then have "length (filter (\<lambda>x. t - x < rate_window) ((P @ W) @ [t])) \<le> max_events_per_second"
      unfolding tw using True by simp
    moreover have "window_run ts (?w @ [t]) ((P @ ?drop) @ (?w @ [t]))
        = Some (((P @ ?drop) @ (?w @ [t])) @ admitted ts (?w @ [t]))"
      using p True by (intro Cons.IH [OF srt]) auto
    ultimately show ?thesis using True unfolding tw by (simp add: allow_def Let_def)
  next
    case False
    have "window_run ts ?w ((P @ ?drop) @ ?w) = Some (((P @ ?drop) @ ?w) @ admitted ts ?w)"
      using p w by (intro Cons.IH [OF srt]) auto
    with False tw [of "[]"] show ?thesis by (simp add: allow_def Let_def)
  qed
qed simp

lemma window_run_new: "sorted ts \<Longrightarrow> window_run ts rate_limiter_new [] = Some (admitted ts rate_limiter_new)"
  using window_run_admitted [of ts "[]" "[]"] by (simp add: rate_limiter_new_def)

lemma passes_prop_rate_clamp_bound: "prop_rate_clamp_bound base offsets"
proof -
  have "sorted (map (\<lambda>off. base + off * millis) (sort offsets))"
    by (simp add: sorted_map) (metis (mono_tags, lifting) add_left_mono mult_le_mono1 sorted_sort sorted_wrt_mono_rel)
  then show ?thesis by (simp add: prop_rate_clamp_bound_def window_run_new)
qed

lemma admitted_subset: "set (admitted ts W) \<subseteq> set ts"
  by (induction ts arbitrary: W) (auto split: prod.splits if_splits)

text \<open>In five seconds at most 360 events pass: the 61st after an event is a second later.\<close>

lemma passes_rolling_window: "rate_limiter_never_exceeds_cap_in_any_rolling_window start"
proof -
  let ?ts = "map (\<lambda>ms. start + ms * millis) [0..<5000]"
  let ?a = "admitted ?ts []"
  have srt: "sorted ?ts" by (simp add: sorted_map millis_def sorted_wrt_upt)
  have sp: "spaced ?a" using admitted_spaced [OF srt, of "[]" "[]"] by (simp add: spaced_def)
  have step: "i + 60 < length ?a \<Longrightarrow> ?a ! i + 1000000000 \<le> ?a ! (i + 60)" for i
    using sp by (simp add: spaced_def max_events_per_second_def rate_window_def)
  have range: "start \<le> x \<and> x < start + 5000000000" if "x \<in> set ?a" for x
  proof -
    have "x \<in> set ?ts" using that admitted_subset by blast
    then obtain ms where ms: "ms < 5000" "x = start + ms * millis" by auto
    have "ms * millis < 5000 * millis" using ms(1) by (intro mult_strict_right_mono) (simp_all add: millis_def)
    with ms show ?thesis by (simp add: millis_def)
  qed
  have "length ?a \<le> 360"
  proof (rule ccontr)
    assume "\<not> length ?a \<le> 360"
    then have l: "360 < length ?a" by simp
    then have "?a ! 0 + 6000000000 \<le> ?a ! 360"
      using step [of 0] step [of 60] step [of 120] step [of 180] step [of 240] step [of 300] by simp
    moreover have "start \<le> ?a ! 0" using range [of "?a ! 0"] l by (meson nth_mem order_less_trans zero_less_numeral)
    moreover have "?a ! 360 < start + 5000000000" using range [of "?a ! 360"] l by (meson nth_mem)
    ultimately show False by simp
  qed
  moreover have "?a \<noteq> []"
    using upt_conv_Cons [of 0 5000] by (simp add: allow_def max_events_per_second_def)
  moreover have "window_run ?ts rate_limiter_new [] = Some ?a"
    using window_run_new [OF srt] by (simp add: rate_limiter_new_def)
  ultimately show ?thesis
    unfolding rate_limiter_never_exceeds_cap_in_any_rolling_window_def by (simp add: max_events_per_second_def)
qed

section \<open>The claim of control\<close>

text \<open>Claims in the order in which they reach the flag, each by a thread; what is kept are the threads
  that won. Each claim is one atomic exchange, so a race of threads is such an order.\<close>

definition claim_by :: "nat \<Rightarrow> bool \<times> nat list \<Rightarrow> bool \<times> nat list" where
  "claim_by thread = (\<lambda>(held, granted).
     case should_send_control_request held of
       (won, held) \<Rightarrow> (held, if won then thread # granted else granted))"

definition prop_single_control_claim :: "nat \<Rightarrow> bool" where
  "prop_single_control_claim n \<longleftrightarrow>
     (case fold claim_by (replicate n 0) (False, []) of
        (held, granted) \<Rightarrow>
          length granted \<le> 1 \<and> (if n > 0 then held \<and> length granted = 1 else length granted = 0))"

definition schedule_of :: "nat \<Rightarrow> nat \<Rightarrow> nat list \<Rightarrow> bool" where
  "schedule_of threads per_thread order \<longleftrightarrow>
     set order \<subseteq> {..<threads} \<and> list_all (\<lambda>t. count_list order t = per_thread) [0..<threads]"

definition prop_single_control_claim_concurrent :: "nat list \<Rightarrow> bool" where
  "prop_single_control_claim_concurrent order \<longleftrightarrow>
     (case fold claim_by order (False, []) of (held, granted) \<Rightarrow> length granted = 1 \<and> held)"

lemma claims_held: "fold claim_by order (True, granted) = (True, granted)"
  by (induction order) (simp_all add: claim_by_def should_send_control_request_def)

lemma claims_first: "order \<noteq> [] \<Longrightarrow> fold claim_by order (False, []) = (True, [hd order])"
  by (cases order) (simp_all add: claim_by_def should_send_control_request_def claims_held)

lemma passes_single_control_claim: "prop_single_control_claim n"
proof (cases "n = 0")
  case False
  then have "fold claim_by (replicate n 0) (False, []) = (True, [hd (replicate n 0)])"
    by (intro claims_first) simp
  then show ?thesis using False unfolding prop_single_control_claim_def by simp
qed (simp add: prop_single_control_claim_def)

text \<open>Whatever the order of the race, the thread that comes first wins, and no other.\<close>

lemma passes_single_control_claim_concurrent:
  assumes "schedule_of threads per_thread order" and "2 \<le> threads" and "1 \<le> per_thread"
  shows "prop_single_control_claim_concurrent order"
proof -
  have "count_list order 0 \<noteq> 0" using assms by (auto simp: schedule_of_def list_all_iff)
  then have "order \<noteq> []" by auto
  then show ?thesis by (simp add: prop_single_control_claim_concurrent_def claims_first)
qed

end
