(* ===== verification/CaddyTests.thy ===== *)
theory CaddyTests
  imports CaddyAdmin
begin

text \<open>
  The unit tests of \<open>edge-caddy-bridge\<close>, those of \<open>route_builder.rs\<close> and of \<open>admin_client.rs\<close>, on the
  model: a test is the conjunction of its assertions, and \<open>passes_<test>\<close> shows that the model
  passes. Where a test unwraps a value that is not of the right kind it panics, so it fails.
\<close>

section \<open>Looking into a JSON value\<close>

text \<open>\<open>v["key"]\<close> and \<open>v[0]\<close> of serde_json: null where there is nothing.\<close>

datatype json_index = K string | I nat

fun j_index :: "json \<Rightarrow> json_index \<Rightarrow> json" where
  "j_index v (K k) = (case j_get k v of Some w \<Rightarrow> w | None \<Rightarrow> JNull)"
| "j_index v (I n) = (case j_arr v of Some a \<Rightarrow> if n < length a then a ! n else JNull | None \<Rightarrow> JNull)"

definition j_at :: "json \<Rightarrow> json_index list \<Rightarrow> json" where
  "j_at v ks = foldl j_index v ks"

lemma j_at_simps [simp]: "j_at v [] = v" "j_at v (k # ks) = j_at (j_index v k) ks"
  by (simp_all add: j_at_def)

text \<open>\<open>as_array().unwrap().iter().map(as_str().unwrap())\<close> with \<open>any(== p)\<close> for all the \<open>ps\<close>, and
  \<open>as_str().unwrap().contains(t)\<close>.\<close>

definition j_strs :: "json \<Rightarrow> string list option" where
  "j_strs v = Option.bind (j_arr v) (\<lambda>a. those (map j_str a))"

definition has_paths :: "json \<Rightarrow> string list \<Rightarrow> bool" where
  "has_paths v ps = (case j_strs v of None \<Rightarrow> False | Some paths \<Rightarrow> list_all (\<lambda>p. p \<in> set paths) ps)"

definition has_text :: "json \<Rightarrow> string \<Rightarrow> bool" where
  "has_text v t = (case j_str v of None \<Rightarrow> False | Some s \<Rightarrow> str_contains t s)"

definition array_len :: "json \<Rightarrow> nat option" where
  "array_len v = map_option length (j_arr v)"

lemma has_text_JStr [simp]: "has_text (JStr s) t \<longleftrightarrow> str_contains t s"
  by (simp add: has_text_def)

section \<open>Routes (\<open>route_builder.rs\<close>)\<close>

text \<open>The route that the tests build.\<close>

definition sample_route :: caddy_route where
  "sample_route = \<lparr>cr_host = ''abc.sin.dun-studio.xyz'', cr_upstream = ''127.0.0.1:11042'', cr_ws_paths = []\<rparr>"

text \<open>The directives of the content policies that the tests look for.\<close>

definition no_framing :: string where
  "no_framing = ''frame-ancestors '' @ [CHR 0x27] @ ''none'' @ [CHR 0x27]"

definition default_self :: string where
  "default_self = ''default-src '' @ [CHR 0x27] @ ''self'' @ [CHR 0x27]"

definition object_none :: string where
  "object_none = ''object-src '' @ [CHR 0x27] @ ''none'' @ [CHR 0x27]"

definition inner_of :: "json \<Rightarrow> json" where
  "inner_of v = j_at v [K ''handle'', I 0, K ''routes'']"

definition route_id_replaces_dots :: bool where
  "route_id_replaces_dots \<longleftrightarrow>
     route_id ''abc123.sin.dun-studio.xyz'' = ''dun-tunel-abc123_sin_dun-studio_xyz''"

definition build_route_has_deterministic_id :: bool where
  "build_route_has_deterministic_id \<longleftrightarrow>
     (let v = build_route (sample_route\<lparr>cr_ws_paths := [''/api/ws'']\<rparr>) None None None
      in j_at v [K ''@id''] = JStr ''dun-tunel-abc_sin_dun-studio_xyz''
         \<and> j_at v [K ''match'', I 0, K ''host'', I 0] = JStr ''abc.sin.dun-studio.xyz'')"

definition build_route_split_routes_viewer_endpoints_to_api :: bool where
  "build_route_split_routes_viewer_endpoints_to_api \<longleftrightarrow>
     (let inner = inner_of (build_route sample_route (Some ''127.0.0.1:3010'') None None);
          api_handles = j_at inner [I 1, K ''handle'']
      in has_paths (j_at inner [I 1, K ''match'', I 0, K ''path''])
           [''/viewer/exchange'', ''/viewer/exchange/*'', ''/viewer/refresh-cookie'']
         \<and> j_at api_handles [I 0, K ''handler''] = JStr ''rewrite''
         \<and> j_at api_handles [I 0, K ''uri''] = JStr ''/api{http.request.uri.path}{http.request.uri.search}''
         \<and> j_at api_handles [I 1, K ''handler''] = JStr ''reverse_proxy''
         \<and> j_at api_handles [I 1, K ''upstreams'', I 0, K ''dial''] = JStr ''127.0.0.1:3010''
         \<and> j_at inner [I 2, K ''handle'', I 0, K ''upstreams'', I 0, K ''dial''] = JStr ''127.0.0.1:11042'')"

definition build_route_without_api_upstream_keeps_legacy_shape :: bool where
  "build_route_without_api_upstream_keeps_legacy_shape \<longleftrightarrow>
     (let inner = inner_of (build_route sample_route None None None)
      in array_len inner = Some 2
         \<and> j_at inner [I 1, K ''handle'', I 0, K ''upstreams'', I 0, K ''dial''] = JStr ''127.0.0.1:11042'')"

definition build_route_with_auth_gate_inserts_forward_auth_block :: bool where
  "build_route_with_auth_gate_inserts_forward_auth_block \<longleftrightarrow>
     (let inner = inner_of (build_route sample_route (Some ''127.0.0.1:3010'') (Some ''127.0.0.1:9444'') None);
          auth_handle = j_at inner [I 3, K ''handle'', I 0];
          handle_response = j_at auth_handle [K ''handle_response''];
          routes = j_at handle_response [I 0, K ''routes'']
      in array_len inner = Some 4
         \<and> has_paths (j_at inner [I 2, K ''match'', I 0, K ''path'']) [''/viewer/'', ''/static/*'', ''/assets/*'']
         \<and> j_at auth_handle [K ''handler''] = JStr ''reverse_proxy''
         \<and> j_at auth_handle [K ''upstreams'', I 0, K ''dial''] = JStr ''127.0.0.1:9444''
         \<and> j_at auth_handle [K ''rewrite'', K ''uri''] = JStr ''/check''
         \<and> j_at handle_response [I 0, K ''match'', K ''status_code'', I 0] = JInt 2
         \<and> j_at routes [I 0, K ''handle'', I 0, K ''handler''] = JStr ''headers''
         \<and> array_len (j_at routes [I 0, K ''handle'', I 0, K ''request'', K ''set'', K ''X-Forwarded-Sub'']) \<noteq> None
         \<and> j_at routes [I 1, K ''handle'', I 0, K ''upstreams'', I 0, K ''dial''] = JStr ''127.0.0.1:11042'')"

definition build_route_with_edge_control_inserts_sfu_split :: bool where
  "build_route_with_edge_control_inserts_sfu_split \<longleftrightarrow>
     (let inner = inner_of (build_route sample_route (Some ''127.0.0.1:3010'') (Some ''127.0.0.1:9444'')
                              (Some ''127.0.0.1:9443''));
          sfu_handle = j_at inner [I 3];
          sfu_proxy = j_at sfu_handle [K ''handle'', I 0];
          routes_2xx = j_at sfu_proxy [K ''handle_response'', I 0, K ''routes'']
      in array_len inner = Some 5
         \<and> has_paths (j_at sfu_handle [K ''match'', I 0, K ''path'']) [''/v1/sfu'', ''/v1/sfu/*'']
         \<and> j_at sfu_proxy [K ''handler''] = JStr ''reverse_proxy''
         \<and> j_at sfu_proxy [K ''upstreams'', I 0, K ''dial''] = JStr ''127.0.0.1:9444''
         \<and> j_at routes_2xx [I 0, K ''handle'', I 0, K ''handler''] = JStr ''headers''
         \<and> j_at routes_2xx [I 1, K ''handle'', I 0, K ''upstreams'', I 0, K ''dial''] = JStr ''127.0.0.1:9443'')"

definition build_session_ended_route_emits_410_with_html_body :: bool where
  "build_session_ended_route_emits_410_with_html_body \<longleftrightarrow>
     (let v = build_session_ended_route ''dun-tunel-session-ended-sin'' ''*.sin.dun-studio.xyz'';
          inner = j_at v [K ''handle'', I 0, K ''routes'', I 0, K ''handle''];
          set_headers = j_at inner [I 0, K ''response'', K ''set'']
      in j_at v [K ''@id''] = JStr ''dun-tunel-session-ended-sin''
         \<and> j_at v [K ''match'', I 0, K ''host'', I 0] = JStr ''*.sin.dun-studio.xyz''
         \<and> j_at v [K ''terminal''] = JBool True
         \<and> j_at inner [I 0, K ''handler''] = JStr ''headers''
         \<and> j_at set_headers [K ''Content-Type'', I 0] = JStr ''text/html; charset=utf-8''
         \<and> j_at set_headers [K ''Cache-Control'', I 0] = JStr ''no-store''
         \<and> j_at set_headers [K ''X-Frame-Options'', I 0] = JStr ''DENY''
         \<and> j_at set_headers [K ''X-Content-Type-Options'', I 0] = JStr ''nosniff''
         \<and> has_text (j_at set_headers [K ''Content-Security-Policy'', I 0]) no_framing
         \<and> j_at inner [I 1, K ''handler''] = JStr ''static_response''
         \<and> j_at inner [I 1, K ''status_code''] = JInt 410
         \<and> has_text (j_at inner [I 1, K ''body'']) ''Session ended'')"

definition build_route_attaches_security_headers_to_tunnel_response :: bool where
  "build_route_attaches_security_headers_to_tunnel_response \<longleftrightarrow>
     (let inner = inner_of (build_route sample_route None None None);
          response_headers = j_at inner [I 1, K ''handle'', I 0, K ''headers'', K ''response'', K ''set''];
          csp = j_at response_headers [K ''Content-Security-Policy'', I 0]
      in has_text csp no_framing
         \<and> has_text csp default_self
         \<and> has_text csp object_none
         \<and> j_at response_headers [K ''X-Content-Type-Options'', I 0] = JStr ''nosniff''
         \<and> j_at response_headers [K ''X-Frame-Options'', I 0] = JStr ''DENY''
         \<and> j_at response_headers [K ''Referrer-Policy'', I 0] = JStr ''strict-origin-when-cross-origin''
         \<and> has_text (j_at response_headers [K ''Strict-Transport-Security'', I 0]) ''max-age=31536000'')"

definition build_route_with_auth_gate_applies_security_headers_on_gate_response_too :: bool where
  "build_route_with_auth_gate_applies_security_headers_on_gate_response_too \<longleftrightarrow>
     (let inner = inner_of (build_route sample_route (Some ''127.0.0.1:3010'') (Some ''127.0.0.1:9444'') None);
          response_headers = j_at inner [I 3, K ''handle'', I 0, K ''headers'', K ''response'', K ''set'']
      in has_text (j_at response_headers [K ''Content-Security-Policy'', I 0])
           no_framing
         \<and> j_at response_headers [K ''X-Frame-Options'', I 0] = JStr ''DENY'')"

definition build_route_hard_blocks_host_path_first :: bool where
  "build_route_hard_blocks_host_path_first \<longleftrightarrow>
     (let inner = inner_of (build_route sample_route (Some ''127.0.0.1:3010'') (Some ''127.0.0.1:9444'') None);
          block = j_at inner [I 0];
          block_handle = j_at block [K ''handle'', I 0]
      in has_paths (j_at block [K ''match'', I 0, K ''path'']) [''/host'', ''/host/*'']
         \<and> j_at block_handle [K ''handler''] = JStr ''static_response''
         \<and> j_at block_handle [K ''status_code''] = JInt 403
         \<and> has_text (j_at block_handle [K ''body'']) ''local-only''
         \<and> j_at block_handle [K ''headers'', K ''X-Content-Type-Options'', I 0] = JStr ''nosniff''
         \<and> j_at block_handle [K ''headers'', K ''X-Frame-Options'', I 0] = JStr ''DENY'')"

lemmas route_defs = build_route_def inner_routes_def hard_block_def api_handle_def tunnel_handle_def
  public_assets_def sfu_auth_handle_def auth_handle_def gate_handler_def edge_handle_def headers_block_def
  viewer_response_security_headers_def build_session_ended_route_def dial_to_def opt_list_def jstrs_def
  sample_route_def inner_of_def with_subtree_def dun_api_path_prefixes_def edge_control_path_prefixes_def
  viewer_edge_block_paths_def viewer_public_paths_def

lemmas look_defs = has_paths_def j_strs_def array_len_def

text \<open>The texts that the tests look for; the search goes on only where there is no match.\<close>

lemma str_contains_left: "str_contains p s \<Longrightarrow> str_contains p (s @ t)"
  and str_contains_right: "str_contains p t \<Longrightarrow> str_contains p (s @ t)"
  and str_contains_right4: "str_contains p t \<Longrightarrow> str_contains p (a @ b @ c @ d @ t)"
  by (auto simp: str_contains_iff) (metis append.assoc)+

lemma csp_texts:
  "str_contains no_framing csp_value" "str_contains default_self csp_value" "str_contains object_none csp_value"
  unfolding csp_value_def no_framing_def default_self_def object_none_def
  by (rule str_contains_right, rule str_contains_right, rule str_contains_left, simp add: str_contains_code,
      rule str_contains_left, simp add: str_contains_code,
      rule str_contains_right, rule str_contains_right, rule str_contains_right, simp add: str_contains_code)

lemma session_ended_text: "str_contains ''Session ended'' session_ended_body"
  unfolding session_ended_body_def
  by (rule str_contains_right4, rule str_contains_right4, rule str_contains_right4, rule str_contains_right4, rule str_contains_left, simp add: str_contains_code)

lemma block_text: "str_contains ''local-only'' edge_block_host_body"
  unfolding edge_block_host_body_def
  by (rule str_contains_right4, rule str_contains_right, rule str_contains_right, rule str_contains_left,
      simp add: str_contains_code)

lemma header_texts:
  "str_contains no_framing csp_value" "str_contains default_self csp_value" "str_contains object_none csp_value"
  "str_contains no_framing session_ended_csp"
  "str_contains ''max-age=31536000'' ''max-age=31536000; includeSubDomains''"
  "str_contains ''local-only'' edge_block_host_body" "str_contains ''Session ended'' session_ended_body"
  by (simp_all only: csp_texts block_text session_ended_text)
    (simp_all add: str_contains_code session_ended_csp_def no_framing_def)

lemma passes_route_id: "route_id_replaces_dots" "build_route_has_deterministic_id"
  by (simp_all add: route_id_replaces_dots_def build_route_has_deterministic_id_def route_id_def
      replace_char_def build_route_def jstrs_def sample_route_def)

lemma passes_plain_routes:
  "build_route_split_routes_viewer_endpoints_to_api"
  "build_route_without_api_upstream_keeps_legacy_shape"
  "build_route_attaches_security_headers_to_tunnel_response"
  by (simp_all add: build_route_split_routes_viewer_endpoints_to_api_def
      build_route_without_api_upstream_keeps_legacy_shape_def look_defs
      build_route_attaches_security_headers_to_tunnel_response_def route_defs header_texts)

lemma passes_gated_routes:
  "build_route_with_auth_gate_inserts_forward_auth_block"
  "build_route_with_auth_gate_applies_security_headers_on_gate_response_too"
  "build_route_hard_blocks_host_path_first"
  by (simp_all add: build_route_with_auth_gate_inserts_forward_auth_block_def
      build_route_with_auth_gate_applies_security_headers_on_gate_response_too_def
      build_route_hard_blocks_host_path_first_def look_defs route_defs header_texts)

lemma passes_edge_control_route: "build_route_with_edge_control_inserts_sfu_split"
  by (simp add: build_route_with_edge_control_inserts_sfu_split_def look_defs route_defs)

lemma passes_session_ended_route: "build_session_ended_route_emits_410_with_html_body"
  by (simp add: build_session_ended_route_emits_410_with_html_body_def route_defs header_texts)

section \<open>The admin client (\<open>admin_client.rs\<close>)\<close>

definition route_id_stable :: bool where
  "route_id_stable \<longleftrightarrow> (let host = ''abc123.sin.dun-studio.xyz'' in route_id host = route_id host)"

definition policy_overlap_detects_explicit_host_under_wildcard :: bool where
  "policy_overlap_detects_explicit_host_under_wildcard \<longleftrightarrow>
     (let policy = mk_obj [(''subjects'', jstrs [''edge.sin.dun-studio.xyz''])];
          unrelated = mk_obj [(''subjects'', jstrs [''api.dun-studio.xyz''])]
      in policy_subject_overlaps policy ''*.sin.dun-studio.xyz''
         \<and> \<not> policy_subject_overlaps policy ''*.iad.dun-studio.xyz''
         \<and> \<not> policy_subject_overlaps unrelated ''*.sin.dun-studio.xyz'')"

definition policy_overlap_self_matches :: bool where
  "policy_overlap_self_matches \<longleftrightarrow>
     policy_subject_overlaps (mk_obj [(''subjects'', jstrs [''*.sin.dun-studio.xyz''])]) ''*.sin.dun-studio.xyz''"

lemma passes_admin_client:
  "route_id_stable" "policy_overlap_detects_explicit_host_under_wildcard" "policy_overlap_self_matches"
  by code_simp+

end
