(* ===== verification/SfuTests.thy ===== *)
theory SfuTests
  imports SfuWs Bandwidth
begin

text \<open>
  The unit and property tests of the SFU and of the viewer socket on the model: those of \<open>transport.rs\<close>,
  \<open>viewer_cap.rs\<close>, \<open>router_manager.rs\<close>, \<open>delta.rs\<close> and \<open>sfu_ws.rs\<close>. A property test is a predicate of its
  random inputs, shown for all inputs. The tests of \<open>sfu_ws.rs\<close> that are ignored because they need a
  live mediasoup worker only say in a comment what has to hold; the lemmas named after them prove that
  of the model, for every engine.
\<close>

section \<open>RTP parameters (\<open>transport.rs\<close>)\<close>

text \<open>\<open>dissect\<close> takes one codec and at least one encoding apart.\<close>

definition dissect :: "rtp_parameters \<Rightarrow> (u8 \<times> u32 \<times> u32 option list \<times> rtcp_feedback list) option" where
  "dissect params =
     (if rp_encodings params = [] then None
      else case rp_codecs params of
        [c] \<Rightarrow> Some (co_payload_type c, co_clock_rate c, map en_ssrc (rp_encodings params), co_feedback c)
      | _ \<Rightarrow> None)"

definition video_producer_holds_codec_lock_step :: bool where
  "video_producer_holds_codec_lock_step \<longleftrightarrow>
     (case dissect plain_producer_rtp_parameters of
        None \<Rightarrow> False
      | Some (pt, clock_rate, ssrcs, rtcp_feedback) \<Rightarrow>
          pt = plain_payload_type \<and> pt = 96 \<and> clock_rate = plain_clock_rate \<and> clock_rate = 90000
          \<and> ssrcs = [Some plain_low_ssrc, Some plain_mid_ssrc, Some plain_high_ssrc]
          \<and> Nack \<notin> set rtcp_feedback \<and> rtcp_feedback = [])"

definition audio_producer_holds_codec_lock_step :: bool where
  "audio_producer_holds_codec_lock_step \<longleftrightarrow>
     (case dissect plain_audio_producer_rtp_parameters of
        None \<Rightarrow> False
      | Some (pt, clock_rate, ssrcs, rtcp_feedback) \<Rightarrow>
          pt = plain_audio_payload_type \<and> pt = 111 \<and> clock_rate = plain_audio_clock_rate \<and> clock_rate = 48000
          \<and> ssrcs = [Some plain_audio_ssrc] \<and> Nack \<notin> set rtcp_feedback \<and> rtcp_feedback = [])"

definition builders_match_data_model_m2 :: bool where
  "builders_match_data_model_m2 \<longleftrightarrow>
     dissect plain_producer_rtp_parameters
       = Some (96, 90000, [Some 22222220, Some 22222221, Some 22222222], [])
     \<and> dissect plain_audio_producer_rtp_parameters = Some (111, 48000, [Some 22222223], [])"

lemma passes_rtp_parameters:
  "video_producer_holds_codec_lock_step" "audio_producer_holds_codec_lock_step" "builders_match_data_model_m2"
  by code_simp+

section \<open>The viewer cap and the delta (\<open>viewer_cap.rs\<close>, \<open>delta.rs\<close>)\<close>

definition never_exceeds_cap :: "u32 \<Rightarrow> bool" where
  "never_exceeds_cap count \<longleftrightarrow>
     (if count \<ge> viewer_cap_per_session then \<not> can_accept_viewer count else can_accept_viewer count)"

definition delta_is_non_negative :: "u64 \<Rightarrow> u64 \<Rightarrow> bool" where
  "delta_is_non_negative prev cur \<longleftrightarrow> (let delta = saturating_sub cur prev in of_int (uint delta) / 1048576 \<ge> (0 :: rat))"

lemma passes_never_exceeds_cap: "never_exceeds_cap count"
  by (auto simp: never_exceeds_cap_def can_accept_viewer_def)

lemma passes_delta_is_non_negative: "delta_is_non_negative prev cur"
proof -
  have "0 \<le> (of_int (uint (saturating_sub cur prev)) :: rat)" by (simp only: of_int_0_le_iff uint_ge_0)
  then show ?thesis unfolding delta_is_non_negative_def Let_def by (rule divide_nonneg_nonneg) simp
qed

section \<open>One input producer (\<open>router_manager.rs\<close>)\<close>

text \<open>A producer id is a UUID in text form; \<open>parse\<close> is its parser, and gives the id back as it is.\<close>

definition sample_id :: string where "sample_id = ''11111111-1111-4111-8111-111111111111''"

definition other_id :: string where "other_id = ''22222222-2222-4222-8222-222222222222''"

definition with_id :: "(string \<Rightarrow> string option) \<Rightarrow> string \<Rightarrow> (string \<Rightarrow> bool) \<Rightarrow> bool" where
  "with_id parse s k = (case parse s of None \<Rightarrow> False | Some i \<Rightarrow> k i)"

definition hex_digit :: "nat \<Rightarrow> char" where
  "hex_digit n = ''0123456789abcdef'' ! n"

definition hex_byte :: "u8 \<Rightarrow> string" where
  "hex_byte b = [hex_digit (unat b div 16), hex_digit (unat b mod 16)]"

definition uuid_string_from_bytes :: "u8 list \<Rightarrow> string" where
  "uuid_string_from_bytes b =
     (let hex = concat (map hex_byte b);
          part = (\<lambda>i j. take (j - i) (drop i hex))
      in part 0 8 @ ''-'' @ part 8 12 @ ''-'' @ part 12 16 @ ''-'' @ part 16 20 @ ''-'' @ part 20 32)"

definition idempotent_decision_proceeds_when_no_producer :: bool where
  "idempotent_decision_proceeds_when_no_producer \<longleftrightarrow> idempotent_produce_decision None = Proceed"

definition idempotent_decision_returns_existing_producer_id :: "(string \<Rightarrow> string option) \<Rightarrow> bool" where
  "idempotent_decision_returns_existing_producer_id parse \<longleftrightarrow>
     with_id parse sample_id (\<lambda>i. idempotent_produce_decision (Some i) = ReturnExisting i)"

definition idempotent_decision_returns_the_same_id_it_was_given :: "(string \<Rightarrow> string option) \<Rightarrow> bool" where
  "idempotent_decision_returns_the_same_id_it_was_given parse \<longleftrightarrow>
     with_id parse sample_id (\<lambda>i.
       (case idempotent_produce_decision (Some i) of ReturnExisting returned \<Rightarrow> returned = i | Proceed \<Rightarrow> False)
       \<and> with_id parse other_id (\<lambda>other. idempotent_produce_decision (Some other) = ReturnExisting other))"

definition idempotent_decision_is_stable_across_repeated_calls :: "(string \<Rightarrow> string option) \<Rightarrow> bool" where
  "idempotent_decision_is_stable_across_repeated_calls parse \<longleftrightarrow>
     with_id parse sample_id (\<lambda>i.
       list_all (\<lambda>_. idempotent_produce_decision (Some i) = ReturnExisting i) [0..<10])"

definition idempotent_decision_round_trips_any_id :: "(string \<Rightarrow> string option) \<Rightarrow> u8 list \<Rightarrow> bool" where
  "idempotent_decision_round_trips_any_id parse bytes \<longleftrightarrow>
     with_id parse (uuid_string_from_bytes bytes) (\<lambda>i. idempotent_produce_decision (Some i) = ReturnExisting i)"

definition idempotent_decision_none_always_proceeds :: "u64 \<Rightarrow> bool" where
  "idempotent_decision_none_always_proceeds seed \<longleftrightarrow> idempotent_produce_decision None = Proceed"

lemma passes_idempotent_decision:
  "idempotent_decision_proceeds_when_no_producer" "idempotent_decision_none_always_proceeds seed"
  "parse sample_id = Some i \<Longrightarrow> idempotent_decision_returns_existing_producer_id parse"
  "parse sample_id = Some i \<Longrightarrow> parse other_id = Some j
     \<Longrightarrow> idempotent_decision_returns_the_same_id_it_was_given parse"
  "parse sample_id = Some i \<Longrightarrow> idempotent_decision_is_stable_across_repeated_calls parse"
  "parse (uuid_string_from_bytes bytes) = Some i \<Longrightarrow> idempotent_decision_round_trips_any_id parse bytes"
  by (simp_all add: idempotent_decision_proceeds_when_no_producer_def idempotent_decision_none_always_proceeds_def
      idempotent_decision_returns_existing_producer_id_def idempotent_decision_returns_the_same_id_it_was_given_def
      idempotent_decision_is_stable_across_repeated_calls_def idempotent_decision_round_trips_any_id_def
      with_id_def idempotent_produce_decision_def list_all_iff)

section \<open>The viewer socket (\<open>sfu_ws.rs\<close>)\<close>

definition advertise_input_true_when_sctp_present :: bool where
  "advertise_input_true_when_sctp_present \<longleftrightarrow> should_advertise_input (Some (42 :: u32))"

definition advertise_input_false_when_sctp_absent :: bool where
  "advertise_input_false_when_sctp_absent \<longleftrightarrow> \<not> should_advertise_input (None :: u32 option)"

definition build_init_for_test :: "json option \<Rightarrow> json" where
  "build_init_for_test send_sctp =
     (let payload = mk_obj [(''action'', JStr ''Init''), (''consumerTransportOptions'', mk_obj [(''id'', JStr ''recv-1'')]),
            (''routerRtpCapabilities'', mk_obj []), (''plainProducerId'', JStr ''vid-1''), (''audioProducerId'', JNull)]
      in if should_advertise_input send_sctp
         then attach_input_fields payload (mk_obj [(''id'', JStr ''send-1'')]) (the send_sctp)
         else payload)"

definition contains_key :: "json \<Rightarrow> string \<Rightarrow> bool" where
  "contains_key v k \<longleftrightarrow> j_get k v \<noteq> None"

definition init_payload_carries_both_input_fields_when_sctp_present :: bool where
  "init_payload_carries_both_input_fields_when_sctp_present \<longleftrightarrow>
     (let obj = build_init_for_test (Some (mk_obj [(''port'', JInt 5000)]))
      in contains_key obj ''inputTransportOptions'' \<and> contains_key obj ''inputSctpParameters''
         \<and> j_get ''inputSctpParameters'' obj = Some (mk_obj [(''port'', JInt 5000)]))"

definition init_payload_omits_both_input_fields_when_sctp_absent :: bool where
  "init_payload_omits_both_input_fields_when_sctp_absent \<longleftrightarrow>
     (let obj = build_init_for_test None
      in \<not> contains_key obj ''inputTransportOptions'' \<and> \<not> contains_key obj ''inputSctpParameters''
         \<and> j_get ''action'' obj = Some (JStr ''Init'')
         \<and> contains_key obj ''consumerTransportOptions'' \<and> contains_key obj ''plainProducerId'')"

definition attach_input_fields_is_noop_on_non_object :: bool where
  "attach_input_fields_is_noop_on_non_object \<longleftrightarrow>
     attach_input_fields (JStr ''not an object'') (mk_obj []) (mk_obj []) = JStr ''not an object''"

definition input_error_code_constants_match_wire_contract :: bool where
  "input_error_code_constants_match_wire_contract \<longleftrightarrow>
     err_connect_input_failed = ''connect_input_failed'' \<and> err_produce_input_failed = ''produce_input_failed''"

definition send_error_payload_shape_for_input_failures :: bool where
  "send_error_payload_shape_for_input_failures \<longleftrightarrow>
     (let connect_payload = mk_obj [(''action'', JStr ''Error''), (''code'', JStr err_connect_input_failed)];
          produce_payload = mk_obj [(''action'', JStr ''Error''), (''code'', JStr err_produce_input_failed)]
      in j_get ''action'' connect_payload = Some (JStr ''Error'')
         \<and> j_get ''code'' connect_payload = Some (JStr ''connect_input_failed'')
         \<and> j_get ''action'' produce_payload = Some (JStr ''Error'')
         \<and> j_get ''code'' produce_payload = Some (JStr ''produce_input_failed''))"

definition authorize_viewer_allows_matching_session :: bool where
  "authorize_viewer_allows_matching_session \<longleftrightarrow> authorize_viewer (Some ''sess-123'') ''sess-123'' = Ok ()"

definition authorize_viewer_forbids_session_mismatch :: bool where
  "authorize_viewer_forbids_session_mismatch \<longleftrightarrow> authorize_viewer (Some ''sess-other'') ''sess-123'' = Err FORBIDDEN"

definition authorize_viewer_unauthorized_when_header_missing :: bool where
  "authorize_viewer_unauthorized_when_header_missing \<longleftrightarrow> authorize_viewer None ''sess-123'' = Err UNAUTHORIZED"

definition authorize_viewer_unauthorized_when_header_empty :: bool where
  "authorize_viewer_unauthorized_when_header_empty \<longleftrightarrow> authorize_viewer (Some []) ''sess-123'' = Err UNAUTHORIZED"

lemma passes_input_handshake:
  "advertise_input_true_when_sctp_present" "advertise_input_false_when_sctp_absent"
  "init_payload_carries_both_input_fields_when_sctp_present" "init_payload_omits_both_input_fields_when_sctp_absent"
  "attach_input_fields_is_noop_on_non_object" "input_error_code_constants_match_wire_contract"
  "send_error_payload_shape_for_input_failures"
  by code_simp+

lemma passes_authorize_viewer:
  "authorize_viewer_allows_matching_session" "authorize_viewer_forbids_session_mismatch"
  "authorize_viewer_unauthorized_when_header_missing" "authorize_viewer_unauthorized_when_header_empty"
  by code_simp+

section \<open>What the ignored tests ask of a live worker\<close>

text \<open>A failed connect of the input transport is answered with its error, and the viewer's state, video
  included, is as before.\<close>

lemma run_session_sends_connect_input_failed_on_connect_error:
  assumes "connect_send_transport (wh_engine h) rm sid vid dtls w = (Err e, w1)"
    and "wh_send h (OutJson (mk_obj [(''action'', JStr ''Error''), (''code'', JStr ''connect_input_failed'')])) w1
         = (Ok (), w2)"
  shows "handle_message h sid vid (ConnectInputTransport dtls) caps (rm, bs, w) = (Ok caps, rm, bs, w2)"
  using assms by (simp add: handle_message_def keep_caps_def send_error_def sock_def error_payload_def
      err_connect_input_failed_def)

text \<open>A failed input producer likewise; what it may leave behind in the session (the direct transport, the
  bridge) is no part of any viewer's slot.\<close>

definition viewers_of :: "router_manager \<Rightarrow> session_id \<Rightarrow> (string, viewer_slot) dashmap option" where
  "viewers_of rm sid = map_option ss_viewers (dm_get (rm_sessions rm) sid)"

lemma input_ensure_viewers:
  "input_ensure eng ws env sid (rm, bs, w) = (r, rm', bs', w') \<Longrightarrow> viewers_of rm' = viewers_of rm"
  by (auto simp: input_ensure_def viewers_of_def put_session_def fun_eq_iff Let_def
      split: option.splits prod.splits result.splits)

lemma failed_input_viewers:
  "produce_input_data eng ws env sid vid opts (rm, bs, w) = (Err e, rm', bs', w') \<Longrightarrow> viewers_of rm' = viewers_of rm"
  by (auto simp: produce_input_data_def input_commit_def split: result.splits sum.splits prod.splits option.splits
      idempotent_produce.splits dest!: input_ensure_viewers)

lemma run_session_sends_produce_input_failed_on_produce_error:
  assumes "produce_input_data (wh_engine h) (wh_neko h) (wh_env h) sid vid (input_options sctp lbl protocol) (rm, bs, w)
      = (Err e, rm1, bs1, w1)"
    and "wh_send h (OutJson (mk_obj [(''action'', JStr ''Error''), (''code'', JStr ''produce_input_failed'')])) w1
         = (Ok (), w2)"
  shows "handle_message h sid vid (ProduceInput sctp lbl protocol) caps (rm, bs, w) = (Ok caps, rm1, bs1, w2)"
    and "viewers_of rm1 = viewers_of rm"
  using assms failed_input_viewers [OF assms(1)]
  by (simp_all add: handle_message_def keep_caps_def send_error_def sock_def error_payload_def
      err_produce_input_failed_def)

text \<open>The handshake: with SCTP the Init payload carries both input fields, and a connect and a produce that
  succeed are answered in this way.\<close>

lemma attach_input_fields_get:
  "j_get k (attach_input_fields (mk_obj es) opts sctp)
   = (if k = ''inputSctpParameters'' then Some sctp else if k = ''inputTransportOptions'' then Some opts
      else map_of (rev es) k)"
  by (simp add: mk_obj_def map_of_ins_key bsorted_ins_key bsorted_btree map_of_btree)

lemma run_session_advances_input_only_after_init_advertised_options:
  "j_get ''inputTransportOptions'' (build_init_payload recv send pid aid caps)
     = (if ct_sctp_parameters send = None then None else Some (init_transport_options send))"
  "j_get ''inputSctpParameters'' (build_init_payload recv send pid aid caps) = ct_sctp_parameters send"
  by (cases "ct_sctp_parameters send";
      simp add: build_init_payload_def should_advertise_input_def attach_input_fields_get Let_def)+

lemma run_session_input_handshake:
  assumes "connect_send_transport (wh_engine h) rm sid vid dtls w = (Ok (), w1)"
    and "wh_send h (OutJson (mk_obj [(''action'', JStr ''ConnectedInputTransport'')])) w1 = (Ok (), w2)"
    and "produce_input_data (wh_engine h) (wh_neko h) (wh_env h) sid vid (input_options sctp lbl protocol) (rm, bs, w2)
           = (Ok i, rm3, bs3, w3)"
    and "wh_send h (OutJson (mk_obj [(''action'', JStr ''InputProduced''), (''id'', JStr i)])) w3 = (Ok (), w4)"
  shows "handle_message h sid vid (ConnectInputTransport dtls) caps (rm, bs, w) = (Ok caps, rm, bs, w2)"
    and "handle_message h sid vid (ProduceInput sctp lbl protocol) caps (rm, bs, w2) = (Ok caps, rm3, bs3, w4)"
  using assms by (simp_all add: handle_message_def keep_caps_def sock_def)

text \<open>The live test of \<open>router_manager.rs\<close>: a second input producer for a viewer is the first one, and when
  the viewer is removed its producer and consumer are dropped with the slot, so that producing again
  fails. The first half is a property of \<open>RouterManager\<close>.\<close>

lemma produce_input_data_live:
  assumes "dm_get (rm_sessions rm) sid = Some s" and "dm_get (ss_viewers s) vid = Some slot"
    and "vs_input_data_producer slot = Some p" and "vs_input_data_consumer slot = Some c"
    and "remove_viewer eng sid vid (rm, w) = (rm', w')"
  shows "w' = ms_drop eng (slot_ids slot) w" and "{p, c} \<subseteq> set (slot_ids slot)"
    and "produce_input_data eng ws env sid vid opts (rm', bs, w') = (Err (Fail ''viewer not found''), rm', bs, w')"
  using assms by (auto simp: remove_viewer_def put_session_def slot_ids_def produce_input_data_def input_begin_def
      find_slot_def)

end
