(* ===== verification/Spec2Isabelle.thy ===== *)
theory Spec2Isabelle
  imports SequenceStore SubdomainStore Bandwidth Jwt RevocationOracle PortAllocator Rathole
    CallbackClient SfuTransport InputBridge RouterManager SfuWs RouteBuilder CaddyAdmin ViewerGate
    EdgeConfig EdgeRoutes TunnelLife TunnelRoundtrip EdgeConcurrent PortLeases EdgeRaces EdgeServer PocSfu
    SfuBandwidth WireTests StoreTests AuthTests InputTests CaddyTests SfuTests
begin

text \<open>
  The edge server of dun-tunel (Rust, the crates under \<open>src/crates\<close>). An owner shares a browser
  session; the edge gives it a tunnel, a public host and a media router, and lets viewers in.

  The parts and how they meet. dun-api, the central service, asks \<open>edge-control\<close> to create, to
  delete or to re-key a session. A creation takes a local port (\<open>edge-rathole-bridge\<close>), registers
  the tunnel with rathole through its TOML file, installs the route of the host in Caddy through
  its admin API (\<open>edge-caddy-bridge\<close>), and provisions a router and the owner's producers in the
  SFU (\<open>edge-sfu\<close> on mediasoup). A viewer's request meets the route of the host in Caddy, which
  asks \<open>edge-viewer-gate\<close> about the cookie before it goes to the tunnel or to the WebSocket
  signalling of \<open>edge-control\<close>; there the viewer gets a slot, consumes the producers and may send
  input through a bridge to neko. In the background the bandwidth reporter (\<open>edge-bandwidth\<close>) and
  the snapshot reporter send events to dun-api through \<open>edge-callback-client\<close>.

  Theories, bottom up.
  \<^item> \<open>Prelude\<close>, \<open>RustStr\<close>: machine integers, results, calls over a world, association lists for
    \<open>DashMap\<close>; the string functions of the Rust standard library on UTF-8 bytes.
  \<^item> \<open>Interfaces\<close>: the contracts \<open>keyed_store\<close> and \<open>mirrored_store\<close>, interpreted by the maps in
    memory and by the stores on disk, and \<open>invariant_system\<close> and \<open>refined_system\<close>, interpreted by
    the concurrent edge; \<open>PortAllocator\<close> has the contract \<open>resource_pool\<close>.
  \<^item> \<open>Fs\<close>, \<open>SessionFiles\<close>: a directory tree whose calls fail on a schedule, and the atomic
    replacement of a file (\<open>config_writer.rs\<close>, \<open>persistence.rs\<close>, \<open>subdomain_store.rs\<close>);
    \<open>SequenceStore\<close>, \<open>SubdomainStore\<close>: one file per session, reloaded at boot.
  \<^item> \<open>SharedTypes\<close>, \<open>Jwt\<close>, \<open>RevocationOracle\<close>: the crate \<open>edge-shared\<close>.
  \<^item> \<open>PortAllocator\<close>, \<open>Rathole\<close>: the crate \<open>edge-rathole-bridge\<close>.
  \<^item> \<open>CallbackClient\<close>; \<open>Bandwidth\<close>: \<open>client.rs\<close>; \<open>delta.rs\<close> and \<open>reporter.rs\<close>.
  \<^item> \<open>SfuTransport\<close>, \<open>InputBridge\<close>, \<open>RouterManager\<close>: \<open>transport.rs\<close>; \<open>input_envelope.rs\<close> and
    \<open>neko_input_bridge.rs\<close>; \<open>router_manager.rs\<close> with \<open>viewer_cap.rs\<close>.
  \<^item> \<open>RouteBuilder\<close>, \<open>CaddyAdmin\<close>: the crate \<open>edge-caddy-bridge\<close>.
  \<^item> \<open>ViewerGate\<close>: the crate \<open>edge-viewer-gate\<close>.
  \<^item> \<open>SfuWs\<close>, \<open>EdgeConfig\<close>, \<open>EdgeRoutes\<close>: the crate \<open>edge-control\<close> (\<open>routes/sfu_ws.rs\<close>;
    \<open>config.rs\<close> and \<open>state.rs\<close>; the other routes) and the snapshot reporter; \<open>TunnelLife\<close>: the
    edge as a transition system of whole requests; \<open>TunnelRoundtrip\<close>: a session from its creation to its
    deletion; \<open>SfuBandwidth\<close>: the bandwidth reporter on the SFU it samples.
  \<^item> \<open>EdgeConcurrent\<close>: the handlers of \<open>tunnels.rs\<close> as step machines that stop at every await, many
    of them in flight and interleaved, the futures of a deletion's join in any order;
    \<open>PortLeases\<close>: the ports in this system; \<open>EdgeRaces\<close>: what goes wrong in it.
  \<^item> \<open>EdgeServer\<close>: \<open>main.rs\<close>, the table of the routes, and everything that runs in the process as
    one system, which refines the concurrent tunnels and the SFU.
  \<^item> \<open>PocSfu\<close>: the stand-alone experiment \<open>poc/neko-sfu\<close>, the actor of a viewer as a transition
    system of frames, mailbox messages, spawned tasks and input.
  \<^item> \<open>WireTests\<close>, \<open>StoreTests\<close>, \<open>AuthTests\<close>, \<open>InputTests\<close>, \<open>CaddyTests\<close>, \<open>SfuTests\<close>: the unit and
    property tests that the crates keep beside their code, each a definition with the name of the
    test, and \<open>passes_...\<close> that the model passes, a property test for all its inputs. What the ignored
    tests say should hold of a live mediasoup worker is proved there for every engine.

  State and calls. The state of each component is a record, threaded explicitly; a lock that the
  code holds makes a region one step, and where it gives the lock up (consume, input, the
  monitor) the region is split into its steps. What is not in the repository is a parameter:
  mediasoup (\<open>engine\<close>), the HTTP clients, Caddy, the JWT crate, TOML, the clock, the process
  table. Each call takes the state of the world and returns it with its result, which may be an
  error. Panics are values; release builds wrap integers around.

  What the lemmas show. The functional lemmas give every branch of an operation, errors
  included. Invariants are kept by all steps of a transition system: the viewer cap, the single
  input producer, the ports of the tunnels, the key cache of the gate, the types of the shared
  state. Refinements: stores against maps, the TOML file against the registry, Caddy's routes
  against an upsert and a removal, the port pool under concurrent requests against the life of a
  port; a handler run alone equals its sequential function. Termination: of a request whatever the
  others do, and of the work of a viewer's actor. Safety of the public surface: what a cookie opens, what is never reached without the
  gate. And what goes wrong: the theorems that end the sections of \<open>Bandwidth\<close>, \<open>RouterManager\<close>,
  \<open>SfuWs\<close>, \<open>CaddyAdmin\<close>, \<open>TunnelLife\<close> and \<open>EdgeRaces\<close> state defects the code has.

  Bounds and fuel. Loops of the code end: the retries are recursions with a measure or on the
  number of attempts left, the frames of a socket are a list, a polling loop is run for a number
  of iterations. No fuel is used; a creation takes at most nine steps, a rotation two, a deletion
  nine.

  Not modelled: \<open>queue.rs\<close> of the callback client, \<open>stats.rs\<close> of the SFU, \<open>batch.rs\<close> of the Caddy
  bridge and \<open>mtls.rs\<close> (comments without code), the set-up of logging in the \<open>main.rs\<close>
  files, the matching of paths by axum, the scheduler of tokio beyond the order of the steps (a call to Caddy or
  to mediasoup is one step of a request; that two additions of a route can also meet inside the
  call is a theorem of \<open>CaddyAdmin\<close>), the text that an error message quotes from its cause, and the
  placeholder \<open>tests/it_smoke.rs\<close>, whose plan is the lemma \<open>smoke_test\<close> of \<open>TunnelRoundtrip\<close>.
\<close>

section \<open>A cookie opens one session\<close>

text \<open>C7 Gate and signalling together: when the gate lets a request through and Caddy copies the
  subject of its answer onto the upgrade, the WebSocket that is then accepted is for the session
  that an unrevoked cookie, decoded under a cached key for this very host, was issued for.\<close>

theorem cookie_opens_only_its_session:
  assumes "check_handler g header_ok headers jwks revocation required now = (200, sub)"
    and "ws_headers ''x-forwarded-sub'' = sub"
    and "ws_handler h nanos session ws_headers peer_ip frames st = (Ok (), st')"
  shows "\<exists>raw token kid key claims.
     headers ''cookie'' = Some (Some raw) \<and> extract_cookie raw ''dun_share_session'' = Some token
     \<and> cr_header g token = Some (''EdDSA'', Some kid) \<and> jwks_get jwks kid = Some key
     \<and> cr_decode g token key ''viewer-cookie'' = Ok claims
     \<and> request_host g headers = Some (cr_lower g (ck_host claims))
     \<and> \<not> rl_contains revocation (ck_jti claims) \<and> ck_sub claims = session"
proof -
  obtain claims where a: "authorize g headers jwks revocation required now = Ok claims"
    and sub: "sub = (if header_ok (ck_sub claims) then Some (ck_sub claims) else None)"
    using assms(1) by (auto simp: check_handler_def split: result.splits if_splits)
  have "sub = Some session"
    using assms(2,3) by (auto simp: ws_handler_def authorize_viewer_def split: option.splits if_splits)
  then have "ck_sub claims = session" using sub by (auto split: if_splits)
  with authorize_OkD [OF a] show ?thesis by blast
qed

lemma cookie_opens_only_its_session_witness:
  "\<exists>claims. cr_decode demo_crypto ''x'' ''key'' ''viewer-cookie'' = Ok claims \<and> ck_sub claims = ''s''"
proof -
  have a: "check_handler demo_crypto (\<lambda>_. True) demo_headers [(''k'', ''key'')] (revocation_start None 0) True 0
      = (200, Some ''s'')"
    by (simp add: check_handler_def authorize_def demo_headers_def demo_cookie request_host_def demo_crypto_def demo_claims_def
        jwks_get_def rl_contains_def is_fresh_def revocation_start_def)
  obtain st' where w: "ws_handler demo_host 0 ''s'' (\<lambda>n. if n = ''x-forwarded-sub'' then Some ''s'' else None) ''p'' []
      (demo_rm, \<lparr>bs_registry = [], bs_store = [], bs_next = 0\<rparr>, True) = (Ok (), st')"
    by (simp add: ws_handler_def authorize_viewer_def)
  from cookie_opens_only_its_session [OF a _ w] show ?thesis
    by (auto simp: demo_headers_def demo_cookie jwks_get_def split: if_splits)
qed

end
